(* ===== verification/Prelude.thy ===== *)
theory Prelude
  imports Main "HOL-Library.Word"
begin

text \<open>
  Shared vocabulary of the development: machine integers and byte buffers as the Rust
  sources use them, checked slice access, big-endian conversions, the named collections
  that carry the automation, and a small locale for invariants of step relations.
\<close>

unbundle bit_operations_syntax

section \<open>Types\<close>

type_synonym u8 = "8 word"
type_synonym u16 = "16 word"
type_synonym u32 = "32 word"
type_synonym u64 = "64 word"
type_synonym i64 = "64 word"
type_synonym bytes = "u8 list"

text \<open>
  Packets are \<^typ>\<open>bytes\<close>. A Rust \<open>String\<close> is its UTF-8 encoding, one \<^typ>\<open>char\<close> per
  byte, so that \<open>length\<close> is Rust's \<open>len()\<close>.
\<close>

definition char_of_byte :: "u8 \<Rightarrow> char" where
  "char_of_byte b = char_of (unat b)"

definition byte_of_char :: "char \<Rightarrow> u8" where
  "byte_of_char c = of_nat (of_char c)"

named_theorems wire \<open>evaluation of byte-level definitions\<close>
named_theorems bounds \<open>length and size facts\<close>

lemma unat_byte_less [bounds]: "unat (b :: u8) < 256"
  using unsigned_less [of b] by simp

lemma byte_of_char_of_byte [simp]: "byte_of_char (char_of_byte b) = b"
proof -
  have "unat b mod 256 = unat b"
    using unat_byte_less by (rule mod_less)
  then show ?thesis
    by (simp add: byte_of_char_def char_of_byte_def)
qed

lemma char_of_byte_of_char [simp]: "char_of_byte (byte_of_char c) = c"
proof -
  have "(of_char c :: nat) < 256"
    using of_char_mod_256 [of c, where 'a = nat] by (metis mod_less_divisor zero_less_numeral)
  then have "unat (of_nat (of_char c) :: u8) = of_char c"
    by (simp add: unat_of_nat)
  then show ?thesis
    by (simp add: byte_of_char_def char_of_byte_def)
qed

lemma char_of_byte_eq_iff [simp]: "char_of_byte a = char_of_byte b \<longleftrightarrow> a = b"
  by (metis byte_of_char_of_byte)

lemma byte_of_char_eq_iff [simp]: "byte_of_char a = byte_of_char b \<longleftrightarrow> a = b"
  by (metis char_of_byte_of_char)

lemma inj_char_of_byte: "inj char_of_byte"
  by (rule injI) simp

section \<open>Checked access to buffers\<close>

text \<open>\<open>slice.get(i)\<close> and \<open>slice.get(i..j)\<close>: \<^const>\<open>None\<close> where the Rust method returns it.\<close>

definition slice_get :: "'a list \<Rightarrow> nat \<Rightarrow> 'a option" where
  "slice_get xs i = (if i < length xs then Some (xs ! i) else None)"

definition slice_range :: "'a list \<Rightarrow> nat \<Rightarrow> nat \<Rightarrow> 'a list option" where
  "slice_range xs i j =
     (if i \<le> j \<and> j \<le> length xs then Some (take (j - i) (drop i xs)) else None)"

lemma slice_get_Some_iff: "slice_get xs i = Some x \<longleftrightarrow> i < length xs \<and> xs ! i = x"
  by (auto simp: slice_get_def)

lemma slice_get_None_iff [simp]: "slice_get xs i = None \<longleftrightarrow> length xs \<le> i"
  by (auto simp: slice_get_def)

lemma slice_get_out [simp]: "length xs \<le> i \<Longrightarrow> slice_get xs i = None"
  by simp

lemma slice_get_nth [simp]: "i < length xs \<Longrightarrow> slice_get xs i = Some (xs ! i)"
  by (simp add: slice_get_def)

lemma slice_range_Some_iff:
  "slice_range xs i j = Some ys \<longleftrightarrow> i \<le> j \<and> j \<le> length xs \<and> ys = take (j - i) (drop i xs)"
  by (auto simp: slice_range_def)

lemma slice_range_length: "slice_range xs i j = Some ys \<Longrightarrow> length ys = j - i"
  by (auto simp: slice_range_Some_iff)

lemma slice_range_append [simp]:
  "slice_range (xs @ ys @ zs) (length xs) (length xs + length ys) = Some ys"
  by (simp add: slice_range_def)

section \<open>Big-endian integers\<close>

definition u16_from_be_bytes :: "u8 \<Rightarrow> u8 \<Rightarrow> u16" where
  "u16_from_be_bytes hi lo = push_bit 8 (ucast hi) OR ucast lo"

definition u16_to_be_bytes :: "u16 \<Rightarrow> bytes" where
  "u16_to_be_bytes w = [ucast (drop_bit 8 w), ucast w]"

definition u32_from_be_bytes :: "u8 \<Rightarrow> u8 \<Rightarrow> u8 \<Rightarrow> u8 \<Rightarrow> u32" where
  "u32_from_be_bytes a b c d =
     push_bit 24 (ucast a) OR push_bit 16 (ucast b) OR push_bit 8 (ucast c) OR ucast d"

definition u32_to_be_bytes :: "u32 \<Rightarrow> bytes" where
  "u32_to_be_bytes w =
     [ucast (drop_bit 24 w), ucast (drop_bit 16 w), ucast (drop_bit 8 w), ucast w]"

lemma u16_from_to_be_bytes [simp]:
  "u16_from_be_bytes (ucast (drop_bit 8 w)) (ucast w) = w"
  unfolding u16_from_be_bytes_def by (rule bit_word_eqI) (auto simp: bit_simps)

lemma u16_to_from_be_bytes [simp]: "u16_to_be_bytes (u16_from_be_bytes hi lo) = [hi, lo]"
proof -
  have "ucast (drop_bit 8 (u16_from_be_bytes hi lo)) = hi"
    unfolding u16_from_be_bytes_def
    by (rule bit_word_eqI) (auto simp: bit_simps dest: bit_imp_le_length)
  moreover have "ucast (u16_from_be_bytes hi lo) = lo"
    unfolding u16_from_be_bytes_def by (rule bit_word_eqI) (auto simp: bit_simps)
  ultimately show ?thesis
    by (simp add: u16_to_be_bytes_def)
qed

lemma u32_from_to_be_bytes [simp]:
  "u32_from_be_bytes (ucast (drop_bit 24 w)) (ucast (drop_bit 16 w))
     (ucast (drop_bit 8 w)) (ucast w) = w"
proof (rule bit_word_eqI)
  fix n
  assume "n < LENGTH(32)"
  then consider "n < 8" | "8 \<le> n" "n < 16" | "16 \<le> n" "n < 24" | "24 \<le> n" "n < 32"
    by fastforce
  then show "bit (u32_from_be_bytes (ucast (drop_bit 24 w)) (ucast (drop_bit 16 w))
     (ucast (drop_bit 8 w)) (ucast w)) n = bit w n"
    unfolding u32_from_be_bytes_def by cases (auto simp: bit_simps)
qed

lemma length_u16_to_be_bytes [simp]: "length (u16_to_be_bytes w) = 2"
  by (simp add: u16_to_be_bytes_def)

lemma length_u32_to_be_bytes [simp]: "length (u32_to_be_bytes w) = 4"
  by (simp add: u32_to_be_bytes_def)

lemmas be_defs [wire] =
  u16_from_be_bytes_def u16_to_be_bytes_def u32_from_be_bytes_def u32_to_be_bytes_def

section \<open>Invariants of step relations\<close>

text \<open>
  A component whose state changes step by step keeps a predicate in every state it can
  reach once each single step keeps it. The components instantiate this locale with their
  own step relation and invariant.
\<close>

locale step_invariant =
  fixes step :: "'s \<Rightarrow> 's \<Rightarrow> bool"
    and inv :: "'s \<Rightarrow> bool"
  assumes keeps: "inv s \<Longrightarrow> step s t \<Longrightarrow> inv t"
begin

lemma reach_inv: "step\<^sup>*\<^sup>* s t \<Longrightarrow> inv s \<Longrightarrow> inv t"
  by (induction rule: rtranclp_induct) (auto intro: keeps)

end

end
