(* ===== verification/Utf8.thy ===== *)
theory Utf8
  imports Prelude
begin

text \<open>
  The pieces of the Rust standard library on bytes that the packet parser uses:
  \<open>u8::to_ascii_lowercase\<close> and \<open>String::from_utf8_lossy\<close>, the latter following the
  maximal-subpart rule of \<open>core::str::lossy\<close> (one U+FFFD per maximal ill-formed sequence).
\<close>

section \<open>ASCII\<close>

definition to_ascii_lowercase :: "u8 \<Rightarrow> u8" where
  "to_ascii_lowercase b = (if 65 \<le> b \<and> b \<le> 90 then b OR 32 else b)"

lemma to_ascii_lowercase_upper:
  assumes "65 \<le> b" and "b \<le> (90 :: u8)"
  shows "b OR 32 = b + 32"
proof -
  have all: "\<forall>k \<in> set [65..<91]. (of_nat k :: u8) OR 32 = of_nat k + 32"
    by (simp add: upt_conv_Cons)
  have "unat b \<in> {65..<91}"
    using assms by (simp add: word_le_nat_alt)
  then have "unat b \<in> set [65..<91]"
    by (simp only: set_upt)
  with all have "(of_nat (unat b) :: u8) OR 32 = of_nat (unat b) + 32"
    by blast
  then show ?thesis
    by simp
qed

lemma to_ascii_lowercase_idem [simp]:
  "to_ascii_lowercase (to_ascii_lowercase b) = to_ascii_lowercase b"
proof (cases "65 \<le> b \<and> b \<le> 90")
  case True
  then have eq: "to_ascii_lowercase b = b + 32"
    by (simp add: to_ascii_lowercase_def to_ascii_lowercase_upper)
  from True have "unat (b + 32) = unat b + 32" and "65 \<le> unat b"
    by (auto simp: word_le_nat_alt unat_word_ariths)
  then have "\<not> b + 32 \<le> 90"
    by (simp add: word_le_nat_alt)
  then show ?thesis
    by (simp add: eq to_ascii_lowercase_def)
next
  case False
  then have "to_ascii_lowercase b = b" by (auto simp: to_ascii_lowercase_def)
  then show ?thesis by simp
qed

definition is_ascii :: "u8 \<Rightarrow> bool" where
  "is_ascii b \<longleftrightarrow> b < 128"

lemma to_ascii_lowercase_zero_iff [simp]: "to_ascii_lowercase b = 0 \<longleftrightarrow> b = 0"
  by (auto simp: to_ascii_lowercase_def to_ascii_lowercase_upper word_le_nat_alt
      unat_word_ariths unat_eq_0 [symmetric] simp del: unat_eq_0)

lemma is_ascii_lowercase [simp]: "is_ascii (to_ascii_lowercase b) \<longleftrightarrow> is_ascii b"
  by (auto simp: to_ascii_lowercase_def to_ascii_lowercase_upper is_ascii_def word_le_nat_alt
      word_less_nat_alt unat_word_ariths)

section \<open>Lossy UTF-8 decoding\<close>

definition is_continuation :: "u8 \<Rightarrow> bool" where
  "is_continuation b \<longleftrightarrow> b AND 0xC0 = 0x80"

text \<open>\<open>safe_get\<close> of the decoder: a byte past the end reads as 0.\<close>

definition byte_at :: "bytes \<Rightarrow> nat \<Rightarrow> u8" where
  "byte_at bs i = (if i < length bs then bs ! i else 0)"

definition second_ok :: "u8 \<Rightarrow> u8 \<Rightarrow> bool" where
  "second_ok b0 b1 \<longleftrightarrow>
     (b0 = 0xE0 \<and> 0xA0 \<le> b1 \<and> b1 \<le> 0xBF)
   \<or> (0xE1 \<le> b0 \<and> b0 \<le> 0xEC \<and> 0x80 \<le> b1 \<and> b1 \<le> 0xBF)
   \<or> (b0 = 0xED \<and> 0x80 \<le> b1 \<and> b1 \<le> 0x9F)
   \<or> (0xEE \<le> b0 \<and> b0 \<le> 0xEF \<and> 0x80 \<le> b1 \<and> b1 \<le> 0xBF)
   \<or> (b0 = 0xF0 \<and> 0x90 \<le> b1 \<and> b1 \<le> 0xBF)
   \<or> (0xF1 \<le> b0 \<and> b0 \<le> 0xF3 \<and> 0x80 \<le> b1 \<and> b1 \<le> 0xBF)
   \<or> (b0 = 0xF4 \<and> 0x80 \<le> b1 \<and> b1 \<le> 0x8F)"

text \<open>
  One step at a non-empty position: how many bytes it consumes, and whether they are a
  well-formed scalar value.
\<close>

definition utf8_step :: "bytes \<Rightarrow> nat \<times> bool" where
  "utf8_step bs =
     (let b0 = byte_at bs 0; b1 = byte_at bs 1; b2 = byte_at bs 2; b3 = byte_at bs 3 in
      if b0 < 0x80 then (1, True)
      else if 0xC2 \<le> b0 \<and> b0 \<le> 0xDF then
        (if is_continuation b1 then (2, True) else (1, False))
      else if 0xE0 \<le> b0 \<and> b0 \<le> 0xEF then
        (if \<not> second_ok b0 b1 then (1, False)
         else if is_continuation b2 then (3, True) else (2, False))
      else if 0xF0 \<le> b0 \<and> b0 \<le> 0xF4 then
        (if \<not> second_ok b0 b1 then (1, False)
         else if \<not> is_continuation b2 then (2, False)
         else if is_continuation b3 then (4, True) else (3, False))
      else (1, False))"

lemma utf8_step_pos: "0 < fst (utf8_step bs)"
  by (simp add: utf8_step_def Let_def)

definition replacement_character :: bytes where
  "replacement_character = [0xEF, 0xBF, 0xBD]"

function lossy_bytes :: "bytes \<Rightarrow> bytes" where
  "lossy_bytes bs =
     (if bs = [] then []
      else (if snd (utf8_step bs) then take (fst (utf8_step bs)) bs else replacement_character)
        @ lossy_bytes (drop (fst (utf8_step bs)) bs))"
  by pat_completeness auto
termination
  by (relation "measure length") (auto simp: utf8_step_pos)

declare lossy_bytes.simps [simp del]

definition from_utf8_lossy :: "bytes \<Rightarrow> string" where
  "from_utf8_lossy bs = map char_of_byte (lossy_bytes bs)"

lemma lossy_bytes_Nil [simp]: "lossy_bytes [] = []"
  by (subst lossy_bytes.simps) simp

lemma utf8_step_ascii: "is_ascii b \<Longrightarrow> utf8_step (b # bs) = (1, True)"
  by (simp add: utf8_step_def byte_at_def is_ascii_def)

lemma lossy_bytes_ascii_Cons [simp]:
  "is_ascii b \<Longrightarrow> lossy_bytes (b # bs) = b # lossy_bytes bs"
  by (subst lossy_bytes.simps) (simp add: utf8_step_ascii)

lemma lossy_bytes_ascii: "list_all is_ascii bs \<Longrightarrow> lossy_bytes bs = bs"
  by (induction bs) auto

lemma from_utf8_lossy_ascii:
  "list_all is_ascii bs \<Longrightarrow> from_utf8_lossy bs = map char_of_byte bs"
  by (simp add: from_utf8_lossy_def lossy_bytes_ascii)

text \<open>A byte of the input grows to at most three bytes of output.\<close>

lemma lossy_bytes_length [bounds]: "length (lossy_bytes bs) \<le> 3 * length bs"
proof (induction bs rule: lossy_bytes.induct)
  case (1 bs)
  show ?case
  proof (cases "bs = []")
    case True
    then show ?thesis by simp
  next
    case False
    obtain n ok where step: "utf8_step bs = (n, ok)" by fastforce
    have "0 < n" using utf8_step_pos [of bs] step by simp
    have IH: "length (lossy_bytes (drop n bs)) \<le> 3 * length (drop n bs)"
      using 1 False step by simp
    have "length (if ok then take n bs else replacement_character) \<le> 3 * min n (length bs)"
      using False \<open>0 < n\<close> by (cases bs; cases n) (auto simp: replacement_character_def)
    with IH False step show ?thesis
      by (subst lossy_bytes.simps) (auto simp: min_def split: if_splits)
  qed
qed

text \<open>An ASCII byte ends whatever sequence is open before it, so decoding splits there.\<close>

lemma byte_at_append: "byte_at (xs @ ys) i = (if i < length xs then byte_at xs i else byte_at ys (i - length xs))"
  by (auto simp: byte_at_def nth_append)

lemma ascii_no_continuation: "is_ascii b \<Longrightarrow> \<not> is_continuation b"
proof
  assume "is_ascii b" and "is_continuation b"
  then have "b AND 0xC0 = 0x80" and "b < 0x80"
    by (simp_all add: is_ascii_def is_continuation_def)
  moreover have "b AND 0xC0 \<le> b" by (rule word_and_le2)
  ultimately show False by (metis not_less)
qed

lemma ascii_not_second: "is_ascii b \<Longrightarrow> \<not> second_ok b0 b"
  by (auto simp: is_ascii_def second_ok_def word_le_nat_alt word_less_nat_alt)

lemma ascii_0 [simp]: "is_ascii 0"
  by (simp add: is_ascii_def)

lemma byte_at_out [simp]: "length bs \<le> i \<Longrightarrow> byte_at bs i = 0"
  by (simp add: byte_at_def)

lemma utf8_step_cong:
  assumes "bs \<noteq> []" and b0: "byte_at cs 0 = byte_at bs 0"
    and "\<And>i. i < length bs \<Longrightarrow> byte_at cs i = byte_at bs i"
    and "is_ascii (byte_at cs (length bs))"
  shows "utf8_step cs = utf8_step bs \<and> fst (utf8_step bs) \<le> length bs"
proof -
  consider "length bs = 1" | "length bs = 2" | "length bs = 3" | "4 \<le> length bs"
    using assms(1) by (cases "length bs") fastforce+
  then show ?thesis
  proof cases
    case 1
    then have b: "byte_at bs 1 = 0" and c: "is_ascii (byte_at cs 1)" using assms(4) by simp_all
    then show ?thesis
      using 1 ascii_no_continuation [OF c] ascii_not_second [OF c]
        ascii_no_continuation [OF ascii_0] ascii_not_second [OF ascii_0]
      unfolding utf8_step_def Let_def b0 b by simp
  next
    case 2
    then have b: "byte_at bs 2 = 0" and c: "is_ascii (byte_at cs 2)" using assms(4) by simp_all
    have e: "byte_at cs 1 = byte_at bs 1" using assms(3) [of 1] 2 by simp
    show ?thesis
      using 2 ascii_no_continuation [OF c] ascii_no_continuation [OF ascii_0]
      unfolding utf8_step_def Let_def b0 b e by simp
  next
    case 3
    then have b: "byte_at bs 3 = 0" and c: "is_ascii (byte_at cs 3)" using assms(4) by simp_all
    have e: "byte_at cs 1 = byte_at bs 1" "byte_at cs 2 = byte_at bs 2"
      using assms(3) [of 1] assms(3) [of 2] 3 by simp_all
    show ?thesis
      using 3 ascii_no_continuation [OF c] ascii_no_continuation [OF ascii_0]
      unfolding utf8_step_def Let_def b0 b e by simp
  next
    case 4
    have e: "byte_at cs 1 = byte_at bs 1" "byte_at cs 2 = byte_at bs 2" "byte_at cs 3 = byte_at bs 3"
      using assms(3) [of 1] assms(3) [of 2] assms(3) [of 3] 4 by simp_all
    show ?thesis
      using 4 unfolding utf8_step_def Let_def b0 e by simp
  qed
qed

lemma utf8_step_append_ascii:
  assumes "xs \<noteq> []" and "is_ascii b"
  shows "utf8_step (xs @ b # ys) = utf8_step xs" and "fst (utf8_step xs) \<le> length xs"
proof -
  have "utf8_step (xs @ b # ys) = utf8_step xs \<and> fst (utf8_step xs) \<le> length xs"
    using assms by (intro utf8_step_cong) (auto simp: byte_at_def nth_append)
  then show "utf8_step (xs @ b # ys) = utf8_step xs" and "fst (utf8_step xs) \<le> length xs"
    by simp_all
qed

lemma lossy_bytes_append_ascii:
  assumes "is_ascii b"
  shows "lossy_bytes (xs @ b # ys) = lossy_bytes xs @ b # lossy_bytes ys"
proof (induction xs rule: lossy_bytes.induct)
  case (1 xs)
  show ?case
  proof (cases "xs = []")
    case True
    with assms show ?thesis by simp
  next
    case False
    note step = utf8_step_append_ascii(1) [OF False assms] utf8_step_append_ascii(2) [OF False assms]
    then show ?thesis
      using 1 False by (subst (1 2) lossy_bytes.simps) simp
  qed
qed

lemma from_utf8_lossy_append_ascii:
  "is_ascii b \<Longrightarrow> from_utf8_lossy (xs @ b # ys) = from_utf8_lossy xs @ char_of_byte b # from_utf8_lossy ys"
  by (simp add: from_utf8_lossy_def lossy_bytes_append_ascii)

end
