(* ===== verification/Externals.thy ===== *)
theory Externals
  imports Utf8
begin

text \<open>
  The third-party code the DNS path calls, as a record of operations that every definition
  using it takes as an argument, together with the documented behaviour each of them has.
  The laws are predicates on the record; a theorem that needs one has it as a hypothesis.
  \<open>sample_libs\<close> is one concrete record that satisfies them, used by the witnesses.
\<close>

section \<open>Values that cross the interface\<close>

text \<open>\<open>hickory_proto::op::ResponseCode\<close>, the constructors the sources use.\<close>

datatype response_code = NoError | ServFail | NXDomain | RC_Refused | Unknown u16

text \<open>\<open>std::net::IpAddr\<close> and \<open>std::net::SocketAddr\<close>.\<close>

datatype ip_addr = V4 u32 | V6 "128 word"

datatype socket_addr = SocketV4 u32 u16 | SocketV6 "128 word" u16 u32 u32

fun socket_ip :: "socket_addr \<Rightarrow> ip_addr" where
  "socket_ip (SocketV4 ip _) = V4 ip"
| "socket_ip (SocketV6 ip _ _ _) = V6 ip"

text \<open>An SQL error carries its message; only its presence matters to the code.\<close>

type_synonym sql_error = string
type_synonym ('db, 'r) sql = "'db \<Rightarrow> (sql_error + 'r) \<times> 'db"

section \<open>The operations\<close>

record 'rt dns_libs =
  memchr_iter :: "char \<Rightarrow> string \<Rightarrow> nat list"
  heapless_write_str :: "nat \<Rightarrow> string \<Rightarrow> string \<Rightarrow> string \<times> bool"
  rt_from_u16 :: "u16 \<Rightarrow> 'rt"
  rt_to_u16 :: "'rt \<Rightarrow> u16"
  rt_display :: "'rt \<Rightarrow> string"
  rt_A :: 'rt
  rt_AAAA :: 'rt
  rc_to_u16 :: "response_code \<Rightarrow> u16"
  unicode_lowercase :: "string \<Rightarrow> string"

section \<open>Their documented behaviour\<close>

text \<open>\<open>memchr_iter\<close> yields the positions of a byte in increasing order.\<close>

definition memchr_law :: "('rt, 'x) dns_libs_scheme \<Rightarrow> bool" where
  "memchr_law L \<longleftrightarrow> (\<forall>c s. memchr_iter L c s = filter (\<lambda>i. s ! i = c) [0..<length s])"

text \<open>
  \<open>heapless::String<N>::write_str\<close> appends the text when it fits in the capacity and
  otherwise reports an error, leaving the string as it was.
\<close>

definition heapless_law :: "('rt, 'x) dns_libs_scheme \<Rightarrow> bool" where
  "heapless_law L \<longleftrightarrow> (\<forall>cap buf s. heapless_write_str L cap buf s =
     (if length buf + length s \<le> cap then (buf @ s, True) else (buf, False)))"

text \<open>\<open>RecordType\<close> keeps the wire code, and A and AAAA are codes 1 and 28.\<close>

definition record_type_law :: "('rt, 'x) dns_libs_scheme \<Rightarrow> bool" where
  "record_type_law L \<longleftrightarrow>
     (\<forall>c. rt_to_u16 L (rt_from_u16 L c) = c) \<and>
     rt_from_u16 L 1 = rt_A L \<and> rt_from_u16 L 28 = rt_AAAA L"

text \<open>\<open>u16::from(ResponseCode)\<close> is the RCODE number.\<close>

definition response_code_law :: "('rt, 'x) dns_libs_scheme \<Rightarrow> bool" where
  "response_code_law L \<longleftrightarrow>
     rc_to_u16 L NoError = 0 \<and> rc_to_u16 L ServFail = 2 \<and> rc_to_u16 L NXDomain = 3 \<and>
     rc_to_u16 L RC_Refused = 5 \<and> (\<forall>n. rc_to_u16 L (Unknown n) = n)"

lemma memchr_iterD: "memchr_law L \<Longrightarrow> memchr_iter L c s = filter (\<lambda>i. s ! i = c) [0..<length s]"
  by (simp add: memchr_law_def)

lemma heapless_writeD:
  "heapless_law L \<Longrightarrow> heapless_write_str L cap buf s =
     (if length buf + length s \<le> cap then (buf @ s, True) else (buf, False))"
  by (simp add: heapless_law_def)

lemma record_type_A_code: "record_type_law L \<Longrightarrow> rt_to_u16 L (rt_A L) = 1"
  and record_type_AAAA_code: "record_type_law L \<Longrightarrow> rt_to_u16 L (rt_AAAA L) = 28"
  unfolding record_type_law_def by metis+

lemma record_type_A_neq_AAAA: "record_type_law L \<Longrightarrow> rt_A L \<noteq> rt_AAAA L"
proof
  assume law: "record_type_law L" and "rt_A L = rt_AAAA L"
  then have "(1 :: u16) = 28"
    using record_type_A_code record_type_AAAA_code by metis
  then show False by simp
qed

section \<open>A record that satisfies the laws\<close>

fun sample_rc_to_u16 :: "response_code \<Rightarrow> u16" where
  "sample_rc_to_u16 NoError = 0"
| "sample_rc_to_u16 ServFail = 2"
| "sample_rc_to_u16 NXDomain = 3"
| "sample_rc_to_u16 RC_Refused = 5"
| "sample_rc_to_u16 (Unknown n) = n"

definition sample_rt_display :: "u16 \<Rightarrow> string" where
  "sample_rt_display t = (if t = 1 then ''A'' else if t = 28 then ''AAAA'' else ''Unknown'')"

definition sample_libs :: "u16 dns_libs" where
  "sample_libs = \<lparr>
     memchr_iter = (\<lambda>c s. filter (\<lambda>i. s ! i = c) [0..<length s]),
     heapless_write_str = (\<lambda>cap buf s.
       if length buf + length s \<le> cap then (buf @ s, True) else (buf, False)),
     rt_from_u16 = id, rt_to_u16 = id, rt_display = sample_rt_display,
     rt_A = 1, rt_AAAA = 28, rc_to_u16 = sample_rc_to_u16,
     unicode_lowercase = map (\<lambda>c. char_of_byte (to_ascii_lowercase (byte_of_char c)))\<rparr>"

lemma sample_libs_laws [simp]:
  "memchr_law sample_libs" "heapless_law sample_libs"
  "record_type_law sample_libs" "response_code_law sample_libs"
  by (simp_all add: sample_libs_def memchr_law_def heapless_law_def record_type_law_def
      response_code_law_def)

section \<open>Formatted writes\<close>

text \<open>
  \<open>core::fmt::write\<close>: the pieces of a format string and the texts of its arguments are
  handed to \<open>write_str\<close> in order, and the first error ends the writing. The buffer after
  an error is what had been written before it.
\<close>

fun fmt_write :: "('rt, 'x) dns_libs_scheme \<Rightarrow> nat \<Rightarrow> string \<Rightarrow> string list \<Rightarrow> string \<times> bool" where
  "fmt_write L cap buf [] = (buf, True)"
| "fmt_write L cap buf (p # ps) =
     (case heapless_write_str L cap buf p of
        (buf', True) \<Rightarrow> fmt_write L cap buf' ps
      | (buf', False) \<Rightarrow> (buf', False))"

lemma fmt_write_fits:
  assumes "heapless_law L" and "length buf + length (concat ps) \<le> cap"
  shows "fmt_write L cap buf ps = (buf @ concat ps, True)"
  using assms(2)
  by (induction ps arbitrary: buf) (simp_all add: heapless_writeD [OF assms(1)])

lemma fmt_write_length:
  assumes "heapless_law L" and "length buf \<le> cap"
  shows "length (fst (fmt_write L cap buf ps)) \<le> cap"
  using assms(2)
  by (induction ps arbitrary: buf) (simp_all add: heapless_writeD [OF assms(1)])

end
