(* ===== verification/Config.thy ===== *)
theory Config
  imports Externals
begin

text \<open>
  \<open>backend/src/config.rs\<close>: the runtime configuration, the patches the management API
  applies to it, and its persistence in the \<open>settings\<close> table.
\<close>

section \<open>Data\<close>

datatype blocking_mode = NxDomain | Mode_Refused | ZeroIp

definition default_blocking_mode :: blocking_mode where
  "default_blocking_mode = NxDomain"

definition default_neg_ttl :: u32 where
  "default_neg_ttl = 60"

record runtime_config =
  upstreams :: "socket_addr list"
  upstream_timeout_ms :: u64
  blocking_mode :: blocking_mode
  cache_min_ttl :: u32
  cache_max_ttl :: u32
  neg_ttl :: u32

text \<open>\<open>RuntimeConfig::from_cli\<close>, over the two command-line values it reads.\<close>

definition from_cli :: "socket_addr list \<Rightarrow> u64 \<Rightarrow> runtime_config" where
  "from_cli servers timeout_ms = \<lparr>
     upstreams = servers,
     upstream_timeout_ms = timeout_ms,
     blocking_mode = default_blocking_mode,
     cache_min_ttl = 0,
     cache_max_ttl = 86400,
     neg_ttl = default_neg_ttl\<rparr>"

section \<open>TTL clamping\<close>

text \<open>
  \<open>Ord::clamp\<close> on \<open>u32\<close> asserts \<open>min \<le> max\<close>: \<^const>\<open>None\<close> is the panic of that assertion.
\<close>

definition u32_clamp :: "u32 \<Rightarrow> u32 \<Rightarrow> u32 \<Rightarrow> u32 option" where
  "u32_clamp x lo hi =
     (if \<not> lo \<le> hi then None
      else Some (if x < lo then lo else if x > hi then hi else x))"

definition clamp_ttl :: "runtime_config \<Rightarrow> u32 \<Rightarrow> u32 option" where
  "clamp_ttl cfg ttl =
     u32_clamp ttl (cache_min_ttl cfg) (max (cache_max_ttl cfg) (cache_min_ttl cfg))"

text \<open>The value \<open>clamp_ttl\<close> returns; \<open>clamp_ttl_returns\<close> shows that it never panics.\<close>

definition clamped :: "runtime_config \<Rightarrow> u32 \<Rightarrow> u32" where
  "clamped cfg ttl =
     max (cache_min_ttl cfg) (min ttl (max (cache_max_ttl cfg) (cache_min_ttl cfg)))"

lemma clamp_ttl_eq: "clamp_ttl cfg ttl = Some (clamped cfg ttl)"
  by (auto simp: clamp_ttl_def u32_clamp_def clamped_def max_def min_def)

lemma clamped_lower [bounds]: "cache_min_ttl cfg \<le> clamped cfg ttl"
  by (simp add: clamped_def)

lemma clamped_upper [bounds]: "clamped cfg ttl \<le> max (cache_max_ttl cfg) (cache_min_ttl cfg)"
  by (simp add: clamped_def)

lemma clamped_id:
  "cache_min_ttl cfg \<le> ttl \<Longrightarrow> ttl \<le> cache_max_ttl cfg \<Longrightarrow> clamped cfg ttl = ttl"
  by (auto simp: clamped_def max_def min_def)

lemma clamped_mono: "t \<le> u \<Longrightarrow> clamped cfg t \<le> clamped cfg u"
  by (auto simp: clamped_def max_def min_def)

section \<open>Sinkhole addresses\<close>

definition zero_ip_for :: "('rt, 'x) dns_libs_scheme \<Rightarrow> 'rt \<Rightarrow> ip_addr option" where
  "zero_ip_for L qtype =
     (if qtype = rt_A L then Some (V4 0)
      else if qtype = rt_AAAA L then Some (V6 0)
      else None)"

section \<open>Patches\<close>

record runtime_config_patch =
  p_upstreams :: "socket_addr list option"
  p_upstream_timeout_ms :: "u64 option"
  p_blocking_mode :: "blocking_mode option"
  p_cache_min_ttl :: "u32 option"
  p_cache_max_ttl :: "u32 option"
  p_neg_ttl :: "u32 option"

definition unwrap_or :: "'a option \<Rightarrow> 'a \<Rightarrow> 'a" where
  "unwrap_or x d = (case x of None \<Rightarrow> d | Some v \<Rightarrow> v)"

lemma unwrap_or_simps [simp]: "unwrap_or None d = d" "unwrap_or (Some v) d = v"
  by (simp_all add: unwrap_or_def)

definition apply_to :: "runtime_config_patch \<Rightarrow> runtime_config \<Rightarrow> runtime_config" where
  "apply_to p base = \<lparr>
     upstreams = unwrap_or (p_upstreams p) (upstreams base),
     upstream_timeout_ms = unwrap_or (p_upstream_timeout_ms p) (upstream_timeout_ms base),
     blocking_mode = unwrap_or (p_blocking_mode p) (blocking_mode base),
     cache_min_ttl = unwrap_or (p_cache_min_ttl p) (cache_min_ttl base),
     cache_max_ttl = unwrap_or (p_cache_max_ttl p) (cache_max_ttl base),
     neg_ttl = unwrap_or (p_neg_ttl p) (neg_ttl base)\<rparr>"

text \<open>\<open>RuntimeConfigPatch::default()\<close>: no field set.\<close>

definition empty_patch :: runtime_config_patch where
  "empty_patch = \<lparr>p_upstreams = None, p_upstream_timeout_ms = None, p_blocking_mode = None,
     p_cache_min_ttl = None, p_cache_max_ttl = None, p_neg_ttl = None\<rparr>"

text \<open>What two patches in sequence amount to: the later one wins field by field.\<close>

definition or_else :: "'a option \<Rightarrow> 'a option \<Rightarrow> 'a option" where
  "or_else x y = (case x of None \<Rightarrow> y | Some v \<Rightarrow> Some v)"

lemma unwrap_or_or_else [simp]: "unwrap_or (or_else x y) d = unwrap_or x (unwrap_or y d)"
  by (cases x) (simp_all add: or_else_def)

lemma unwrap_or_twice [simp]: "unwrap_or x (unwrap_or x d) = unwrap_or x d"
  by (cases x) simp_all

definition patch_then :: "runtime_config_patch \<Rightarrow> runtime_config_patch \<Rightarrow> runtime_config_patch" where
  "patch_then p q = \<lparr>
     p_upstreams = or_else (p_upstreams q) (p_upstreams p),
     p_upstream_timeout_ms = or_else (p_upstream_timeout_ms q) (p_upstream_timeout_ms p),
     p_blocking_mode = or_else (p_blocking_mode q) (p_blocking_mode p),
     p_cache_min_ttl = or_else (p_cache_min_ttl q) (p_cache_min_ttl p),
     p_cache_max_ttl = or_else (p_cache_max_ttl q) (p_cache_max_ttl p),
     p_neg_ttl = or_else (p_neg_ttl q) (p_neg_ttl p)\<rparr>"

lemma apply_to_empty [simp]: "apply_to empty_patch cfg = cfg"
  by (simp add: apply_to_def empty_patch_def)

lemma apply_to_idem [simp]: "apply_to p (apply_to p cfg) = apply_to p cfg"
  by (simp add: apply_to_def)

lemma apply_to_apply_to: "apply_to q (apply_to p cfg) = apply_to (patch_then p q) cfg"
  by (simp add: apply_to_def patch_then_def)

section \<open>Persistence\<close>

text \<open>
  \<open>serde_json\<close> and the three statements on the \<open>settings\<close> table, one field each:
  the \<open>CREATE TABLE IF NOT EXISTS\<close>, \<open>SELECT config FROM settings WHERE id = 1\<close>, and the
  \<open>INSERT ... ON CONFLICT (id) DO UPDATE\<close>.
\<close>

record 'db settings_libs =
  to_json :: "runtime_config \<Rightarrow> string"
  from_json :: "string \<Rightarrow> runtime_config option"
  create_settings :: "('db, unit) sql"
  select_config :: "('db, string option) sql"
  upsert_config :: "string \<Rightarrow> ('db, unit) sql"

definition persist :: "('db, 'x) settings_libs_scheme \<Rightarrow> runtime_config \<Rightarrow> ('db, unit) sql" where
  "persist S cfg db = upsert_config S (to_json S cfg) db"

definition load_or_init ::
  "('db, 'x) settings_libs_scheme \<Rightarrow> runtime_config \<Rightarrow> ('db, runtime_config) sql" where
  "load_or_init S defaults db =
     (case create_settings S db of
        (Inl e, db1) \<Rightarrow> (Inl e, db1)
      | (Inr _, db1) \<Rightarrow>
          (case select_config S db1 of
             (Inl e, db2) \<Rightarrow> (Inl e, db2)
           | (Inr existing, db2) \<Rightarrow>
               (case Option.bind existing (from_json S) of
                  Some cfg \<Rightarrow> (Inr cfg, db2)
                | None \<Rightarrow>
                    (case persist S defaults db2 of
                       (Inl e, db3) \<Rightarrow> (Inl e, db3)
                     | (Inr _, db3) \<Rightarrow> (Inr defaults, db3)))))"

text \<open>
  What the code relies on: \<open>serde_json\<close> reads back what it wrote; the row written by the
  upsert is what the select returns; creating a table that exists and selecting leave the
  row alone. \<open>row\<close> reads the stored text of a database state.
\<close>

definition settings_law :: "('db, 'x) settings_libs_scheme \<Rightarrow> ('db \<Rightarrow> string option) \<Rightarrow> bool" where
  "settings_law S row \<longleftrightarrow>
     (\<forall>cfg. from_json S (to_json S cfg) = Some cfg) \<and>
     (\<forall>db r db'. create_settings S db = (r, db') \<longrightarrow> row db' = row db) \<and>
     (\<forall>db r db'. select_config S db = (r, db') \<longrightarrow>
        row db' = row db \<and> (\<forall>v. r = Inr v \<longrightarrow> v = row db)) \<and>
     (\<forall>s db u db'. upsert_config S s db = (Inr u, db') \<longrightarrow> row db' = Some s)"

lemma settings_lawD:
  assumes "settings_law S row"
  shows "from_json S (to_json S cfg) = Some cfg"
    and "create_settings S db = (r, db') \<Longrightarrow> row db' = row db"
    and "select_config S db = (r', db') \<Longrightarrow> row db' = row db"
    and "select_config S db = (Inr v, db') \<Longrightarrow> v = row db"
    and "upsert_config S s db = (Inr u, db') \<Longrightarrow> row db' = Some s"
proof -
  note law = assms [unfolded settings_law_def]
  show "from_json S (to_json S cfg) = Some cfg"
    using law by simp
  show "create_settings S db = (r, db') \<Longrightarrow> row db' = row db"
    using law by simp
  show "select_config S db = (r', db') \<Longrightarrow> row db' = row db"
    using law by simp
  show "select_config S db = (Inr v, db') \<Longrightarrow> v = row db"
    using law by simp
  show "upsert_config S s db = (Inr u, db') \<Longrightarrow> row db' = Some s"
    using law by simp
qed

text \<open>The two ways a start succeeds: the row is readable, or it is seeded.\<close>

lemma load_or_init_InrE:
  assumes "load_or_init S defaults db = (Inr cfg, db')"
  obtains (loaded) db1 v where "create_settings S db = (Inr (), db1)"
      "select_config S db1 = (Inr v, db')" "Option.bind v (from_json S) = Some cfg"
  | (seeded) db1 v db2 where "create_settings S db = (Inr (), db1)"
      "select_config S db1 = (Inr v, db2)" "Option.bind v (from_json S) = None"
      "persist S defaults db2 = (Inr (), db')" "cfg = defaults"
  using assms by (auto simp: load_or_init_def split: prod.splits sum.splits option.splits)

text \<open>After a start that succeeds, the stored text reads back as the configuration in use.\<close>

lemma load_or_init_stores:
  assumes law: "settings_law S row"
    and run: "load_or_init S defaults db = (Inr cfg, db')"
  shows "Option.bind (row db') (from_json S) = Some cfg"
  using run
proof (cases rule: load_or_init_InrE)
  case (loaded db1 v)
  then show ?thesis
    using settings_lawD(3,4) [OF law loaded(2)] by simp
next
  case (seeded db1 v db2)
  then have "row db' = Some (to_json S defaults)"
    by (auto simp: persist_def dest: settings_lawD(5) [OF law])
  then show ?thesis
    by (simp add: settings_lawD(1) [OF law] seeded(5))
qed

text \<open>A start that finds a readable row returns it, whatever the defaults are.\<close>

lemma load_or_init_reads:
  assumes law: "settings_law S row"
    and stored: "Option.bind (row db) (from_json S) = Some cfg"
    and run: "load_or_init S defaults db = (Inr cfg', db')"
  shows "cfg' = cfg"
  using run
proof (cases rule: load_or_init_InrE)
  case (loaded db1 v)
  then show ?thesis
    using stored settings_lawD(2) [OF law loaded(1)] settings_lawD(4) [OF law loaded(2)] by simp
next
  case (seeded db1 v db2)
  then show ?thesis
    using stored settings_lawD(2) [OF law seeded(1)] settings_lawD(4) [OF law seeded(2)] by simp
qed

end
