(* ===== verification/Parser.thy ===== *)
theory Parser
  imports Externals
begin

text \<open>
  \<open>backend/src/handler/parser.rs\<close>: the question section of a DNS query, parsed from the
  raw packet, and the TTL of the first answer record. The loop of \<open>parse_question\<close> is the
  function \<open>parse_loop\<close> over the same four variables.
\<close>

section \<open>Data\<close>

definition HEADER :: nat where "HEADER = 12"
definition MAX_LABEL :: nat where "MAX_LABEL = 63"
definition MAX_NAME :: nat where "MAX_NAME = 255"

lemmas parser_limits = HEADER_def MAX_LABEL_def MAX_NAME_def

datatype parse_error =
    TooShort nat
  | Truncated
  | LabelTooLong u8
  | NameTooLong
  | CompressionPointer

datatype parse_state = Length | Scan

text \<open>\<open>handler::Query\<close>. The record type is abstract: its operations are in the libraries record.\<close>

record 'rt query =
  q_name :: string
  q_type :: 'rt
  q_raw :: bytes
  q_answer_offset :: nat

section \<open>Operations\<close>

function (sequential) parse_loop ::
  "bytes \<Rightarrow> nat \<Rightarrow> nat \<Rightarrow> parse_state \<Rightarrow> bytes \<Rightarrow> parse_error + bytes \<times> nat" where
  "parse_loop data idx len state buf =
     (case slice_get data idx of
        None \<Rightarrow> Inl Truncated
      | Some byte \<Rightarrow>
          if byte = 0 then Inr (buf, idx)
          else case state of
            Length \<Rightarrow>
              if 0xC0 \<le> byte then Inl CompressionPointer
              else if MAX_LABEL < unat byte then Inl (LabelTooLong byte)
              else parse_loop data (idx + 1) (unat byte) Scan buf
          | Scan \<Rightarrow>
              (case slice_range data idx (idx + len) of
                 None \<Rightarrow> Inl Truncated
               | Some label \<Rightarrow>
                   if MAX_NAME < length buf + length label + 1 then Inl NameTooLong
                   else
                     (case slice_get data (idx + len) of
                        None \<Rightarrow> Inl Truncated
                      | Some next_byte \<Rightarrow>
                          parse_loop data (idx + len) len Length
                            (buf @ map to_ascii_lowercase label
                               @ (if next_byte \<noteq> 0 then [46] else [])))))"
  by pat_completeness auto
termination
  by (relation "measure (\<lambda>(data, idx, len, state, buf).
        2 * (length data - idx) + (case state of Length \<Rightarrow> 0 | Scan \<Rightarrow> 1))")
    (auto simp: slice_get_Some_iff)

declare parse_loop.simps [simp del]

definition parse_question :: "bytes \<Rightarrow> parse_error + bytes \<times> nat" where
  "parse_question data = parse_loop data HEADER 0 Length []"

definition parse_qtype :: "bytes \<Rightarrow> nat \<Rightarrow> parse_error + u16" where
  "parse_qtype data idx =
     (case slice_get data (idx + 1) of
        None \<Rightarrow> Inl Truncated
      | Some hi \<Rightarrow>
          (case slice_get data (idx + 2) of
             None \<Rightarrow> Inl Truncated
           | Some lo \<Rightarrow> Inr (u16_from_be_bytes hi lo)))"

definition parse_ttl :: "bytes \<Rightarrow> nat \<Rightarrow> u32" where
  "parse_ttl data idx =
     (case slice_range data (idx + 6) (idx + 6 + 4) of
        Some b \<Rightarrow> u32_from_be_bytes (b ! 0) (b ! 1) (b ! 2) (b ! 3)
      | None \<Rightarrow> 0)"

definition parse_udp :: "('rt, 'x) dns_libs_scheme \<Rightarrow> bytes \<Rightarrow> parse_error + 'rt query" where
  "parse_udp L data =
     (if length data < HEADER then Inl (TooShort (length data))
      else case parse_question data of
        Inl e \<Rightarrow> Inl e
      | Inr (qname, idx) \<Rightarrow>
          (case parse_qtype data idx of
             Inl e \<Rightarrow> Inl e
           | Inr qtype \<Rightarrow>
               Inr \<lparr>q_name = from_utf8_lossy qname,
                    q_type = rt_from_u16 L qtype,
                    q_raw = data,
                    q_answer_offset = idx + 5\<rparr>))"

section \<open>The steps of the loop\<close>

lemma parse_loop_end: "slice_get data idx = Some 0 \<Longrightarrow> parse_loop data idx len st buf = Inr (buf, idx)"
  by (subst parse_loop.simps) simp

lemma parse_loop_out: "length data \<le> idx \<Longrightarrow> parse_loop data idx len st buf = Inl Truncated"
  by (subst parse_loop.simps) simp

lemma parse_loop_Length:
  assumes "slice_get data idx = Some b" and "b \<noteq> 0" and "unat b \<le> MAX_LABEL"
  shows "parse_loop data idx len Length buf = parse_loop data (idx + 1) (unat b) Scan buf"
proof -
  have "\<not> 0xC0 \<le> b"
    using assms(3) by (simp add: word_le_nat_alt MAX_LABEL_def)
  then show ?thesis
    using assms by (subst parse_loop.simps) simp
qed

lemma parse_loop_Scan:
  assumes "slice_get data idx = Some b" and "b \<noteq> 0"
    and "slice_range data idx (idx + len) = Some label"
    and "length buf + length label + 1 \<le> MAX_NAME"
    and "slice_get data (idx + len) = Some c"
  shows "parse_loop data idx len Scan buf =
    parse_loop data (idx + len) len Length
      (buf @ map to_ascii_lowercase label @ (if c \<noteq> 0 then [46] else []))"
  using assms by (subst parse_loop.simps) simp

text \<open>The two ways an iteration that succeeds can go on, as an elimination rule.\<close>

lemma parse_loop_InrE:
  assumes "parse_loop data idx len st buf = Inr res"
  obtains (finished) "slice_get data idx = Some 0" "res = (buf, idx)"
  | (label_length) b where "st = Length" "slice_get data idx = Some b" "b \<noteq> 0"
      "unat b \<le> MAX_LABEL" "parse_loop data (idx + 1) (unat b) Scan buf = Inr res"
  | (label_body) b label c where "st = Scan" "slice_get data idx = Some b" "b \<noteq> 0"
      "slice_range data idx (idx + len) = Some label"
      "length buf + length label + 1 \<le> MAX_NAME" "slice_get data (idx + len) = Some c"
      "parse_loop data (idx + len) len Length
         (buf @ map to_ascii_lowercase label @ (if c \<noteq> 0 then [46] else [])) = Inr res"
  using assms
  by (subst (asm) parse_loop.simps)
    (auto simp: not_less split: option.splits if_splits parse_state.splits)

end
