(* ===== verification/Wire_Names.thy ===== *)
theory Wire_Names
  imports Parser
begin

text \<open>
  What the parser of \<open>handler/parser.rs\<close> accepts, stated over the wire format of RFC 1035:
  a name is a sequence of labels, each preceded by its length, ended by a zero byte. The
  lemmas relate \<open>parse_question\<close> and \<open>parse_udp\<close> to that grammar in both directions.
\<close>

section \<open>The grammar\<close>

definition label_ok :: "bytes \<Rightarrow> bool" where
  "label_ok l \<longleftrightarrow> l \<noteq> [] \<and> length l \<le> MAX_LABEL \<and> hd l \<noteq> 0"

definition encode_label :: "bytes \<Rightarrow> bytes" where
  "encode_label l = of_nat (length l) # l"

definition encode_labels :: "bytes list \<Rightarrow> bytes" where
  "encode_labels ls = concat (map encode_label ls)"

definition encode_name :: "bytes list \<Rightarrow> bytes" where
  "encode_name ls = encode_labels ls @ [0]"

fun dotted :: "bytes list \<Rightarrow> bytes" where
  "dotted [] = []"
| "dotted [l] = l"
| "dotted (l # ls) = l @ [46] @ dotted ls"

definition lowered :: "bytes \<Rightarrow> bytes" where
  "lowered bs = map to_ascii_lowercase bs"

definition dot_terminated :: "bytes list \<Rightarrow> bytes" where
  "dot_terminated ls = concat (map (\<lambda>l. l @ [46]) ls)"

lemma encode_labels_simps [simp]:
  "encode_labels [] = []"
  "encode_labels (l # ls) = of_nat (length l) # l @ encode_labels ls"
  by (simp_all add: encode_labels_def encode_label_def)

lemma dot_terminated_simps [simp]:
  "dot_terminated [] = []"
  "dot_terminated (l # ls) = l @ 46 # dot_terminated ls"
  by (simp_all add: dot_terminated_def)

lemma dotted_Cons: "dotted (l # ls) = (if ls = [] then l else l @ 46 # dotted ls)"
  by (cases ls) simp_all

lemma lowered_simps [simp]:
  "lowered [] = []" "lowered (xs @ ys) = lowered xs @ lowered ys"
  "lowered (b # bs) = to_ascii_lowercase b # lowered bs"
  by (simp_all add: lowered_def)

lemma to_ascii_lowercase_dot [simp]: "to_ascii_lowercase 46 = 46"
  by (simp add: to_ascii_lowercase_def)

lemma lowered_idem [simp]: "lowered (lowered bs) = lowered bs"
  by (simp add: lowered_def)

lemma length_lowered [simp]: "length (lowered bs) = length bs"
  by (simp add: lowered_def)

lemma label_ok_length:
  assumes "label_ok l"
  shows "unat (of_nat (length l) :: u8) = length l" and "(of_nat (length l) :: u8) \<noteq> 0"
    and "0 < length l" and "length l \<le> MAX_LABEL"
proof -
  from assms show pos: "0 < length l" and le: "length l \<le> MAX_LABEL"
    by (auto simp: label_ok_def)
  from le have "length l < 256"
    by (simp add: MAX_LABEL_def)
  then show eq: "unat (of_nat (length l) :: u8) = length l"
    by (simp add: unat_of_nat)
  with pos show "(of_nat (length l) :: u8) \<noteq> 0"
    by (metis less_numeral_extra(3) unat_0)
qed

lemma label_ok_Cons:
  assumes "label_ok l" obtains b bs where "l = b # bs" "b \<noteq> 0"
  using assms by (cases l) (auto simp: label_ok_def)

section \<open>Encoded names are parsed\<close>

text \<open>One label: the length byte and the body are two iterations of the loop.\<close>

lemma parse_loop_label_length:
  assumes ok: "label_ok l" and data: "data = pre @ encode_label l @ rest" and idx: "idx = length pre"
  shows "parse_loop data idx n Length buf = parse_loop data (idx + 1) (length l) Scan buf"
proof -
  note len = label_ok_length [OF ok]
  have "parse_loop data idx n Length buf =
      parse_loop data (idx + 1) (unat (of_nat (length l) :: u8)) Scan buf"
    using len by (intro parse_loop_Length) (simp_all add: data idx encode_label_def)
  then show ?thesis
    by (simp only: len(1))
qed

lemma label_body_reads:
  assumes "label_ok l" and "data = pre @ encode_label l @ rest" and "idx = length pre"
  obtains b where "slice_get data (idx + 1) = Some b" "b \<noteq> 0"
    and "slice_range data (idx + 1) (idx + 1 + length l) = Some l"
proof -
  obtain b bs where l: "l = b # bs" "b \<noteq> 0" using assms(1) by (rule label_ok_Cons)
  show ?thesis
  proof
    show "slice_get data (idx + 1) = Some b"
      by (simp add: assms encode_label_def l nth_append)
    show "slice_range data (idx + 1) (idx + 1 + length l) = Some l"
      by (simp add: assms encode_label_def slice_range_def)
  qed (rule l(2))
qed

lemma parse_loop_label:
  assumes ok: "label_ok l" and data: "data = pre @ encode_label l @ c # rest"
    and idx: "idx = length pre"
    and fits: "length buf + length l + 1 \<le> MAX_NAME"
  shows "parse_loop data idx n Length buf =
    parse_loop data (idx + length (encode_label l)) (length l) Length
      (buf @ lowered l @ (if c \<noteq> 0 then [46] else []))"
proof -
  obtain b where body: "slice_get data (idx + 1) = Some b" "b \<noteq> 0"
    "slice_range data (idx + 1) (idx + 1 + length l) = Some l"
    using ok data idx by (rule label_body_reads)
  have after: "slice_get data (idx + 1 + length l) = Some c"
    by (simp add: data idx encode_label_def nth_append)
  have "parse_loop data (idx + 1) (length l) Scan buf =
      parse_loop data (idx + 1 + length l) (length l) Length
        (buf @ map to_ascii_lowercase l @ (if c \<noteq> 0 then [46] else []))"
    by (rule parse_loop_Scan [OF body fits after])
  then show ?thesis
    by (simp add: parse_loop_label_length [OF ok data idx] lowered_def encode_label_def)
qed

lemma parse_loop_label_too_long:
  assumes ok: "label_ok l" and data: "data = pre @ encode_label l @ rest" and idx: "idx = length pre"
    and long: "MAX_NAME < length buf + length l + 1"
  shows "parse_loop data idx n Length buf = Inl NameTooLong"
proof -
  obtain b where "slice_get data (idx + 1) = Some b" "b \<noteq> 0"
    "slice_range data (idx + 1) (idx + 1 + length l) = Some l"
    using ok data idx by (rule label_body_reads)
  then have "parse_loop data (idx + 1) (length l) Scan buf = Inl NameTooLong"
    using long by (subst parse_loop.simps) simp
  then show ?thesis
    by (simp add: parse_loop_label_length [OF ok data idx])
qed

lemma parse_loop_encode_name:
  assumes "\<forall>l \<in> set ls. label_ok l"
    and "length buf + length (encode_labels ls) \<le> MAX_NAME"
    and "data = pre @ encode_name ls @ rest" and "idx = length pre"
  shows "parse_loop data idx n Length buf =
    Inr (buf @ lowered (dotted ls), idx + length (encode_labels ls))"
  using assms
proof (induction ls arbitrary: pre buf idx n)
  case Nil
  then show ?case
    by (simp add: encode_name_def parse_loop_end)
next
  case (Cons l ls)
  note ok = Cons.prems(1) and fits = Cons.prems(2) and data = Cons.prems(3) and idx = Cons.prems(4)
  obtain c tl where tail: "encode_name ls @ rest = c # tl" "c = 0 \<longleftrightarrow> ls = []"
  proof (cases ls)
    case Nil
    then show ?thesis using that by (simp add: encode_name_def)
  next
    case (Cons l' ls')
    then have "label_ok l'" using ok by simp
    then show ?thesis
      using that Cons label_ok_length(2) by (auto simp: encode_name_def)
  qed
  have data': "data = (pre @ encode_label l) @ encode_name ls @ rest"
    using data by (simp add: encode_name_def encode_label_def)
  have "parse_loop data idx n Length buf =
    parse_loop data (idx + length (encode_label l)) (length l) Length
      (buf @ lowered l @ (if c \<noteq> 0 then [46] else []))"
    using ok fits idx data' tail
    by (intro parse_loop_label [where pre = pre and rest = tl]) simp_all
  also have "\<dots> = Inr ((buf @ lowered l @ (if c \<noteq> 0 then [46] else [])) @ lowered (dotted ls),
      idx + length (encode_label l) + length (encode_labels ls))"
    using ok fits idx data'
    by (intro Cons.IH [where pre = "pre @ encode_label l"])
      (auto simp: encode_label_def)
  finally show ?case
    using tail(2) by (auto simp: dotted_Cons encode_label_def)
qed

lemma parse_loop_too_long:
  assumes "\<forall>l \<in> set ls. label_ok l"
    and "length buf \<le> MAX_NAME" and "MAX_NAME < length buf + length (encode_labels ls)"
    and "data = pre @ encode_name ls @ rest" and "idx = length pre"
  shows "parse_loop data idx n Length buf = Inl NameTooLong"
  using assms
proof (induction ls arbitrary: pre buf idx n)
  case Nil
  then show ?case by simp
next
  case (Cons l ls)
  note ok = Cons.prems(1) and data = Cons.prems(4) and idx = Cons.prems(5)
  have data': "data = (pre @ encode_label l) @ encode_name ls @ rest"
    using data by (simp add: encode_name_def encode_label_def)
  show ?case
  proof (cases "length buf + length l + 1 \<le> MAX_NAME")
    case True
    obtain c tl where tail: "encode_name ls @ rest = c # tl"
      by (cases "encode_name ls @ rest") (auto simp: encode_name_def)
    have ne: "ls \<noteq> []" using Cons.prems(3) True by auto
    then have c: "c \<noteq> 0"
      using tail ok label_ok_length(2) by (cases ls) (auto simp: encode_name_def)
    have "parse_loop data idx n Length buf =
      parse_loop data (idx + length (encode_label l)) (length l) Length
        (buf @ lowered l @ (if c \<noteq> 0 then [46] else []))"
      using ok True idx data' tail
      by (intro parse_loop_label [where pre = pre and rest = tl]) simp_all
    also have "\<dots> = Inl NameTooLong"
      using ok True Cons.prems(3) c idx data'
      by (intro Cons.IH [where pre = "pre @ encode_label l"]) (auto simp: encode_label_def)
    finally show ?thesis .
  next
    case False
    then have "MAX_NAME < length buf + length l + 1" by simp
    then show ?thesis
      using ok data' idx
      by (intro parse_loop_label_too_long [where pre = pre and rest = "encode_name ls @ rest"]) simp_all
  qed
qed

section \<open>Parsed names are encoded names\<close>

text \<open>
  The second disjunct is what the loop does when a label's first byte is zero: it takes that
  byte for the end of the name, so the position it returns is inside the label and the name
  keeps the dot of the label before it.
\<close>

definition regular_parse :: "bytes \<Rightarrow> nat \<Rightarrow> bytes \<Rightarrow> nat \<Rightarrow> bytes list \<Rightarrow> bool" where
  "regular_parse data idx name stop ls \<longleftrightarrow>
     (\<exists>rest. drop idx data = encode_name ls @ rest) \<and>
     name = lowered (dotted ls) \<and> stop = idx + length (encode_labels ls)"

definition zero_label_parse :: "bytes \<Rightarrow> nat \<Rightarrow> bytes \<Rightarrow> nat \<Rightarrow> bytes list \<Rightarrow> bool" where
  "zero_label_parse data idx name stop ls \<longleftrightarrow>
     (\<exists>k rest. drop idx data = encode_labels ls @ [k, 0] @ rest \<and> k \<noteq> 0 \<and> unat k \<le> MAX_LABEL) \<and>
     name = lowered (dot_terminated ls) \<and> stop = idx + length (encode_labels ls) + 1"

lemma drop_nth_Cons: "slice_get data i = Some b \<Longrightarrow> drop i data = b # drop (Suc i) data"
  by (auto simp: slice_get_Some_iff Cons_nth_drop_Suc)

lemma drop_slice:
  assumes "slice_range data i (i + n) = Some l"
  shows "drop i data = l @ drop (i + n) data" and "length l = n"
proof -
  from assms have l: "l = take n (drop i data)" and le: "i + n \<le> length data"
    by (auto simp: slice_range_Some_iff)
  have "drop i data = take n (drop i data) @ drop n (drop i data)"
    by (rule append_take_drop_id [symmetric])
  then show "drop i data = l @ drop (i + n) data"
    by (simp add: l add.commute)
  show "length l = n" using l le by simp
qed

text \<open>Reading one label off the front, and what a parse of the rest says of the whole.\<close>

lemma label_read:
  assumes "slice_get data idx = Some k" "k \<noteq> 0" "unat k \<le> MAX_LABEL"
    and "slice_get data (idx + 1) = Some b" "b \<noteq> 0"
    and "slice_range data (idx + 1) (idx + 1 + unat k) = Some l"
  shows "label_ok l" and "length (encode_label l) = Suc (unat k)"
    and "drop idx data = encode_label l @ drop (idx + length (encode_label l)) data"
proof -
  note body = drop_slice [OF assms(6)]
  have k: "k = of_nat (length l)"
    using body(2) by simp
  show "label_ok l"
    using body drop_nth_Cons [OF assms(4)] assms(2,3,5)
    by (cases l) (auto simp: label_ok_def unat_eq_0)
  show len: "length (encode_label l) = Suc (unat k)"
    using body(2) by (simp add: encode_label_def)
  show "drop idx data = encode_label l @ drop (idx + length (encode_label l)) data"
  proof -
    have "drop idx data = encode_label l @ drop (idx + 1 + unat k) data"
      using drop_nth_Cons [OF assms(1)] body(1) k by (simp add: encode_label_def)
    then show ?thesis by (simp add: len)
  qed
qed

lemma regular_parse_Cons:
  assumes "drop idx data = encode_label l @ drop (idx + length (encode_label l)) data"
    and "regular_parse data (idx + length (encode_label l)) name stop ls"
  shows "regular_parse data idx (lowered l @ (if ls \<noteq> [] then [46] else []) @ name) stop (l # ls)"
  using assms by (auto simp: regular_parse_def encode_name_def encode_label_def dotted_Cons)

lemma zero_label_parse_Cons:
  assumes "drop idx data = encode_label l @ drop (idx + length (encode_label l)) data"
    and "zero_label_parse data (idx + length (encode_label l)) name stop ls"
  shows "zero_label_parse data idx (lowered l @ 46 # name) stop (l # ls)"
  using assms by (auto simp: zero_label_parse_def encode_label_def)

lemma regular_parse_front:
  assumes "regular_parse data idx name stop ls" and "\<forall>l \<in> set ls. label_ok l"
    and "slice_get data idx = Some c"
  shows "c = 0 \<longleftrightarrow> ls = []"
  using assms drop_nth_Cons [OF assms(3)] label_ok_length(2)
  by (cases ls) (auto simp: regular_parse_def encode_name_def)

lemma zero_label_parse_front:
  assumes "zero_label_parse data idx name stop ls" and "\<forall>l \<in> set ls. label_ok l"
    and "slice_get data idx = Some c"
  shows "c \<noteq> 0"
  using assms drop_nth_Cons [OF assms(3)] label_ok_length(2)
  by (cases ls) (auto simp: zero_label_parse_def)

lemma label_then_parse:
  assumes "drop idx data = encode_label l @ drop (idx + length (encode_label l)) data"
    and ls: "\<forall>l \<in> set ls. label_ok l" and c: "slice_get data (idx + length (encode_label l)) = Some c"
    and rest: "regular_parse data (idx + length (encode_label l)) name stop ls \<or>
      zero_label_parse data (idx + length (encode_label l)) name stop ls"
  defines "name' \<equiv> lowered l @ (if c \<noteq> 0 then [46] else []) @ name"
  shows "regular_parse data idx name' stop (l # ls) \<or> zero_label_parse data idx name' stop (l # ls)"
    and "c = 0 \<Longrightarrow> ls = []"
  using rest regular_parse_Cons [OF assms(1)] zero_label_parse_Cons [OF assms(1)]
    regular_parse_front [OF _ ls c] zero_label_parse_front [OF _ ls c]
  by (fastforce simp: name'_def)+

lemma parse_loop_accepts_end:
  assumes "slice_get data idx = Some 0"
  shows "regular_parse data idx [] idx []"
    and "slice_get data (idx - 1) = Some k \<Longrightarrow> 0 < idx \<Longrightarrow> k \<noteq> 0 \<Longrightarrow> unat k \<le> MAX_LABEL \<Longrightarrow>
      zero_label_parse data (idx - 1) [] idx []"
  using drop_nth_Cons [OF assms] drop_nth_Cons [of data "idx - 1" k]
  by (auto simp: regular_parse_def zero_label_parse_def encode_name_def)

lemma parse_loop_accepts:
  assumes "parse_loop data idx n Length buf = Inr (res, stop)"
  shows "\<exists>ls name. (\<forall>l \<in> set ls. label_ok l) \<and> res = buf @ name \<and>
    length buf + length (encode_labels ls) \<le> max (length buf) MAX_NAME \<and>
    (regular_parse data idx name stop ls \<or> zero_label_parse data idx name stop ls)"
  using assms
proof (induction "length data - idx" arbitrary: idx n buf rule: less_induct)
  case less
  from less.prems show ?case
  proof (cases rule: parse_loop_InrE)
    case finished
    with parse_loop_accepts_end(1) [OF finished(1)] show ?thesis
      by (intro exI [of _ "[]"]) auto
  next
    case (label_body b label c)
    then show ?thesis by simp
  next
    case (label_length k)
    note k = label_length(2,3,4)
    from label_length(5) show ?thesis
    proof (cases rule: parse_loop_InrE)
      case finished
      with parse_loop_accepts_end(2) [OF finished(1)] k show ?thesis
        by (intro exI [of _ "[]"]) auto
    next
      case label_length
      then show ?thesis by simp
    next
      case (label_body b l c)
      note first = label_read [OF k label_body(2-4)]
      let ?idx = "idx + length (encode_label l)" and ?dot = "if c \<noteq> 0 then [46] else []"
      have shorter: "length data - ?idx < length data - idx"
        using k(1) first(2) by (auto simp: slice_get_Some_iff)
      have rest: "parse_loop data ?idx (unat k) Length (buf @ lowered l @ ?dot) = Inr (res, stop)"
        using label_body(7) first(2) by (simp add: lowered_def)
      from less.hyps [OF shorter rest] obtain ls name where IH:
        "\<forall>l \<in> set ls. label_ok l" "res = (buf @ lowered l @ ?dot) @ name"
        "length (buf @ lowered l @ ?dot) + length (encode_labels ls)
           \<le> max (length (buf @ lowered l @ ?dot)) MAX_NAME"
        "regular_parse data ?idx name stop ls \<or> zero_label_parse data ?idx name stop ls"
        by blast
      have c: "slice_get data ?idx = Some c"
        using label_body(6) first(2) by simp
      note whole = label_then_parse [OF first(3) IH(1) c IH(4)]
      have "length buf + length (encode_labels (l # ls)) \<le> max (length buf) MAX_NAME"
        using IH(3) label_body(5) whole(2) by (cases "c = 0") (auto simp: max_def split: if_splits)
      with whole(1) first(1) IH(1,2) show ?thesis
        by (intro exI [of _ "l # ls"] exI [of _ "lowered l @ ?dot @ name"]) simp
    qed
  qed
qed

lemma parse_question_accepts:
  assumes "parse_question data = Inr (name, stop)"
  obtains ls where "\<forall>l \<in> set ls. label_ok l" "length (encode_labels ls) \<le> MAX_NAME"
    "regular_parse data HEADER name stop ls \<or> zero_label_parse data HEADER name stop ls"
  using parse_loop_accepts [OF assms [unfolded parse_question_def]]
  by (auto simp: max_def MAX_NAME_def)

lemma length_dotted: "length (dotted ls) \<le> length (encode_labels ls)"
  by (induction ls rule: dotted.induct) auto

lemma length_dot_terminated: "length (dot_terminated ls) = length (encode_labels ls)"
  by (induction ls) auto

text \<open>Sizes of what a successful parse returns, from the grammar.\<close>

lemma parse_question_bounds:
  assumes "parse_question data = Inr (name, stop)"
  shows "length name \<le> MAX_NAME" and "HEADER \<le> stop" and "stop \<le> HEADER + MAX_NAME + 1"
    and "stop < length data" and "data ! stop = 0"
    and "lowered name = name"
proof -
  from assms obtain ls where ls: "length (encode_labels ls) \<le> MAX_NAME"
    "regular_parse data HEADER name stop ls \<or> zero_label_parse data HEADER name stop ls"
    by (rule parse_question_accepts)
  have at: "drop stop data \<noteq> [] \<and> hd (drop stop data) = 0"
    using ls(2)
  proof
    assume "regular_parse data HEADER name stop ls"
    then obtain rest where "drop HEADER data = encode_name ls @ rest"
      and stop: "stop = HEADER + length (encode_labels ls)"
      by (auto simp: regular_parse_def)
    then have "drop (length (encode_labels ls)) (drop HEADER data) = 0 # rest"
      by (simp add: encode_name_def)
    then show ?thesis by (simp add: stop add.commute)
  next
    assume "zero_label_parse data HEADER name stop ls"
    then obtain k rest where "drop HEADER data = encode_labels ls @ [k, 0] @ rest"
      and stop: "stop = HEADER + length (encode_labels ls) + 1"
      by (auto simp: zero_label_parse_def)
    then have "drop (length (encode_labels ls) + 1) (drop HEADER data) = 0 # rest"
      by simp
    then show ?thesis by (simp add: stop add.commute)
  qed
  then show "stop < length data" "data ! stop = 0"
    by (auto simp: hd_drop_conv_nth)
  show "length name \<le> MAX_NAME" "HEADER \<le> stop" "stop \<le> HEADER + MAX_NAME + 1"
    and "lowered name = name"
    using ls length_dotted [of ls] length_dot_terminated [of ls]
    by (auto simp: regular_parse_def zero_label_parse_def)
qed

section \<open>Parsed queries\<close>

lemma parse_udp_InrE:
  assumes "parse_udp L data = Inr q"
  obtains name stop hi lo where "HEADER \<le> length data" "parse_question data = Inr (name, stop)"
    "slice_get data (stop + 1) = Some hi" "slice_get data (stop + 2) = Some lo"
    "q = \<lparr>q_name = from_utf8_lossy name, q_type = rt_from_u16 L (u16_from_be_bytes hi lo),
          q_raw = data, q_answer_offset = stop + 5\<rparr>"
  using assms
  by (auto simp: parse_udp_def parse_qtype_def not_less split: if_splits sum.splits prod.splits option.splits)

text \<open>
  What every later stage may assume of a parsed query: the packet is kept, it holds the
  header, the name and the type, and the answer section is at most two bytes past its end.
\<close>

definition query_ok :: "'rt query \<Rightarrow> bool" where
  "query_ok q \<longleftrightarrow> HEADER + 5 \<le> q_answer_offset q \<and> q_answer_offset q \<le> length (q_raw q) + 2 \<and>
     HEADER + 3 \<le> length (q_raw q) \<and> q_answer_offset q \<le> HEADER + MAX_NAME + 6"

lemma parse_udp_query_ok:
  assumes "parse_udp L data = Inr q"
  shows "query_ok q"
  using assms
proof (rule parse_udp_InrE)
  fix name stop hi lo
  assume pq: "parse_question data = Inr (name, stop)" and "slice_get data (stop + 2) = Some lo"
    and q: "q = \<lparr>q_name = from_utf8_lossy name, q_type = rt_from_u16 L (u16_from_be_bytes hi lo),
          q_raw = data, q_answer_offset = stop + 5\<rparr>"
  then have "stop + 2 < length data"
    by (simp add: slice_get_Some_iff)
  with parse_question_bounds(2,3) [OF pq] show ?thesis
    by (simp add: q query_ok_def)
qed

lemma parse_udp_raw: "parse_udp L data = Inr q \<Longrightarrow> q_raw q = data"
  by (erule parse_udp_InrE) simp

text \<open>A well-formed question of type \<open>t\<close> after a twelve-byte header.\<close>

definition question_packet :: "bytes \<Rightarrow> bytes list \<Rightarrow> u16 \<Rightarrow> bytes \<Rightarrow> bytes" where
  "question_packet hdr ls t rest = hdr @ encode_name ls @ u16_to_be_bytes t @ rest"

lemma parse_udp_question_packet:
  assumes hdr: "length hdr = HEADER" and ok: "\<forall>l \<in> set ls. label_ok l"
  shows "parse_udp L (question_packet hdr ls t rest) =
    (if length (encode_labels ls) \<le> MAX_NAME
     then Inr \<lparr>q_name = from_utf8_lossy (lowered (dotted ls)), q_type = rt_from_u16 L t,
            q_raw = question_packet hdr ls t rest,
            q_answer_offset = HEADER + length (encode_name ls) + 4\<rparr>
     else Inl NameTooLong)"
proof (cases "length (encode_labels ls) \<le> MAX_NAME")
  case True
  let ?p = "question_packet hdr ls t rest"
  have q: "parse_question ?p = Inr (lowered (dotted ls), HEADER + length (encode_labels ls))"
    using parse_loop_encode_name [OF ok, of "[]" ?p hdr] True hdr
    by (simp add: parse_question_def question_packet_def)
  have "parse_qtype ?p (HEADER + length (encode_labels ls)) = Inr t"
    using hdr by (simp add: parse_qtype_def question_packet_def encode_name_def
        u16_to_be_bytes_def nth_append)
  with q True hdr show ?thesis
    by (simp add: parse_udp_def) (simp add: encode_name_def question_packet_def)
next
  case False
  let ?p = "question_packet hdr ls t rest"
  have "parse_question ?p = Inl NameTooLong"
    using parse_loop_too_long [OF ok, of "[]" ?p hdr] False hdr
    by (simp add: parse_question_def question_packet_def)
  with False hdr show ?thesis
    by (simp add: parse_udp_def question_packet_def)
qed

end
