(* ===== verification/Responses.thy ===== *)
theory Responses
  imports Config Wire_Names
begin

text \<open>
  \<open>UpstreamResponse\<close> and \<open>rcode_from_raw\<close> of \<open>backend/src/handler/upstream.rs\<close>: the answers
  the server makes itself, for blocked names and from cached packets. Two locales state what
  every such answer owes the client; each builder is an interpretation.
\<close>

section \<open>Writes into a buffer\<close>

text \<open>\<open>raw[i..].copy_from_slice(ys)\<close> and \<open>raw[i..j].fill(v)\<close>, byte by byte.\<close>

fun copy_at :: "'a list \<Rightarrow> nat \<Rightarrow> 'a list \<Rightarrow> 'a list" where
  "copy_at xs i [] = xs"
| "copy_at xs i (y # ys) = copy_at (xs[i := y]) (Suc i) ys"

definition fill_range :: "'a list \<Rightarrow> nat \<Rightarrow> nat \<Rightarrow> 'a \<Rightarrow> 'a list" where
  "fill_range xs i j v = copy_at xs i (replicate (j - i) v)"

lemma length_copy_at [simp]: "length (copy_at xs i ys) = length xs"
  by (induction xs i ys rule: copy_at.induct) auto

lemma length_fill_range [simp]: "length (fill_range xs i j v) = length xs"
  by (simp add: fill_range_def)

lemma take_copy_at: "n \<le> i \<Longrightarrow> take n (copy_at xs i ys) = take n xs"
  by (induction xs i ys rule: copy_at.induct) auto

lemma drop_copy_at: "i + length ys \<le> n \<Longrightarrow> drop n (copy_at xs i ys) = drop n xs"
  by (induction xs i ys rule: copy_at.induct) auto

lemma nth_copy_at:
  "i + length ys \<le> length xs \<Longrightarrow>
   copy_at xs i ys ! k = (if i \<le> k \<and> k < i + length ys then ys ! (k - i) else xs ! k)"
  by (induction xs i ys arbitrary: k rule: copy_at.induct)
    (auto simp: nth_list_update nth_Cons' Suc_le_eq)

lemma take_fill_range: "n \<le> i \<Longrightarrow> take n (fill_range xs i j v) = take n xs"
  by (simp add: fill_range_def take_copy_at)

lemma drop_fill_range: "j \<le> n \<Longrightarrow> i \<le> j \<Longrightarrow> drop n (fill_range xs i j v) = drop n xs"
  by (simp add: fill_range_def drop_copy_at)

lemma nth_fill_range:
  "j \<le> length xs \<Longrightarrow> i \<le> j \<Longrightarrow>
   fill_range xs i j v ! k = (if i \<le> k \<and> k < j then v else xs ! k)"
  by (auto simp: fill_range_def nth_copy_at)

lemmas buffer_writes = take_copy_at drop_copy_at nth_copy_at take_fill_range drop_fill_range
  nth_fill_range

section \<open>Answers\<close>

record upstream_response =
  resp_code :: response_code
  resp_raw :: bytes

definition rcode_from_raw :: "bytes \<Rightarrow> response_code" where
  "rcode_from_raw raw =
     (case slice_get raw 3 of
        Some b \<Rightarrow>
          (let n = b AND 0x0F in
           if n = 0 then NoError
           else if n = 2 then ServFail
           else if n = 3 then NXDomain
           else if n = 5 then RC_Refused
           else Unknown (ucast n))
      | None \<Rightarrow> ServFail)"

definition cached :: "'rt query \<Rightarrow> bytes \<Rightarrow> upstream_response" where
  "cached q raw =
     (let raw' = (if 2 \<le> length raw \<and> 2 \<le> length (q_raw q)
                  then raw[0 := q_raw q ! 0, 1 := q_raw q ! 1] else raw)
      in \<lparr>resp_code = rcode_from_raw raw', resp_raw = raw'\<rparr>)"

definition question_of :: "'rt query \<Rightarrow> bytes" where
  "question_of q = take (min (q_answer_offset q) (length (q_raw q))) (q_raw q)"

definition nxdomain :: "'rt query \<Rightarrow> upstream_response" where
  "nxdomain q =
     (let raw = question_of q;
          raw' = (if 12 \<le> length raw
                  then let rd = raw ! 2 AND 0x01 in
                    raw[2 := 0x84 OR rd, 3 := 0x83, 6 := 0, 7 := 0, 8 := 0, 9 := 0, 10 := 0, 11 := 0]
                  else raw)
      in \<lparr>resp_code = NXDomain, resp_raw = raw'\<rparr>)"

definition refused :: "'rt query \<Rightarrow> upstream_response" where
  "refused q =
     (let raw = question_of q;
          raw' = (if 12 \<le> length raw
                  then let rd = raw ! 2 AND 0x01 in
                    fill_range (raw[2 := 0x80 OR rd, 3 := 0x05]) 6 12 0
                  else raw)
      in \<lparr>resp_code = RC_Refused, resp_raw = raw'\<rparr>)"

definition SINKHOLE_TTL :: u32 where "SINKHOLE_TTL = 60"

text \<open>\<open>Ipv4Addr::octets\<close> and \<open>Ipv6Addr::octets\<close>, most significant byte first.\<close>

definition octets_v4 :: "u32 \<Rightarrow> bytes" where
  "octets_v4 w = u32_to_be_bytes w"

definition octets_v6 :: "128 word \<Rightarrow> bytes" where
  "octets_v6 w = map (\<lambda>i. ucast (drop_bit (120 - 8 * i) w)) [0..<16]"

definition address_rdata :: "ip_addr \<Rightarrow> u16 \<times> bytes" where
  "address_rdata ip = (case ip of V4 v4 \<Rightarrow> (1, octets_v4 v4) | V6 v6 \<Rightarrow> (28, octets_v6 v6))"

definition address_record :: "ip_addr \<Rightarrow> bytes" where
  "address_record ip =
     (case address_rdata ip of (rtype, rdata) \<Rightarrow>
        u16_to_be_bytes 0xC00C @ u16_to_be_bytes rtype @ u16_to_be_bytes 1
        @ u32_to_be_bytes SINKHOLE_TTL @ u16_to_be_bytes (of_nat (length rdata)) @ rdata)"

definition zero_ip :: "'rt query \<Rightarrow> ip_addr \<Rightarrow> upstream_response" where
  "zero_ip q ip =
     (let raw = question_of q in
      if length raw < 12 then nxdomain q
      else
        let rd = raw ! 2 AND 0x01;
            hdr = fill_range (copy_at (raw[2 := 0x84 OR rd, 3 := 0x80]) 6 (u16_to_be_bytes 1)) 8 12 0
        in \<lparr>resp_code = NoError, resp_raw = hdr @ address_record ip\<rparr>)"

definition blocked ::
  "('rt, 'x) dns_libs_scheme \<Rightarrow> 'rt query \<Rightarrow> blocking_mode \<Rightarrow> upstream_response" where
  "blocked L q mode =
     (case mode of
        NxDomain \<Rightarrow> nxdomain q
      | Mode_Refused \<Rightarrow> refused q
      | ZeroIp \<Rightarrow>
          (case zero_ip_for L (q_type q) of
             Some ip \<Rightarrow> zero_ip q ip
           | None \<Rightarrow> nxdomain q))"

section \<open>What an answer owes the client\<close>

text \<open>
  The least a client checks, and what \<open>UpstreamPool::exchange\<close> itself checks of an
  upstream: the packet starts with the transaction id of the query.
\<close>

definition txid_matches :: "bytes \<Rightarrow> bytes \<Rightarrow> bool" where
  "txid_matches query_raw reply \<longleftrightarrow> 2 \<le> length reply \<and> take 2 reply = take 2 query_raw"

locale txid_echo =
  fixes build :: "'rt query \<Rightarrow> bytes"
    and usable :: "'rt query \<Rightarrow> bool"
  assumes echoes_txid: "usable q \<Longrightarrow> txid_matches (q_raw q) (build q)"
begin

lemma txid_bytes:
  assumes "usable q"
  shows "2 \<le> length (build q)" and "build q ! 0 = q_raw q ! 0" and "build q ! 1 = q_raw q ! 1"
proof -
  from echoes_txid [OF assms] have le: "2 \<le> length (build q)"
    and eq: "take 2 (build q) = take 2 (q_raw q)"
    by (auto simp: txid_matches_def)
  then show "2 \<le> length (build q)" by simp
  show "build q ! 0 = q_raw q ! 0" "build q ! 1 = q_raw q ! 1"
    using arg_cong [OF eq, of "\<lambda>xs. xs ! 0"] arg_cong [OF eq, of "\<lambda>xs. xs ! 1"] by simp_all
qed

end

text \<open>
  A complete answer made from the query: QR is set, opcode and TC are cleared, RD is the
  client's, the RCODE read back from the bytes is the one the record names, QDCOUNT is
  kept, and header and question of the query are a prefix but for bytes 2 to 11.
\<close>

locale local_answer = txid_echo build usable
  for build :: "'rt query \<Rightarrow> bytes" and usable :: "'rt query \<Rightarrow> bool" +
  fixes code :: response_code and ancount :: u16
  assumes flags: "usable q \<Longrightarrow> build q ! 2 AND 0xFB = 0x80 OR (q_raw q ! 2 AND 1)"
    and rcode: "usable q \<Longrightarrow> rcode_from_raw (build q) = code"
    and qdcount: "usable q \<Longrightarrow> take 2 (drop 4 (build q)) = take 2 (drop 4 (q_raw q))"
    and counts: "usable q \<Longrightarrow>
      take 6 (drop 6 (build q)) = u16_to_be_bytes ancount @ u16_to_be_bytes 0 @ u16_to_be_bytes 0"
    and question: "usable q \<Longrightarrow>
      take (length (question_of q) - 12) (drop 12 (build q)) = drop 12 (question_of q)"
begin

lemma recursion_desired:
  assumes "usable q"
  shows "build q ! 2 AND 1 = q_raw q ! 2 AND 1"
proof -
  have "build q ! 2 AND 1 = (build q ! 2 AND 0xFB) AND 1"
    by (simp add: and.assoc)
  also have "\<dots> = (0x80 OR (q_raw q ! 2 AND 1)) AND 1"
    using assms by (simp add: flags)
  also have "\<dots> = q_raw q ! 2 AND 1"
    by (simp add: bit.conj_disj_distrib2 and.assoc)
  finally show ?thesis .
qed

end

section \<open>The builders keep the contract\<close>

lemma length_question_of: "query_ok q \<Longrightarrow> 12 < length (question_of q)"
  by (auto simp: question_of_def query_ok_def HEADER_def)

lemma nth_question_of: "i < length (question_of q) \<Longrightarrow> question_of q ! i = q_raw q ! i"
  by (simp add: question_of_def)

lemma take_question_of:
  "query_ok q \<Longrightarrow> n \<le> 12 \<Longrightarrow> take n (question_of q) = take n (q_raw q)"
  by (auto simp: question_of_def query_ok_def HEADER_def min_def)

text \<open>Any buffer that agrees with the question but for bytes 2, 3 and 6 to 11 is an answer.\<close>

lemma header_rewrite:
  assumes q: "query_ok q"
    and len: "length hdr = length (question_of q)"
    and same: "take 2 hdr = take 2 (question_of q)"
    and b45: "hdr ! 4 = question_of q ! 4" "hdr ! 5 = question_of q ! 5"
    and rest: "drop 12 hdr = drop 12 (question_of q)"
  shows "txid_matches (q_raw q) (hdr @ tail)"
    and "take 2 (drop 4 (hdr @ tail)) = take 2 (drop 4 (q_raw q))"
    and "take (length (question_of q) - 12) (drop 12 (hdr @ tail)) = drop 12 (question_of q)"
proof -
  note long = length_question_of [OF q]
  have rawlen: "15 \<le> length (q_raw q)" using q by (simp add: query_ok_def HEADER_def)
  show "txid_matches (q_raw q) (hdr @ tail)"
    using long len same take_question_of [OF q, of 2] by (simp add: txid_matches_def)
  have "take 2 (drop 4 xs) = [xs ! 4, xs ! 5]" if "6 \<le> length xs" for xs :: bytes
    using that by (intro nth_equalityI) (auto simp: less_Suc_eq numeral_2_eq_2)
  then show "take 2 (drop 4 (hdr @ tail)) = take 2 (drop 4 (q_raw q))"
    using long len rawlen b45 nth_question_of [of 4 q] nth_question_of [of 5 q]
    by (simp add: nth_append)
  show "take (length (question_of q) - 12) (drop 12 (hdr @ tail)) = drop 12 (question_of q)"
    using long len rest by simp
qed

lemma take_drop_6:
  fixes xs :: bytes
  assumes "12 \<le> length xs"
  shows "take 6 (drop 6 xs) = [xs ! 6, xs ! 7, xs ! 8, xs ! 9, xs ! 10, xs ! 11]"
  using assms by (intro nth_equalityI) (auto simp: less_Suc_eq numeral_eq_Suc)

lemma flag_bits:
  fixes b :: u8
  shows "(0x84 OR (b AND 1)) AND 0xFB = 0x80 OR (b AND 1)"
    and "(0x80 OR (b AND 1)) AND 0xFB = 0x80 OR (b AND 1)"
proof -
  have "(b AND 1) AND 0xFB = b AND 1" by (simp add: and.assoc)
  then show "(0x84 OR (b AND 1)) AND 0xFB = 0x80 OR (b AND 1)"
    and "(0x80 OR (b AND 1)) AND 0xFB = 0x80 OR (b AND 1)"
    by (simp_all add: bit.conj_disj_distrib2)
qed

lemma nxdomain_raw:
  "query_ok q \<Longrightarrow> resp_raw (nxdomain q) =
     (question_of q)[2 := 0x84 OR (q_raw q ! 2 AND 1), 3 := 0x83, 6 := 0, 7 := 0, 8 := 0, 9 := 0,
       10 := 0, 11 := 0]"
  using length_question_of [of q] by (simp add: nxdomain_def Let_def nth_question_of)

lemma refused_raw:
  "query_ok q \<Longrightarrow> resp_raw (refused q) =
     fill_range ((question_of q)[2 := 0x80 OR (q_raw q ! 2 AND 1), 3 := 0x05]) 6 12 0"
  using length_question_of [of q] by (simp add: refused_def Let_def nth_question_of)

definition sinkhole_header :: "'rt query \<Rightarrow> bytes" where
  "sinkhole_header q =
     fill_range (copy_at ((question_of q)[2 := 0x84 OR (q_raw q ! 2 AND 1), 3 := 0x80]) 6
       (u16_to_be_bytes 1)) 8 12 0"

lemma zero_ip_raw:
  "query_ok q \<Longrightarrow> resp_raw (zero_ip q ip) = sinkhole_header q @ address_record ip"
  using length_question_of [of q]
  by (simp add: zero_ip_def Let_def nth_question_of sinkhole_header_def)

lemma length_sinkhole_header [simp]: "length (sinkhole_header q) = length (question_of q)"
  by (simp add: sinkhole_header_def)

interpretation nx: local_answer "\<lambda>q. resp_raw (nxdomain q)" query_ok NXDomain 0
proof
  fix q :: "'rt query"
  assume q: "query_ok q"
  note long = length_question_of [OF q]
  let ?h = "resp_raw (nxdomain q)"
  note raw = nxdomain_raw [OF q]
  have pre: "length ?h = length (question_of q)" "take 2 ?h = take 2 (question_of q)"
    "?h ! 4 = question_of q ! 4" "?h ! 5 = question_of q ! 5"
    "drop 12 ?h = drop 12 (question_of q)"
    using long by (simp_all add: raw buffer_writes)
  note hdr = header_rewrite [OF q pre, of "[]", unfolded append_Nil2]
  show "txid_matches (q_raw q) ?h" by (rule hdr)
  show "take 2 (drop 4 ?h) = take 2 (drop 4 (q_raw q))" by (rule hdr)
  show "take (length (question_of q) - 12) (drop 12 ?h) = drop 12 (question_of q)" by (rule hdr)
  show "?h ! 2 AND 0xFB = 0x80 OR (q_raw q ! 2 AND 1)"
    using long by (simp add: raw flag_bits)
  show "rcode_from_raw ?h = NXDomain"
    using long by (simp add: raw rcode_from_raw_def)
  show "take 6 (drop 6 ?h) = u16_to_be_bytes 0 @ u16_to_be_bytes 0 @ u16_to_be_bytes 0"
    using long by (simp add: take_drop_6 raw u16_to_be_bytes_def)
qed

interpretation rf: local_answer "\<lambda>q. resp_raw (refused q)" query_ok RC_Refused 0
proof
  fix q :: "'rt query"
  assume q: "query_ok q"
  note long = length_question_of [OF q]
  let ?h = "resp_raw (refused q)"
  note raw = refused_raw [OF q]
  have pre: "length ?h = length (question_of q)" "take 2 ?h = take 2 (question_of q)"
    "?h ! 4 = question_of q ! 4" "?h ! 5 = question_of q ! 5"
    "drop 12 ?h = drop 12 (question_of q)"
    using long by (simp_all add: raw buffer_writes)
  note hdr = header_rewrite [OF q pre, of "[]", unfolded append_Nil2]
  show "txid_matches (q_raw q) ?h" by (rule hdr)
  show "take 2 (drop 4 ?h) = take 2 (drop 4 (q_raw q))" by (rule hdr)
  show "take (length (question_of q) - 12) (drop 12 ?h) = drop 12 (question_of q)" by (rule hdr)
  show "?h ! 2 AND 0xFB = 0x80 OR (q_raw q ! 2 AND 1)"
    using long by (simp add: raw flag_bits buffer_writes)
  show "rcode_from_raw ?h = RC_Refused"
    using long by (simp add: raw rcode_from_raw_def buffer_writes)
  show "take 6 (drop 6 ?h) = u16_to_be_bytes 0 @ u16_to_be_bytes 0 @ u16_to_be_bytes 0"
    using long by (simp add: take_drop_6 raw u16_to_be_bytes_def buffer_writes)
qed

interpretation zip: local_answer "\<lambda>q. resp_raw (zero_ip q ip)" query_ok NoError 1 for ip
proof
  fix q :: "'rt query"
  assume q: "query_ok q"
  note long = length_question_of [OF q]
  let ?h = "sinkhole_header q"
  note raw = zero_ip_raw [OF q, of ip]
  have pre: "length ?h = length (question_of q)" "take 2 ?h = take 2 (question_of q)"
    "?h ! 4 = question_of q ! 4" "?h ! 5 = question_of q ! 5"
    "drop 12 ?h = drop 12 (question_of q)"
    using long by (simp_all add: sinkhole_header_def buffer_writes)
  note hdr = header_rewrite [OF q pre, of "address_record ip", folded raw]
  show "txid_matches (q_raw q) (resp_raw (zero_ip q ip))" by (rule hdr)
  show "take 2 (drop 4 (resp_raw (zero_ip q ip))) = take 2 (drop 4 (q_raw q))" by (rule hdr)
  show "take (length (question_of q) - 12) (drop 12 (resp_raw (zero_ip q ip)))
      = drop 12 (question_of q)" by (rule hdr)
  show "resp_raw (zero_ip q ip) ! 2 AND 0xFB = 0x80 OR (q_raw q ! 2 AND 1)"
    using long by (simp add: raw nth_append) (simp add: sinkhole_header_def flag_bits buffer_writes)
  show "rcode_from_raw (resp_raw (zero_ip q ip)) = NoError"
    using long by (simp add: raw rcode_from_raw_def nth_append)
      (simp add: sinkhole_header_def buffer_writes)
  show "take 6 (drop 6 (resp_raw (zero_ip q ip)))
      = u16_to_be_bytes 1 @ u16_to_be_bytes 0 @ u16_to_be_bytes 0"
    using long by (simp add: take_drop_6 raw nth_append)
      (simp add: sinkhole_header_def u16_to_be_bytes_def buffer_writes)
qed

text \<open>A cached packet gets the id of the query that asks for it; the rest is untouched.\<close>

lemma cached_raw:
  "query_ok q \<Longrightarrow> 2 \<le> length raw \<Longrightarrow>
     resp_raw (cached q raw) = raw[0 := q_raw q ! 0, 1 := q_raw q ! 1]"
  by (simp add: cached_def query_ok_def HEADER_def Let_def)

interpretation ca: txid_echo "\<lambda>q. resp_raw (cached q raw)" "\<lambda>q. query_ok q \<and> 2 \<le> length raw" for raw
proof
  fix q :: "'rt query"
  assume "query_ok q \<and> 2 \<le> length raw"
  then have q: "query_ok q" and raw: "2 \<le> length raw" and qr: "2 \<le> length (q_raw q)"
    by (simp_all add: query_ok_def HEADER_def)
  from raw have ne: "raw \<noteq> []" by auto
  have "take 2 xs = [xs ! 0, xs ! 1]" if "2 \<le> length xs" for xs :: bytes
    using that by (intro nth_equalityI) (auto simp: less_Suc_eq numeral_2_eq_2)
  with q raw qr ne show "txid_matches (q_raw q) (resp_raw (cached q raw))"
    by (simp add: txid_matches_def cached_raw nth_list_update)
qed

lemma cached_rest: "drop 2 (resp_raw (cached q raw)) = drop 2 raw"
  by (simp add: cached_def Let_def)

lemma cached_length [simp]: "length (resp_raw (cached q raw)) = length raw"
  by (simp add: cached_def Let_def)

lemma cached_code: "resp_code (cached q raw) = rcode_from_raw raw"
  by (simp add: cached_def Let_def rcode_from_raw_def slice_get_def)

section \<open>The sinkhole record\<close>

lemma address_record_ttl:
  "take 4 (drop 6 (address_record ip)) = u32_to_be_bytes SINKHOLE_TTL"
  by (simp add: address_record_def u16_to_be_bytes_def split: prod.split)

lemma length_address_record: "10 \<le> length (address_record ip)"
  by (simp add: address_record_def split: prod.split)

lemma parse_ttl_append:
  "10 \<le> length ys \<Longrightarrow> parse_ttl (xs @ ys) (length xs) =
     (let b = take 4 (drop 6 ys) in u32_from_be_bytes (b ! 0) (b ! 1) (b ! 2) (b ! 3))"
  by (simp add: parse_ttl_def slice_range_def Let_def)

lemma zero_ip_parse_ttl:
  assumes q: "query_ok q" and full: "q_answer_offset q \<le> length (q_raw q)"
  shows "parse_ttl (resp_raw (zero_ip q ip)) (q_answer_offset q) = SINKHOLE_TTL"
proof -
  have "length (sinkhole_header q) = q_answer_offset q"
    using full by (simp add: question_of_def)
  then have "parse_ttl (resp_raw (zero_ip q ip)) (q_answer_offset q) =
      (let b = u32_to_be_bytes SINKHOLE_TTL in u32_from_be_bytes (b ! 0) (b ! 1) (b ! 2) (b ! 3))"
    using parse_ttl_append [of "address_record ip" "sinkhole_header q"] length_address_record [of ip]
    by (simp add: zero_ip_raw [OF q] address_record_ttl)
  also have "\<dots> = SINKHOLE_TTL"
    by (simp add: Let_def u32_to_be_bytes_def)
  finally show ?thesis .
qed

lemma length_blocked:
  "query_ok q \<Longrightarrow> length (resp_raw (blocked L q mode)) \<le> length (question_of q) + 28"
  using zero_ip_raw [of q]
  by (auto simp: blocked_def nxdomain_raw refused_raw zero_ip_raw address_record_def
      address_rdata_def octets_v4_def octets_v6_def zero_ip_for_def
      split: blocking_mode.splits option.splits ip_addr.splits)

end
