(* ===== verification/Upstream.thy ===== *)
theory Upstream
  imports Responses
begin

text \<open>
  \<open>UpstreamPool\<close> of \<open>backend/src/handler/upstream.rs\<close>: one query is sent to the configured
  servers in turn over pooled UDP sockets until one answers. What the network does in one
  attempt is a script: whether a socket could be bound and the packet sent, and the
  datagrams that arrive on the socket before the timeout.
\<close>

section \<open>The network and the socket queue\<close>

definition POOL_SIZE :: nat where "POOL_SIZE = 256"
definition RECV_BUF :: nat where "RECV_BUF = 4096"

type_synonym io_error = string

datatype recv_event = Datagram bytes socket_addr | Recv_Error io_error

record 'sock attempt =
  bind_result :: "io_error + 'sock"
  send_error :: "io_error option"
  arrivals :: "recv_event list"

text \<open>
  \<open>crossbeam_queue::ArrayQueue\<close>, created with capacity \<^const>\<open>POOL_SIZE\<close>: a bounded
  first-in first-out queue; pushing onto a full queue gives the element back.
\<close>

record ('sock, 'q) queue_libs =
  queue_new :: "nat \<Rightarrow> 'q"
  queue_pop :: "'q \<Rightarrow> ('sock \<times> 'q) option"
  queue_push :: "'sock \<Rightarrow> 'q \<Rightarrow> 'q"

definition queue_law :: "('sock, 'q) queue_libs \<Rightarrow> ('q \<Rightarrow> nat \<times> 'sock list) \<Rightarrow> bool" where
  "queue_law Q view \<longleftrightarrow>
     (\<forall>n. view (queue_new Q n) = (n, [])) \<and>
     (\<forall>q. (case queue_pop Q q of
             None \<Rightarrow> snd (view q) = []
           | Some (s, q') \<Rightarrow> snd (view q) = s # snd (view q') \<and> fst (view q') = fst (view q))) \<and>
     (\<forall>s q. view (queue_push Q s q) =
        (fst (view q), if length (snd (view q)) < fst (view q) then snd (view q) @ [s] else snd (view q)))"

section \<open>Operations\<close>

datatype upstream_error = Upstream_Error string | Timeout

text \<open>The receive loop: a datagram counts when source and transaction id match.\<close>

fun await_reply :: "socket_addr \<Rightarrow> u8 \<times> u8 \<Rightarrow> recv_event list \<Rightarrow> upstream_error + bytes" where
  "await_reply server txid [] = Inl Timeout"
| "await_reply server txid (Recv_Error e # _) = Inl (Upstream_Error e)"
| "await_reply server txid (Datagram d src # events) =
     (let buf = take RECV_BUF d; len = length buf in
      if src = server \<and> 2 \<le> len \<and> buf ! 0 = fst txid \<and> buf ! 1 = snd txid
      then Inr buf
      else await_reply server txid events)"

definition exchange ::
  "socket_addr \<Rightarrow> 'rt query \<Rightarrow> 'sock attempt \<Rightarrow> upstream_error + upstream_response" where
  "exchange server q att =
     (case send_error att of
        Some e \<Rightarrow> Inl (Upstream_Error e)
      | None \<Rightarrow>
          (case await_reply server (q_raw q ! 0, q_raw q ! 1) (arrivals att) of
             Inl e \<Rightarrow> Inl e
           | Inr buf \<Rightarrow> Inr \<lparr>resp_code = rcode_from_raw buf, resp_raw = buf\<rparr>))"

definition query_dns ::
  "('sock, 'q) queue_libs \<Rightarrow> socket_addr \<Rightarrow> 'rt query \<Rightarrow> 'sock attempt \<Rightarrow> 'q \<Rightarrow>
     (upstream_error + upstream_response) \<times> 'q" where
  "query_dns Q server q att sockets =
     (case (case queue_pop Q sockets of
              Some (sock, sockets') \<Rightarrow> (Inr sock, sockets')
            | None \<Rightarrow> (bind_result att, sockets)) of
        (Inl e, sockets') \<Rightarrow> (Inl (Upstream_Error e), sockets')
      | (Inr sock, sockets') \<Rightarrow>
          (let result = exchange server q att in
           (result, if isl result then sockets' else queue_push Q sock sockets')))"

fun try_servers ::
  "('sock, 'q) queue_libs \<Rightarrow> socket_addr list \<Rightarrow> 'rt query \<Rightarrow> (nat \<Rightarrow> 'sock attempt) \<Rightarrow> nat list \<Rightarrow>
     upstream_error option \<Rightarrow> 'q \<Rightarrow> (upstream_error + upstream_response) \<times> 'q" where
  "try_servers Q servers q net [] err sockets =
     (Inl (unwrap_or err (Upstream_Error ''all upstreams failed'')), sockets)"
| "try_servers Q servers q net (i # is) err sockets =
     (case query_dns Q (servers ! (i mod length servers)) q (net i) sockets of
        (Inr response, sockets') \<Rightarrow> (Inr response, sockets')
      | (Inl e, sockets') \<Rightarrow> try_servers Q servers q net is (Some e) sockets')"

definition resolve ::
  "('sock, 'q) queue_libs \<Rightarrow> runtime_config \<Rightarrow> 'rt query \<Rightarrow> (nat \<Rightarrow> 'sock attempt) \<Rightarrow> 'q \<Rightarrow>
     (upstream_error + upstream_response) \<times> 'q" where
  "resolve Q cfg q net sockets =
     (let servers = upstreams cfg in
      if servers = [] then (Inl (Upstream_Error ''no upstreams configured''), sockets)
      else try_servers Q servers q net [0..<max (length servers) 1] None sockets)"

text \<open>\<open>UpstreamPool::new\<close>: up to \<^const>\<open>POOL_SIZE\<close> sockets, one per bind that succeeds.\<close>

definition new_pool :: "('sock, 'q) queue_libs \<Rightarrow> (io_error + 'sock) list \<Rightarrow> 'q" where
  "new_pool Q binds =
     fold (\<lambda>b sockets. case b of Inl _ \<Rightarrow> sockets | Inr sock \<Rightarrow> queue_push Q sock sockets)
       (take POOL_SIZE binds) (queue_new Q POOL_SIZE)"

section \<open>Replies\<close>

lemma await_reply_Inr:
  assumes "await_reply server txid events = Inr buf"
  obtains d where "Datagram d server \<in> set events" "buf = take RECV_BUF d" "2 \<le> length buf"
    "buf ! 0 = fst txid" "buf ! 1 = snd txid"
  using assms
  by (induction server txid events arbitrary: thesis rule: await_reply.induct)
    (auto simp: Let_def split: if_splits)

text \<open>What the loop skips: datagrams from elsewhere, too short, or with another id.\<close>

lemma await_reply_skip:
  assumes "\<forall>ev \<in> set before. \<exists>d src. ev = Datagram d src \<and>
      (src \<noteq> server \<or> length d < 2 \<or> d ! 0 \<noteq> fst txid \<or> d ! 1 \<noteq> snd txid)"
  shows "await_reply server txid (before @ events) = await_reply server txid events"
  using assms by (induction before) (auto simp: RECV_BUF_def Let_def)

lemma await_reply_hit:
  assumes "2 \<le> length d" "d ! 0 = fst txid" "d ! 1 = snd txid"
  shows "await_reply server txid (Datagram d server # events) = Inr (take RECV_BUF d)"
  using assms by (auto simp: RECV_BUF_def)

definition good_reply :: "'rt query \<Rightarrow> upstream_response \<Rightarrow> bool" where
  "good_reply q r \<longleftrightarrow> txid_matches (q_raw q) (resp_raw r) \<and> length (resp_raw r) \<le> RECV_BUF \<and>
     resp_code r = rcode_from_raw (resp_raw r)"

lemma txid_matchesI:
  assumes "2 \<le> length a" "2 \<le> length b" "b ! 0 = a ! 0" "b ! 1 = a ! 1"
  shows "txid_matches a b"
proof -
  have "take 2 xs = [xs ! 0, xs ! 1]" if "2 \<le> length xs" for xs :: bytes
    using that by (intro nth_equalityI) (auto simp: less_Suc_eq numeral_2_eq_2)
  with assms show ?thesis by (simp add: txid_matches_def)
qed

lemma exchange_good:
  assumes "query_ok q" and "exchange server q att = Inr r"
  shows "good_reply q r" and "\<exists>d. Datagram d server \<in> set (arrivals att) \<and> resp_raw r = take RECV_BUF d"
proof -
  from assms(2) obtain buf where
    buf: "await_reply server (q_raw q ! 0, q_raw q ! 1) (arrivals att) = Inr buf"
    and r: "r = \<lparr>resp_code = rcode_from_raw buf, resp_raw = buf\<rparr>"
    by (auto simp: exchange_def split: option.splits sum.splits)
  from await_reply_Inr [OF buf] obtain d where d: "Datagram d server \<in> set (arrivals att)"
    "buf = take RECV_BUF d" "2 \<le> length buf" "buf ! 0 = q_raw q ! 0" "buf ! 1 = q_raw q ! 1"
    by auto
  moreover have "2 \<le> length (q_raw q)" using assms(1) by (simp add: query_ok_def HEADER_def)
  ultimately show "good_reply q r"
    by (auto simp: good_reply_def r intro: txid_matchesI)
  show "\<exists>d. Datagram d server \<in> set (arrivals att) \<and> resp_raw r = take RECV_BUF d"
    using d r by auto
qed

lemma query_dns_exchange:
  assumes "query_dns Q server q att sockets = (res, sockets')"
  obtains (unbound) e where "bind_result att = Inl e" "res = Inl (Upstream_Error e)"
  | (asked) "res = exchange server q att"
  using assms
  by (auto simp: query_dns_def Let_def split: option.splits sum.splits prod.splits)

lemma query_dns_bound:
  assumes "\<not> isl (bind_result att)"
  shows "fst (query_dns Q server q att sockets) = exchange server q att"
  using assms by (auto simp: query_dns_def Let_def isl_def split: option.splits sum.splits prod.splits)

lemma try_servers_Inr:
  assumes "try_servers Q servers q net is err sockets = (Inr r, sockets')"
  obtains i where "i \<in> set is" "exchange (servers ! (i mod length servers)) q (net i) = Inr r"
  using assms
proof (induction "is" arbitrary: err sockets thesis)
  case Nil
  then show ?case by simp
next
  case (Cons i "is")
  obtain res s1 where step: "query_dns Q (servers ! (i mod length servers)) q (net i) sockets = (res, s1)"
    by fastforce
  show ?case
  proof (cases res)
    case (Inr r')
    with step Cons.prems(2) have "r' = r" by simp
    with Inr step Cons.prems(1) [of i] show ?thesis by (auto elim: query_dns_exchange)
  next
    case (Inl e)
    with step Cons.prems(2) have "try_servers Q servers q net is (Some e) s1 = (Inr r, sockets')" by simp
    then show ?thesis
      using Cons.IH Cons.prems(1) by (metis list.set_intros(2))
  qed
qed

text \<open>The servers are asked in order, and the first that answers decides.\<close>

lemma try_servers_first:
  assumes bound: "\<And>i. \<not> isl (bind_result (net i))"
    and failed: "\<forall>i \<in> set before. isl (exchange (servers ! (i mod length servers)) q (net i))"
    and ok: "exchange (servers ! (i mod length servers)) q (net i) = Inr r"
  shows "fst (try_servers Q servers q net (before @ i # after) err sockets) = Inr r"
  using failed
proof (induction before arbitrary: err sockets)
  case Nil
  have "fst (query_dns Q (servers ! (i mod length servers)) q (net i) sockets) = Inr r"
    by (simp add: query_dns_bound [OF bound] ok)
  then show ?case by (auto split: prod.splits)
next
  case (Cons j before)
  then obtain e where "exchange (servers ! (j mod length servers)) q (net j) = Inl e"
    by (auto simp: isl_def)
  then have "fst (query_dns Q (servers ! (j mod length servers)) q (net j) sockets) = Inl e"
    by (simp add: query_dns_bound [OF bound])
  with Cons show ?case by (auto split: prod.splits)
qed

lemma resolve_good:
  assumes "query_ok q" and "resolve Q cfg q net sockets = (Inr r, sockets')"
  shows "good_reply q r"
    and "\<exists>i d. i < length (upstreams cfg) \<and> Datagram d (upstreams cfg ! i) \<in> set (arrivals (net i)) \<and>
      resp_raw r = take RECV_BUF d"
proof -
  from assms(2) have ne: "upstreams cfg \<noteq> []"
    and run: "try_servers Q (upstreams cfg) q net [0..<max (length (upstreams cfg)) 1] None sockets
      = (Inr r, sockets')"
    by (auto simp: resolve_def Let_def split: if_splits)
  from try_servers_Inr [OF run] obtain i where
    "i \<in> set [0..<max (length (upstreams cfg)) 1]"
    and ex: "exchange (upstreams cfg ! (i mod length (upstreams cfg))) q (net i) = Inr r" .
  with ne have i: "i < length (upstreams cfg)"
    by (cases "upstreams cfg") (auto simp: max_def split: if_splits)
  show "good_reply q r" by (rule exchange_good(1) [OF assms(1) ex])
  from exchange_good(2) [OF assms(1) ex] i
  show "\<exists>i d. i < length (upstreams cfg) \<and> Datagram d (upstreams cfg ! i) \<in> set (arrivals (net i)) \<and>
      resp_raw r = take RECV_BUF d" by auto
qed

end
