(* ===== verification/Rust_Text.thy ===== *)
theory Rust_Text
  imports Externals
begin

text \<open>
  The \<open>str\<close> methods of the Rust standard library that the blocklist code uses, on strings
  that are UTF-8 byte sequences: \<open>split\<close>, \<open>trim\<close>, \<open>trim_end_matches\<close>, \<open>split_whitespace\<close>,
  \<open>lines\<close>, \<open>to_lowercase\<close>, and \<open>parse::<IpAddr>()\<close>. White space is Unicode's White_Space.
\<close>

section \<open>Splitting\<close>

fun split_on :: "char \<Rightarrow> string \<Rightarrow> string list" where
  "split_on c [] = [[]]"
| "split_on c (x # xs) =
     (if x = c then [] # split_on c xs
      else (case split_on c xs of [] \<Rightarrow> [[x]] | p # ps \<Rightarrow> (x # p) # ps))"

lemma split_on_not_Nil [simp]: "split_on c s \<noteq> []"
  by (induction s) (auto split: list.splits)

lemma split_on_no_sep: "c \<notin> set s \<Longrightarrow> split_on c s = [s]"
  by (induction s) auto

lemma split_on_append_sep: "split_on c (xs @ c # ys) = split_on c xs @ split_on c ys"
  by (induction xs) (auto split: list.splits)

lemma split_on_sep_free: "p \<in> set (split_on c s) \<Longrightarrow> c \<notin> set p"
  by (induction s arbitrary: p) (auto split: list.splits if_splits)

lemma split_on_set: "p \<in> set (split_on c s) \<Longrightarrow> set p \<subseteq> set s"
  by (induction s arbitrary: p) (fastforce split: list.splits if_splits)+

fun join_with :: "char \<Rightarrow> string list \<Rightarrow> string" where
  "join_with c [] = []"
| "join_with c [p] = p"
| "join_with c (p # ps) = p @ c # join_with c ps"

lemma join_with_Cons: "join_with c (p # ps) = (if ps = [] then p else p @ c # join_with c ps)"
  by (cases ps) simp_all

lemma join_split: "join_with c (split_on c s) = s"
  by (induction s) (auto simp: join_with_Cons split: list.splits if_splits)

lemma split_join:
  "ps \<noteq> [] \<Longrightarrow> \<forall>p \<in> set ps. c \<notin> set p \<Longrightarrow> split_on c (join_with c ps) = ps"
proof (induction ps)
  case (Cons p ps)
  then show ?case
    by (cases "ps = []") (auto simp: join_with_Cons split_on_no_sep split_on_append_sep)
qed simp

lemma inj_split_on: "split_on c s = split_on c t \<Longrightarrow> s = t"
  by (metis join_split)

section \<open>White space and trimming\<close>

text \<open>The number of bytes of the white-space character at the front, 0 if there is none.\<close>

definition ws_len :: "string \<Rightarrow> nat" where
  "ws_len s =
     (case map byte_of_char (take 3 s) of
        [] \<Rightarrow> 0
      | a # as \<Rightarrow>
          if (9 \<le> a \<and> a \<le> 13) \<or> a = 32 then 1
          else (case as of
              [] \<Rightarrow> 0
            | b # bs \<Rightarrow>
                if a = 0xC2 \<and> (b = 0x85 \<or> b = 0xA0) then 2
                else (case bs of
                    [] \<Rightarrow> 0
                  | d # _ \<Rightarrow>
                      if (a = 0xE1 \<and> b = 0x9A \<and> d = 0x80)
                       \<or> (a = 0xE2 \<and> b = 0x80 \<and> (0x80 \<le> d \<and> d \<le> 0x8A
                             \<or> d = 0xA8 \<or> d = 0xA9 \<or> d = 0xAF))
                       \<or> (a = 0xE2 \<and> b = 0x81 \<and> d = 0x9F)
                       \<or> (a = 0xE3 \<and> b = 0x80 \<and> d = 0x80) then 3 else 0)))"

lemma ws_len_le: "ws_len s \<le> length s"
proof (cases "length s < 3")
  case True
  then consider "s = []" | a where "s = [a]" | a b where "s = [a, b]"
    by (cases s; cases "tl s"; cases "tl (tl s)") auto
  then show ?thesis
    by cases (simp_all add: ws_len_def)
next
  case False
  have "ws_len s \<le> 3"
    by (simp add: ws_len_def split: list.split)
  with False show ?thesis by simp
qed

function trim_start :: "string \<Rightarrow> string" where
  "trim_start s = (if ws_len s = 0 then s else trim_start (drop (ws_len s) s))"
  by pat_completeness auto
termination
proof (relation "measure length", goal_cases)
  case (2 s)
  then have "0 < length s" using ws_len_le [of s] by linarith
  with 2 show ?case by simp
qed simp

text \<open>The number of bytes of the white-space character at the end, 0 if there is none.\<close>

definition ws_end_len :: "string \<Rightarrow> nat" where
  "ws_end_len s =
     (case filter (\<lambda>n. n \<le> length s \<and> ws_len (drop (length s - n) s) = n) [1, 2, 3] of
        [] \<Rightarrow> 0 | n # _ \<Rightarrow> n)"

lemma ws_end_len_le: "ws_end_len s \<le> length s"
proof -
  have "set (filter (\<lambda>n. n \<le> length s \<and> ws_len (drop (length s - n) s) = n) [1, 2, 3])
      \<subseteq> {n. n \<le> length s}"
    by auto
  then show ?thesis
    unfolding ws_end_len_def by (auto split: list.splits)
qed

function trim_end :: "string \<Rightarrow> string" where
  "trim_end s = (if ws_end_len s = 0 then s else trim_end (take (length s - ws_end_len s) s))"
  by pat_completeness auto
termination
proof (relation "measure length", goal_cases)
  case (2 s)
  then show ?case using ws_end_len_le [of s] by simp
qed simp

declare trim_start.simps [simp del] trim_end.simps [simp del]

definition trim :: "string \<Rightarrow> string" where
  "trim s = trim_end (trim_start s)"

definition trim_end_dots :: "string \<Rightarrow> string" where
  "trim_end_dots s = rev (dropWhile (\<lambda>c. c = CHR ''.'') (rev s))"

text \<open>\<open>split_whitespace\<close>: the maximal runs without white space, none of them empty.\<close>

function split_whitespace_acc :: "string \<Rightarrow> string \<Rightarrow> string list" where
  "split_whitespace_acc s acc =
     (if s = [] then (if acc = [] then [] else [rev acc])
      else if ws_len s = 0 then split_whitespace_acc (tl s) (hd s # acc)
      else (if acc = [] then [] else [rev acc]) @ split_whitespace_acc (drop (ws_len s) s) [])"
  by pat_completeness auto
termination
  by (relation "measure (\<lambda>(s, acc). length s)") auto

declare split_whitespace_acc.simps [simp del]

definition split_whitespace :: "string \<Rightarrow> string list" where
  "split_whitespace s = split_whitespace_acc s []"

text \<open>\<open>lines\<close>: pieces ended by a newline, without it and without one carriage return before it.\<close>

definition strip_cr :: "string \<Rightarrow> string" where
  "strip_cr s = (if s \<noteq> [] \<and> last s = char_of_byte 13 then butlast s else s)"

definition text_lines :: "string \<Rightarrow> string list" where
  "text_lines s =
     (let ps = split_on (char_of_byte 10) s in
      map strip_cr (butlast ps) @ (if last ps = [] then [] else [last ps]))"

section \<open>Case\<close>

definition ascii_string :: "string \<Rightarrow> bool" where
  "ascii_string s \<longleftrightarrow> list_all (\<lambda>c. is_ascii (byte_of_char c)) s"

definition ascii_lowercase :: "string \<Rightarrow> string" where
  "ascii_lowercase s = map (\<lambda>c. char_of_byte (to_ascii_lowercase (byte_of_char c))) s"

text \<open>
  \<open>str::to_lowercase\<close>. On ASCII text it is \<open>ascii_lowercase\<close>; on text with other characters
  it follows the Unicode tables, which are a field of the libraries record.
\<close>

definition to_lowercase :: "('rt, 'x) dns_libs_scheme \<Rightarrow> string \<Rightarrow> string" where
  "to_lowercase L s = (if ascii_string s then ascii_lowercase s else unicode_lowercase L s)"

lemma ascii_lowercase_idem [simp]: "ascii_lowercase (ascii_lowercase s) = ascii_lowercase s"
  by (simp add: ascii_lowercase_def)

lemma ascii_string_lowercase [simp]: "ascii_string (ascii_lowercase s) = ascii_string s"
  by (induction s) (simp_all add: ascii_string_def ascii_lowercase_def)

lemma ascii_lowercase_append [simp]:
  "ascii_lowercase (xs @ ys) = ascii_lowercase xs @ ascii_lowercase ys"
  by (simp add: ascii_lowercase_def)

section \<open>IP addresses\<close>

text \<open>
  \<open>core::net::parser\<close>, reduced to whether the text is an address: each reader returns the
  text after what it read.
\<close>

definition digit_value :: "char \<Rightarrow> nat option" where
  "digit_value c =
     (let n = unat (byte_of_char c) in
      if 48 \<le> n \<and> n \<le> 57 then Some (n - 48)
      else if 97 \<le> n \<and> n \<le> 122 then Some (n - 87)
      else if 65 \<le> n \<and> n \<le> 90 then Some (n - 55)
      else None)"

definition is_digit_in :: "nat \<Rightarrow> char \<Rightarrow> bool" where
  "is_digit_in radix c = (case digit_value c of None \<Rightarrow> False | Some d \<Rightarrow> d < radix)"

definition digits_value :: "nat \<Rightarrow> string \<Rightarrow> nat" where
  "digits_value radix ds = foldl (\<lambda>acc c. acc * radix + the (digit_value c)) 0 ds"

definition read_number :: "nat \<Rightarrow> nat \<Rightarrow> bool \<Rightarrow> nat \<Rightarrow> string \<Rightarrow> string option" where
  "read_number radix max_digits allow_zero_prefix max_value s =
     (let ds = takeWhile (is_digit_in radix) s in
      if max_digits < length ds then None
      else if ds = [] then None
      else if \<not> allow_zero_prefix \<and> hd ds = CHR ''0'' \<and> 1 < length ds then None
      else if max_value < digits_value radix ds then None
      else Some (drop (length ds) s))"

definition read_given_char :: "char \<Rightarrow> string \<Rightarrow> string option" where
  "read_given_char c s = (case s of [] \<Rightarrow> None | x # xs \<Rightarrow> if x = c then Some xs else None)"

definition read_separator ::
  "char \<Rightarrow> nat \<Rightarrow> (string \<Rightarrow> string option) \<Rightarrow> string \<Rightarrow> string option" where
  "read_separator sep i inner s =
     (if 0 < i then Option.bind (read_given_char sep s) inner else inner s)"

definition read_octet :: "nat \<Rightarrow> string \<Rightarrow> string option" where
  "read_octet i = read_separator (CHR ''.'') i (read_number 10 3 False 255)"

definition read_ipv4 :: "string \<Rightarrow> string option" where
  "read_ipv4 s =
     Option.bind (Option.bind (Option.bind (read_octet 0 s) (read_octet 1)) (read_octet 2))
       (read_octet 3)"

function read_groups :: "nat \<Rightarrow> nat \<Rightarrow> string \<Rightarrow> nat \<times> bool \<times> string" where
  "read_groups i limit s =
     (if limit \<le> i then (limit, False, s)
      else
        (case (if i + 1 < limit then read_separator (CHR '':'') i read_ipv4 s else None) of
           Some r \<Rightarrow> (i + 2, True, r)
         | None \<Rightarrow>
             (case read_separator (CHR '':'') i (read_number 16 4 True 65535) s of
                Some r \<Rightarrow> read_groups (i + 1) limit r
              | None \<Rightarrow> (i, False, s))))"
  by pat_completeness auto
termination
  by (relation "measure (\<lambda>(i, limit, s). limit - i)") auto

definition read_ipv6 :: "string \<Rightarrow> string option" where
  "read_ipv6 s =
     (case read_groups 0 8 s of (head_size, head_ipv4, r) \<Rightarrow>
        if head_size = 8 then Some r
        else if head_ipv4 then None
        else
          (case Option.bind (read_given_char (CHR '':'') r) (read_given_char (CHR '':'')) of
             None \<Rightarrow> None
           | Some r' \<Rightarrow>
               (case read_groups 0 (8 - (head_size + 1)) r' of (_, _, r'') \<Rightarrow> Some r'')))"

definition is_ip_addr :: "string \<Rightarrow> bool" where
  "is_ip_addr s =
     (case (case read_ipv4 s of Some r \<Rightarrow> Some r | None \<Rightarrow> read_ipv6 s) of
        Some r \<Rightarrow> r = []
      | None \<Rightarrow> False)"

end
