(* ===== verification/Domains.thy ===== *)
theory Domains
  imports Rust_Text "HOL-Library.Sublist"
begin

text \<open>
  The pure part of \<open>backend/src/repo/cache.rs\<close>: whether a name is blocked given the two
  domain sets, which texts are valid domains, how they are normalised before they enter a
  set, and how a downloaded list is read.
\<close>

type_synonym domain_set = "string set"

section \<open>The decision\<close>

text \<open>The loop of \<open>any_suffix_match\<close> over the positions of the dots.\<close>

fun suffix_loop :: "domain_set \<Rightarrow> string \<Rightarrow> nat list \<Rightarrow> bool" where
  "suffix_loop D name [] = False"
| "suffix_loop D name (p # ps) =
     (if drop (p + 1) name \<in> D then True else suffix_loop D name ps)"

definition any_suffix_match :: "('rt, 'x) dns_libs_scheme \<Rightarrow> domain_set \<Rightarrow> string \<Rightarrow> bool" where
  "any_suffix_match L D name =
     (if D = {} then False
      else if name \<in> D then True
      else suffix_loop D name (memchr_iter L CHR ''.'' name))"

text \<open>The loop of \<open>decide\<close>, with the flag \<open>blocked\<close> it carries.\<close>

fun decide_loop :: "domain_set \<Rightarrow> domain_set \<Rightarrow> string \<Rightarrow> nat list \<Rightarrow> bool \<Rightarrow> bool" where
  "decide_loop block allow name [] blocked = blocked"
| "decide_loop block allow name (p # ps) blocked =
     (let suffix = drop (p + 1) name in
      if suffix \<in> allow then False
      else decide_loop block allow name ps (if \<not> blocked \<and> suffix \<in> block then True else blocked))"

definition decide ::
  "('rt, 'x) dns_libs_scheme \<Rightarrow> domain_set \<Rightarrow> domain_set \<Rightarrow> string \<Rightarrow> bool" where
  "decide L block allow name_lc =
     (if block = {} then False
      else if allow = {} then any_suffix_match L block name_lc
      else if name_lc \<in> allow then False
      else decide_loop block allow name_lc (memchr_iter L CHR ''.'' name_lc) (name_lc \<in> block))"

section \<open>Domain suffixes\<close>

text \<open>A domain covers a name when it is the name or what follows one of its dots.\<close>

definition covers :: "string \<Rightarrow> string \<Rightarrow> bool" where
  "covers d name \<longleftrightarrow> d = name \<or> suffix (CHR ''.'' # d) name"

definition covered_by :: "domain_set \<Rightarrow> string \<Rightarrow> bool" where
  "covered_by D name \<longleftrightarrow> (\<exists>d \<in> D. covers d name)"

lemma suffix_dot_iff:
  "suffix (c # d) name \<longleftrightarrow> (\<exists>p < length name. name ! p = c \<and> drop (p + 1) name = d)"
proof
  assume "suffix (c # d) name"
  then obtain pre where "name = pre @ c # d" by (auto simp: suffix_def)
  then show "\<exists>p < length name. name ! p = c \<and> drop (p + 1) name = d"
    by (intro exI [of _ "length pre"]) simp
next
  assume "\<exists>p < length name. name ! p = c \<and> drop (p + 1) name = d"
  then obtain p where "p < length name" "name ! p = c" "drop (p + 1) name = d" by blast
  then have "name = take p name @ c # d"
    using id_take_nth_drop by fastforce
  then show "suffix (c # d) name" by (auto simp: suffix_def)
qed

lemma covered_by_iff:
  "covered_by D name \<longleftrightarrow>
     name \<in> D \<or> (\<exists>p < length name. name ! p = CHR ''.'' \<and> drop (p + 1) name \<in> D)"
  by (auto simp: covered_by_def covers_def suffix_dot_iff)

lemma covers_refl [simp]: "covers d d"
  by (simp add: covers_def)

lemma covers_trans: "covers a b \<Longrightarrow> covers b c \<Longrightarrow> covers a c"
  by (auto simp: covers_def suffix_def)

lemma join_with_append:
  "ps \<noteq> [] \<Longrightarrow> qs \<noteq> [] \<Longrightarrow> join_with c (ps @ qs) = join_with c ps @ c # join_with c qs"
  by (induction ps) (auto simp: join_with_Cons)

text \<open>Covering is by whole labels: it is the suffix relation on the label sequences.\<close>

lemma covers_labels: "covers d name \<longleftrightarrow> suffix (split_on CHR ''.'' d) (split_on CHR ''.'' name)"
proof
  assume "covers d name"
  then show "suffix (split_on CHR ''.'' d) (split_on CHR ''.'' name)"
    by (auto simp: covers_def suffix_def split_on_append_sep)
next
  assume "suffix (split_on CHR ''.'' d) (split_on CHR ''.'' name)"
  then obtain ls where ls: "split_on CHR ''.'' name = ls @ split_on CHR ''.'' d"
    by (auto simp: suffix_def)
  show "covers d name"
  proof (cases "ls = []")
    case True
    with ls show ?thesis by (auto simp: covers_def dest: inj_split_on)
  next
    case False
    have "name = join_with CHR ''.'' (ls @ split_on CHR ''.'' d)"
      by (simp flip: ls add: join_split)
    with False have "name = join_with CHR ''.'' ls @ CHR ''.'' # d"
      by (simp add: join_with_append join_split)
    then show ?thesis by (auto simp: covers_def suffix_def)
  qed
qed

section \<open>What the decision computes\<close>

lemma suffix_loop_iff: "suffix_loop D name ps \<longleftrightarrow> (\<exists>p \<in> set ps. drop (p + 1) name \<in> D)"
  by (induction ps) auto

lemma decide_loop_iff:
  "decide_loop block allow name ps blocked \<longleftrightarrow>
     (\<forall>p \<in> set ps. drop (p + 1) name \<notin> allow) \<and>
     (blocked \<or> (\<exists>p \<in> set ps. drop (p + 1) name \<in> block))"
  by (induction ps arbitrary: blocked) (auto simp: Let_def)

lemma any_suffix_match_iff: "memchr_law L \<Longrightarrow> any_suffix_match L D name \<longleftrightarrow> covered_by D name"
  by (auto simp: any_suffix_match_def suffix_loop_iff memchr_iterD covered_by_iff)

lemma decide_iff:
  assumes "memchr_law L"
  shows "decide L block allow name \<longleftrightarrow> covered_by block name \<and> \<not> covered_by allow name"
proof (cases "block = {} \<or> allow = {}")
  case True
  then show ?thesis
    by (auto simp: decide_def any_suffix_match_iff [OF assms]) (auto simp: covered_by_def)
next
  case False
  then show ?thesis
    by (auto simp: decide_def decide_loop_iff memchr_iterD [OF assms] covered_by_iff)
qed

text \<open>
  What the rest of the server relies on, for any procedure that decides by covering: the
  cache asks it, and the handlers act on the answer.
\<close>

locale name_policy =
  fixes blocks :: "domain_set \<Rightarrow> domain_set \<Rightarrow> string \<Rightarrow> bool"
    and lawful :: bool
  assumes blocks_iff: "lawful \<Longrightarrow> blocks B A n \<longleftrightarrow> covered_by B n \<and> \<not> covered_by A n"
begin

lemma nothing_listed: "lawful \<Longrightarrow> \<not> blocks {} A n"
  by (simp add: blocks_iff covered_by_def)

lemma allow_wins: "lawful \<Longrightarrow> a \<in> A \<Longrightarrow> covers a n \<Longrightarrow> \<not> blocks B A n"
  by (auto simp: blocks_iff covered_by_def)

lemma block_listed: "lawful \<Longrightarrow> d \<in> B \<Longrightarrow> covers d n \<Longrightarrow> \<not> covered_by A n \<Longrightarrow> blocks B A n"
  by (auto simp: blocks_iff covered_by_def)

lemma block_mono: "lawful \<Longrightarrow> B \<subseteq> B' \<Longrightarrow> blocks B A n \<Longrightarrow> blocks B' A n"
  by (auto simp: blocks_iff covered_by_def)

lemma allow_antimono: "lawful \<Longrightarrow> A \<subseteq> A' \<Longrightarrow> blocks B A' n \<Longrightarrow> blocks B A n"
  by (auto simp: blocks_iff covered_by_def)

lemma subdomain: "lawful \<Longrightarrow> blocks B A n \<Longrightarrow> covers n m \<Longrightarrow> \<not> covered_by A m \<Longrightarrow> blocks B A m"
  unfolding blocks_iff covered_by_def by (blast intro: covers_trans)

lemma unblock: "lawful \<Longrightarrow> blocks (B - {d}) A n \<Longrightarrow> blocks B A n"
  by (rule block_mono) auto

end

interpretation policy: name_policy "decide L" "memchr_law L" for L :: "('rt, 'x) dns_libs_scheme"
  by unfold_locales (rule decide_iff)

section \<open>Valid domains\<close>

definition is_ascii_alphanumeric :: "u8 \<Rightarrow> bool" where
  "is_ascii_alphanumeric b \<longleftrightarrow>
     (48 \<le> b \<and> b \<le> 57) \<or> (65 \<le> b \<and> b \<le> 90) \<or> (97 \<le> b \<and> b \<le> 122)"

definition label_char :: "char \<Rightarrow> bool" where
  "label_char c \<longleftrightarrow> is_ascii_alphanumeric (byte_of_char c) \<or> c = CHR ''-'' \<or> c = CHR ''_''"

definition is_valid_domain :: "string \<Rightarrow> bool" where
  "is_valid_domain d =
     (if d = [] \<or> length d > 253 \<or> CHR ''.'' \<notin> set d then False
      else list_all (\<lambda>label. label \<noteq> [] \<and> length label \<le> 63 \<and> list_all label_char label)
             (split_on CHR ''.'' d))"

definition normalize_domains :: "('rt, 'x) dns_libs_scheme \<Rightarrow> string list \<Rightarrow> string list" where
  "normalize_domains L domains =
     filter is_valid_domain (map (\<lambda>d. to_lowercase L (trim_end_dots (trim d))) domains)"

section \<open>Reading a list of domains\<close>

definition accept_domain :: "('rt, 'x) dns_libs_scheme \<Rightarrow> string \<Rightarrow> string list" where
  "accept_domain L d =
     (let d' = to_lowercase L (trim_end_dots d) in if is_valid_domain d' then [d'] else [])"

definition parse_domain_line :: "('rt, 'x) dns_libs_scheme \<Rightarrow> string \<Rightarrow> string list" where
  "parse_domain_line L l =
     (let line = trim (hd (split_on CHR ''#'' l)) in
      if line = [] then []
      else case split_whitespace line of
        [] \<Rightarrow> []
      | first # tokens \<Rightarrow>
          if is_ip_addr first then concat (map (accept_domain L) tokens)
          else accept_domain L first)"

definition parse_domain_list :: "('rt, 'x) dns_libs_scheme \<Rightarrow> string \<Rightarrow> string list" where
  "parse_domain_list L text = concat (map (parse_domain_line L) (text_lines text))"

section \<open>Normal forms\<close>

text \<open>The case mapping of \<open>to_lowercase\<close> leaves no ASCII capital letter.\<close>

definition lowercase_law :: "('rt, 'x) dns_libs_scheme \<Rightarrow> bool" where
  "lowercase_law L \<longleftrightarrow> (\<forall>s. ascii_lowercase (unicode_lowercase L s) = unicode_lowercase L s)"

definition normal_domain :: "string \<Rightarrow> bool" where
  "normal_domain d \<longleftrightarrow> is_valid_domain d \<and> ascii_lowercase d = d"

lemma to_lowercase_lower: "lowercase_law L \<Longrightarrow> ascii_lowercase (to_lowercase L s) = to_lowercase L s"
  by (simp add: to_lowercase_def lowercase_law_def)

lemma normalize_domains_normal:
  "lowercase_law L \<Longrightarrow> d \<in> set (normalize_domains L ds) \<Longrightarrow> normal_domain d"
  by (auto simp: normalize_domains_def normal_domain_def to_lowercase_lower)

lemma accept_domain_normal:
  "lowercase_law L \<Longrightarrow> d \<in> set (accept_domain L s) \<Longrightarrow> normal_domain d"
  by (auto simp: accept_domain_def normal_domain_def to_lowercase_lower Let_def split: if_splits)

lemma parse_domain_line_normal:
  "lowercase_law L \<Longrightarrow> d \<in> set (parse_domain_line L l) \<Longrightarrow> normal_domain d"
  by (auto simp: parse_domain_line_def Let_def accept_domain_normal split: if_splits list.splits)

lemma parse_domain_list_normal:
  "lowercase_law L \<Longrightarrow> d \<in> set (parse_domain_list L text) \<Longrightarrow> normal_domain d"
  by (auto simp: parse_domain_list_def parse_domain_line_normal)

text \<open>A valid domain consists of label characters and dots and does not end in a dot.\<close>

lemma label_char_byte:
  assumes "label_char c"
  shows "byte_of_char c \<in> {45} \<union> {48..57} \<union> {65..90} \<union> {95} \<union> {97..122}"
proof -
  have "byte_of_char CHR ''-'' = 45" "byte_of_char CHR ''_'' = 95"
    by (simp_all add: byte_of_char_def)
  with assms show ?thesis
    by (auto simp: label_char_def is_ascii_alphanumeric_def)
qed

lemma valid_domain_chars:
  assumes "is_valid_domain d"
  shows "\<forall>c \<in> set d. label_char c \<or> c = CHR ''.''"
proof -
  have labels: "\<forall>p \<in> set (split_on CHR ''.'' d). \<forall>c \<in> set p. label_char c"
    using assms by (auto simp: is_valid_domain_def list_all_iff split: if_splits)
  have "set (join_with CHR ''.'' ps) \<subseteq> insert CHR ''.'' (\<Union> (set ` set ps))" for ps
    by (induction ps) (auto simp: join_with_Cons)
  from this [of "split_on CHR ''.'' d"] labels show ?thesis
    by (auto simp: join_split)
qed

definition domain_char :: "char \<Rightarrow> bool" where
  "domain_char c \<longleftrightarrow> label_char c \<or> c = CHR ''.''"

lemma domain_char_range:
  assumes "domain_char c"
  shows "45 \<le> byte_of_char c" and "byte_of_char c \<le> 122"
proof -
  have "byte_of_char CHR ''.'' = 46" by (simp add: byte_of_char_def)
  then have "byte_of_char c \<in> {45, 46} \<union> {48..57} \<union> {65..90} \<union> {95} \<union> {97..122}"
    using assms label_char_byte [of c] by (auto simp: domain_char_def)
  then show "45 \<le> byte_of_char c" "byte_of_char c \<le> 122"
    by (auto simp: word_le_nat_alt)
qed

lemma domain_char_no_space: "domain_char c \<Longrightarrow> ws_len (c # s) = 0"
proof -
  assume "domain_char c"
  from domain_char_range [OF this]
  have "\<not> byte_of_char c \<le> 13" "byte_of_char c \<noteq> 32" "byte_of_char c \<noteq> 0xC2"
    "byte_of_char c \<noteq> 0xE1" "byte_of_char c \<noteq> 0xE2" "byte_of_char c \<noteq> 0xE3"
    by (auto simp: word_le_nat_alt)
  then show ?thesis
    by (simp add: ws_len_def split: list.split)
qed

lemma domain_text_trim:
  assumes "\<forall>c \<in> set s. domain_char c"
  shows "trim s = s"
proof -
  have sub: "ws_len t = 0" if "set t \<subseteq> set s" for t
  proof (cases t)
    case Nil
    then show ?thesis by (simp add: ws_len_def)
  next
    case (Cons c t')
    with that assms have "domain_char c" by auto
    with Cons show ?thesis by (simp add: domain_char_no_space)
  qed
  have zero: "ws_len s = 0" "ws_len (drop n s) = 0" for n
    by (rule sub, simp add: set_drop_subset)+
  then have "trim_start s = s"
    by (subst trim_start.simps) simp
  moreover have "ws_end_len s = 0"
    by (simp add: ws_end_len_def zero)
  then have "trim_end s = s"
    by (subst trim_end.simps) simp
  ultimately show ?thesis by (simp add: trim_def)
qed

lemma domain_text_ascii:
  assumes "\<forall>c \<in> set s. domain_char c"
  shows "ascii_string s"
proof -
  have "is_ascii (byte_of_char c)" if "c \<in> set s" for c
    using domain_char_range [of c] assms that by (auto simp: is_ascii_def word_le_nat_alt word_less_nat_alt)
  then show ?thesis by (simp add: ascii_string_def list_all_iff)
qed

lemma valid_domain_text: "is_valid_domain d \<Longrightarrow> \<forall>c \<in> set d. domain_char c"
  using valid_domain_chars by (auto simp: domain_char_def)

lemma valid_domain_no_trailing_dot:
  assumes "is_valid_domain d"
  shows "trim_end_dots d = d"
proof (cases d rule: rev_cases)
  case Nil
  then show ?thesis by (simp add: trim_end_dots_def)
next
  case (snoc d' c)
  have "c \<noteq> CHR ''.''"
  proof
    assume "c = CHR ''.''"
    then have "[] \<in> set (split_on CHR ''.'' d)"
      using snoc split_on_append_sep [of "CHR ''.''" d' "[]"] by simp
    with assms show False
      by (auto simp: is_valid_domain_def list_all_iff split: if_splits)
  qed
  then show ?thesis by (simp add: trim_end_dots_def snoc)
qed

lemma normal_domain_fixed:
  assumes "normal_domain d"
  shows "to_lowercase L (trim_end_dots (trim d)) = d" and "to_lowercase L (trim_end_dots d) = d"
proof -
  have v: "is_valid_domain d" and l: "ascii_lowercase d = d"
    using assms by (simp_all add: normal_domain_def)
  note chars = valid_domain_text [OF v]
  show "to_lowercase L (trim_end_dots d) = d"
    using domain_text_ascii [OF chars] l
    by (simp add: valid_domain_no_trailing_dot [OF v] to_lowercase_def)
  then show "to_lowercase L (trim_end_dots (trim d)) = d"
    by (simp add: domain_text_trim [OF chars])
qed

lemma normalize_domains_fixed:
  assumes "\<forall>d \<in> set ds. normal_domain d"
  shows "normalize_domains L ds = ds"
proof -
  have "map (\<lambda>d. to_lowercase L (trim_end_dots (trim d))) ds = ds"
    using assms by (intro map_idI) (simp add: normal_domain_fixed)
  then show ?thesis
    using assms by (simp add: normalize_domains_def normal_domain_def)
qed

lemma normalize_domains_idem:
  "lowercase_law L \<Longrightarrow> normalize_domains L (normalize_domains L ds) = normalize_domains L ds"
  using normalize_domains_normal by (blast intro: normalize_domains_fixed)

lemma normalize_parsed_list:
  "lowercase_law L \<Longrightarrow> normalize_domains L (parse_domain_list L text) = parse_domain_list L text"
  using parse_domain_list_normal by (blast intro: normalize_domains_fixed)

lemma length_normalize_domains [bounds]: "length (normalize_domains L ds) \<le> length ds"
  unfolding normalize_domains_def by (metis length_filter_le length_map)

lemma sample_libs_lowercase [simp]: "lowercase_law sample_libs"
  by (simp add: lowercase_law_def sample_libs_def ascii_lowercase_def)

end
