(* ===== verification/Cache.thy ===== *)
theory Cache
  imports Domains Wire_Names Config
begin

text \<open>
  The stateful part of \<open>backend/src/repo/cache.rs\<close>: the in-process answer cache (L1, moka),
  the optional Redis cache (feature \<open>redis\<close>), the two domain sets in memory and the tables
  behind them. Each method of \<open>Cache\<close> is a function from the state to its result and the
  new state; time is in nanoseconds.
\<close>

section \<open>Data\<close>

record add_outcome =
  added :: nat
  considered :: nat

definition MAX_INSERT_CHUNK :: nat where "MAX_INSERT_CHUNK = 1000"

record l1_entry =
  l1_raw :: bytes
  l1_ttl :: u32

definition secs :: "nat \<Rightarrow> nat" where "secs n = n * 1000000000"

text \<open>The expiry policy handed to moka: the two callbacks of \<open>TtlExpiry\<close>.\<close>

record expiry =
  on_create :: "string \<Rightarrow> l1_entry \<Rightarrow> nat \<Rightarrow> nat option"
  on_update :: "string \<Rightarrow> l1_entry \<Rightarrow> nat \<Rightarrow> nat option \<Rightarrow> nat option"

definition expire_after_create :: "string \<Rightarrow> l1_entry \<Rightarrow> nat \<Rightarrow> nat option" where
  "expire_after_create key v now = Some (secs (unat (l1_ttl v)))"

definition expire_after_update :: "string \<Rightarrow> l1_entry \<Rightarrow> nat \<Rightarrow> nat option \<Rightarrow> nat option" where
  "expire_after_update key v now current = Some (secs (unat (l1_ttl v)))"

definition ttl_expiry :: expiry where
  "ttl_expiry = \<lparr>on_create = expire_after_create, on_update = expire_after_update\<rparr>"

text \<open>The operations of moka, Redis and the database, beside those of the DNS libraries.\<close>

datatype domain_table = Blocked_Table | Allowed_Table

type_synonym redis_error = string

record ('rt, 'm, 'r, 'db) cache_libs = "'rt dns_libs" +
  moka_insert :: "expiry \<Rightarrow> nat \<Rightarrow> string \<Rightarrow> l1_entry \<Rightarrow> 'm \<Rightarrow> 'm"
  moka_get :: "expiry \<Rightarrow> nat \<Rightarrow> string \<Rightarrow> 'm \<Rightarrow> l1_entry option \<times> 'm"
  moka_entry_count :: "'m \<Rightarrow> u64"
  redis_feature :: bool
  redis_get :: "nat \<Rightarrow> string \<Rightarrow> 'r \<Rightarrow> (redis_error + bytes option) \<times> 'r"
  redis_setex :: "nat \<Rightarrow> string \<Rightarrow> u32 \<Rightarrow> bytes \<Rightarrow> 'r \<Rightarrow> 'r"
  sql_insert_blocked :: "string \<Rightarrow> string list \<Rightarrow> ('db, nat) sql"
  sql_insert_allowed :: "string list \<Rightarrow> ('db, nat) sql"
  sql_delete_blocked :: "string \<Rightarrow> ('db, unit) sql"
  sql_select_domains :: "domain_table \<Rightarrow> 'db \<Rightarrow> (sql_error + string) list"
  sql_page_domains :: "domain_table \<Rightarrow> i64 \<Rightarrow> i64 \<Rightarrow> ('db, string list) sql"
  sql_count_domains :: "domain_table \<Rightarrow> ('db, i64) sql"

record ('m, 'r, 'db) cache =
  c_l1 :: 'm
  c_allow :: domain_set
  c_block :: domain_set
  c_rds :: 'r
  c_db :: 'db

section \<open>Answers\<close>

text \<open>\<open>query_key\<close>: the formatted write ignores the error of a full buffer.\<close>

definition KEY_CAPACITY :: nat where "KEY_CAPACITY = 128"

definition query_key :: "('rt, 'x) dns_libs_scheme \<Rightarrow> 'rt query \<Rightarrow> string" where
  "query_key L q =
     fst (fmt_write L KEY_CAPACITY [] [''dns:'', q_name q, '':'', rt_display L (q_type q)])"

definition add_dns_query_moka ::
  "('rt, 'm, 'r, 'db, 'x) cache_libs_scheme \<Rightarrow> nat \<Rightarrow> 'rt query \<Rightarrow> bytes \<Rightarrow> u32 \<Rightarrow>
     ('m, 'r, 'db) cache \<Rightarrow> ('m, 'r, 'db) cache" where
  "add_dns_query_moka L now q response ttl c =
     c\<lparr>c_l1 := moka_insert L ttl_expiry now (query_key L q)
        \<lparr>l1_raw = response, l1_ttl = ttl\<rparr> (c_l1 c)\<rparr>"

definition add_dns_query_redis ::
  "('rt, 'm, 'r, 'db, 'x) cache_libs_scheme \<Rightarrow> nat \<Rightarrow> 'rt query \<Rightarrow> bytes \<Rightarrow> u32 \<Rightarrow>
     ('m, 'r, 'db) cache \<Rightarrow> ('m, 'r, 'db) cache" where
  "add_dns_query_redis L now q response ttl c =
     (if ttl = 0 then c
      else c\<lparr>c_rds := redis_setex L now (query_key L q) ttl response (c_rds c)\<rparr>)"

definition is_blocked ::
  "('rt, 'x) dns_libs_scheme \<Rightarrow> ('m, 'r, 'db) cache \<Rightarrow> string \<Rightarrow> bool" where
  "is_blocked L c name = decide L (c_block c) (c_allow c) name"

definition l1_get ::
  "('rt, 'm, 'r, 'db, 'x) cache_libs_scheme \<Rightarrow> nat \<Rightarrow> 'rt query \<Rightarrow> ('m, 'r, 'db) cache \<Rightarrow>
     bytes option \<times> ('m, 'r, 'db) cache" where
  "l1_get L now q c =
     (case moka_get L ttl_expiry now (query_key L q) (c_l1 c) of
        (e, m) \<Rightarrow> (map_option l1_raw e, c\<lparr>c_l1 := m\<rparr>))"

datatype cache_error = Redis redis_error | Sql sql_error

definition check_and_get ::
  "('rt, 'm, 'r, 'db, 'x) cache_libs_scheme \<Rightarrow> nat \<Rightarrow> 'rt query \<Rightarrow> ('m, 'r, 'db) cache \<Rightarrow>
     (cache_error + bool \<times> bytes option) \<times> ('m, 'r, 'db) cache" where
  "check_and_get L now q c =
     (if is_blocked L c (q_name q) then (Inr (True, None), c)
      else
        (case moka_get L ttl_expiry now (query_key L q) (c_l1 c) of
           (Some e, m) \<Rightarrow> (Inr (False, Some (l1_raw e)), c\<lparr>c_l1 := m\<rparr>)
         | (None, m) \<Rightarrow>
             (if redis_feature L then
                (case redis_get L now (query_key L q) (c_rds c) of
                   (Inl e, r) \<Rightarrow> (Inl (Redis e), c\<lparr>c_l1 := m, c_rds := r\<rparr>)
                 | (Inr res, r) \<Rightarrow> (Inr (False, res), c\<lparr>c_l1 := m, c_rds := r\<rparr>))
              else (Inr (False, None), c\<lparr>c_l1 := m\<rparr>))))"

section \<open>Domain sets\<close>

definition cow_insert :: "domain_set \<Rightarrow> string list \<Rightarrow> domain_set" where
  "cow_insert target domains = fold insert domains target"

function chunks :: "nat \<Rightarrow> 'a list \<Rightarrow> 'a list list" where
  "chunks n xs = (if n = 0 \<or> xs = [] then [] else take n xs # chunks n (drop n xs))"
  by pat_completeness auto
termination
  by (relation "measure (\<lambda>(n, xs). length xs)") auto

declare chunks.simps [simp del]

fun insert_chunks ::
  "(string list \<Rightarrow> ('db, nat) sql) \<Rightarrow> string list list \<Rightarrow> nat \<Rightarrow> ('db, nat) sql" where
  "insert_chunks ins [] n db = (Inr n, db)"
| "insert_chunks ins (chunk # cs) n db =
     (case ins chunk db of
        (Inl e, db') \<Rightarrow> (Inl e, db')
      | (Inr rows, db') \<Rightarrow> insert_chunks ins cs (n + rows) db')"

definition add_block_domains ::
  "('rt, 'm, 'r, 'db, 'x) cache_libs_scheme \<Rightarrow> string \<Rightarrow> string list \<Rightarrow> ('m, 'r, 'db) cache \<Rightarrow>
     (cache_error + add_outcome) \<times> ('m, 'r, 'db) cache" where
  "add_block_domains L list domains c =
     (let valid = normalize_domains L domains in
      if valid = [] then (Inr \<lparr>added = 0, considered = 0\<rparr>, c)
      else
        let c1 = c\<lparr>c_block := cow_insert (c_block c) valid\<rparr> in
        case insert_chunks (sql_insert_blocked L list) (chunks MAX_INSERT_CHUNK valid) 0 (c_db c1) of
          (Inl e, db) \<Rightarrow> (Inl (Sql e), c1\<lparr>c_db := db\<rparr>)
        | (Inr n, db) \<Rightarrow> (Inr \<lparr>added = n, considered = length valid\<rparr>, c1\<lparr>c_db := db\<rparr>))"

definition add_allow_domains ::
  "('rt, 'm, 'r, 'db, 'x) cache_libs_scheme \<Rightarrow> string list \<Rightarrow> ('m, 'r, 'db) cache \<Rightarrow>
     (cache_error + add_outcome) \<times> ('m, 'r, 'db) cache" where
  "add_allow_domains L domains c =
     (let valid = normalize_domains L domains in
      if valid = [] then (Inr \<lparr>added = 0, considered = 0\<rparr>, c)
      else
        let c1 = c\<lparr>c_allow := cow_insert (c_allow c) valid\<rparr> in
        case insert_chunks (sql_insert_allowed L) (chunks MAX_INSERT_CHUNK valid) 0 (c_db c1) of
          (Inl e, db) \<Rightarrow> (Inl (Sql e), c1\<lparr>c_db := db\<rparr>)
        | (Inr n, db) \<Rightarrow> (Inr \<lparr>added = n, considered = length valid\<rparr>, c1\<lparr>c_db := db\<rparr>))"

definition add_block_domain ::
  "('rt, 'm, 'r, 'db, 'x) cache_libs_scheme \<Rightarrow> string \<Rightarrow> string \<Rightarrow> ('m, 'r, 'db) cache \<Rightarrow>
     (cache_error + add_outcome) \<times> ('m, 'r, 'db) cache" where
  "add_block_domain L list domain c = add_block_domains L list [domain] c"

definition add_allow_domain ::
  "('rt, 'm, 'r, 'db, 'x) cache_libs_scheme \<Rightarrow> string \<Rightarrow> ('m, 'r, 'db) cache \<Rightarrow>
     (cache_error + add_outcome) \<times> ('m, 'r, 'db) cache" where
  "add_allow_domain L domain c = add_allow_domains L [domain] c"

definition remove_block_domain ::
  "('rt, 'm, 'r, 'db, 'x) cache_libs_scheme \<Rightarrow> string \<Rightarrow> ('m, 'r, 'db) cache \<Rightarrow>
     (cache_error + bool) \<times> ('m, 'r, 'db) cache" where
  "remove_block_domain L domain c =
     (let lower = to_lowercase L domain;
          removed = (lower \<in> c_block c);
          c1 = c\<lparr>c_block := c_block c - {lower}\<rparr>
      in case sql_delete_blocked L lower (c_db c1) of
           (Inl e, db) \<Rightarrow> (Inl (Sql e), c1\<lparr>c_db := db\<rparr>)
         | (Inr _, db) \<Rightarrow> (Inr removed, c1\<lparr>c_db := db\<rparr>))"

text \<open>\<open>load_set\<close> reads the result stream up to its end or its first error.\<close>

fun load_set :: "(sql_error + string) list \<Rightarrow> domain_set \<Rightarrow> domain_set" where
  "load_set [] local = local"
| "load_set (Inl e # rest) local = local"
| "load_set (Inr domain # rest) local = load_set rest (insert domain local)"

definition read_blocklist_db_memory ::
  "('rt, 'm, 'r, 'db, 'x) cache_libs_scheme \<Rightarrow> ('m, 'r, 'db) cache \<Rightarrow> ('m, 'r, 'db) cache" where
  "read_blocklist_db_memory L c =
     c\<lparr>c_block := load_set (sql_select_domains L Blocked_Table (c_db c)) {}\<rparr>"

definition read_allowlist_db_memory ::
  "('rt, 'm, 'r, 'db, 'x) cache_libs_scheme \<Rightarrow> ('m, 'r, 'db) cache \<Rightarrow> ('m, 'r, 'db) cache" where
  "read_allowlist_db_memory L c =
     c\<lparr>c_allow := load_set (sql_select_domains L Allowed_Table (c_db c)) {}\<rparr>"

definition list_domains ::
  "('rt, 'm, 'r, 'db, 'x) cache_libs_scheme \<Rightarrow> domain_table \<Rightarrow> i64 \<Rightarrow> i64 \<Rightarrow> ('m, 'r, 'db) cache \<Rightarrow>
     (cache_error + string list) \<times> ('m, 'r, 'db) cache" where
  "list_domains L tbl limit offset c =
     (case sql_page_domains L tbl limit offset (c_db c) of
        (Inl e, db) \<Rightarrow> (Inl (Sql e), c\<lparr>c_db := db\<rparr>)
      | (Inr xs, db) \<Rightarrow> (Inr xs, c\<lparr>c_db := db\<rparr>))"

definition count_domains ::
  "('rt, 'm, 'r, 'db, 'x) cache_libs_scheme \<Rightarrow> domain_table \<Rightarrow> ('m, 'r, 'db) cache \<Rightarrow>
     (cache_error + i64) \<times> ('m, 'r, 'db) cache" where
  "count_domains L tbl c =
     (case sql_count_domains L tbl (c_db c) of
        (Inl e, db) \<Rightarrow> (Inl (Sql e), c\<lparr>c_db := db\<rparr>)
      | (Inr n, db) \<Rightarrow> (Inr n, c\<lparr>c_db := db\<rparr>))"

record cache_stats =
  block_list_size :: nat
  allow_list_size :: nat
  l1_entry_count :: u64

definition stats ::
  "('rt, 'm, 'r, 'db, 'x) cache_libs_scheme \<Rightarrow> ('m, 'r, 'db) cache \<Rightarrow> cache_stats" where
  "stats L c = \<lparr>block_list_size = card (c_block c), allow_list_size = card (c_allow c),
     l1_entry_count = moka_entry_count L (c_l1 c)\<rparr>"

section \<open>Keys\<close>

lemma query_key_fits:
  assumes "heapless_law L"
    and "length (q_name q) + length (rt_display L (q_type q)) + 5 \<le> KEY_CAPACITY"
  shows "query_key L q = ''dns:'' @ q_name q @ '':'' @ rt_display L (q_type q)"
  using assms fmt_write_fits [OF assms(1), of "[]" "[''dns:'', q_name q, '':'', rt_display L (q_type q)]"]
  by (simp add: query_key_def)

lemma query_key_length: "heapless_law L \<Longrightarrow> length (query_key L q) \<le> KEY_CAPACITY"
  unfolding query_key_def by (rule fmt_write_length) simp_all

text \<open>A name of 125 bytes or more does not fit after the prefix and is left out altogether.\<close>

lemma query_key_long:
  assumes "heapless_law L" and "KEY_CAPACITY < length (q_name q) + 4"
  shows "query_key L q = ''dns:''"
  using assms(2) by (simp add: query_key_def heapless_writeD [OF assms(1)] KEY_CAPACITY_def)

lemma append_sep_eq:
  assumes "xs @ c # ys = xs' @ c # ys'" and "c \<notin> set ys" and "c \<notin> set ys'"
  shows "xs = xs' \<and> ys = ys'"
proof -
  have "rev ys @ c # rev xs = rev ys' @ c # rev xs'"
    using arg_cong [OF assms(1), of rev] by simp
  moreover have "takeWhile (\<lambda>x. x \<noteq> c) (rev zs @ c # ws) = rev zs" if "c \<notin> set zs" for zs ws
    using that by (subst takeWhile_append2) auto
  ultimately have "rev ys = rev ys'"
    using assms(2,3) by metis
  then show ?thesis using assms(1) by simp
qed

lemma query_key_inj:
  assumes law: "heapless_law L"
    and fits: "length (q_name q) + length (rt_display L (q_type q)) + 5 \<le> KEY_CAPACITY"
      "length (q_name q') + length (rt_display L (q_type q')) + 5 \<le> KEY_CAPACITY"
    and colon: "CHR '':'' \<notin> set (rt_display L (q_type q))" "CHR '':'' \<notin> set (rt_display L (q_type q'))"
    and eq: "query_key L q = query_key L q'"
  shows "q_name q = q_name q' \<and> rt_display L (q_type q) = rt_display L (q_type q')"
  using eq append_sep_eq [OF _ colon]
  by (simp add: query_key_fits [OF law fits(1)] query_key_fits [OF law fits(2)])

end
