(* ===== verification/Cache_Correct.thy ===== *)
theory Cache_Correct
  imports Cache
begin

text \<open>
  Facts about the cache of \<open>repo/cache.rs\<close>: what L1 may return (over any history of
  insertions and lookups), what adding and removing domains does to the sets and to the
  tables, and the agreement of memory and database.
\<close>

section \<open>L1 over its history\<close>

text \<open>
  What moka documents, with \<open>view\<close> reading the entries a state may still return and the
  time each one expires: a lookup returns only a stored entry that has not expired; a lookup
  may drop entries but changes none; an insertion stores the entry until the time the expiry
  policy gives, keeps the other entries as they are, and may evict any entry.
\<close>

definition moka_returns_stored ::
  "('rt, 'm, 'r, 'db, 'x) cache_libs_scheme \<Rightarrow> ('m \<Rightarrow> string \<Rightarrow> (l1_entry \<times> nat) option) \<Rightarrow> bool" where
  "moka_returns_stored L view \<longleftrightarrow>
     (\<forall>x now k m e m'. moka_get L x now k m = (Some e, m') \<longrightarrow>
        (\<exists>t. view m k = Some (e, t) \<and> now < t))"

definition moka_get_keeps ::
  "('rt, 'm, 'r, 'db, 'x) cache_libs_scheme \<Rightarrow> ('m \<Rightarrow> string \<Rightarrow> (l1_entry \<times> nat) option) \<Rightarrow> bool" where
  "moka_get_keeps L view \<longleftrightarrow>
     (\<forall>x now k m k'. view (snd (moka_get L x now k m)) k' \<in> {view m k', None})"

definition moka_insert_keeps ::
  "('rt, 'm, 'r, 'db, 'x) cache_libs_scheme \<Rightarrow> ('m \<Rightarrow> string \<Rightarrow> (l1_entry \<times> nat) option) \<Rightarrow> bool" where
  "moka_insert_keeps L view \<longleftrightarrow>
     (\<forall>x now k e m k'. k' \<noteq> k \<longrightarrow>
        view (moka_insert L x now k e m) k' \<in> {view m k', None})"

definition moka_insert_stores ::
  "('rt, 'm, 'r, 'db, 'x) cache_libs_scheme \<Rightarrow> ('m \<Rightarrow> string \<Rightarrow> (l1_entry \<times> nat) option) \<Rightarrow> bool" where
  "moka_insert_stores L view \<longleftrightarrow>
     (\<forall>x now k e m e' t. view (moka_insert L x now k e m) k = Some (e', t) \<longrightarrow>
        e' = e \<and> (\<forall>d. on_create x k e now = Some d \<and> (\<forall>cur. on_update x k e now cur = Some d)
           \<longrightarrow> t = now + d))"

definition moka_law ::
  "('rt, 'm, 'r, 'db, 'x) cache_libs_scheme \<Rightarrow> ('m \<Rightarrow> string \<Rightarrow> (l1_entry \<times> nat) option) \<Rightarrow> bool" where
  "moka_law L view \<longleftrightarrow> moka_returns_stored L view \<and> moka_get_keeps L view \<and>
     moka_insert_keeps L view \<and> moka_insert_stores L view"

type_synonym l1_history = "(nat \<times> string \<times> l1_entry) list"

definition l1_honest ::
  "('m \<Rightarrow> string \<Rightarrow> (l1_entry \<times> nat) option) \<Rightarrow> l1_history \<Rightarrow> 'm \<Rightarrow> bool" where
  "l1_honest view hist m \<longleftrightarrow>
     (\<forall>k e t. view m k = Some (e, t) \<longrightarrow>
        (\<exists>t0. (t0, k, e) \<in> set hist \<and> t = t0 + secs (unat (l1_ttl e))))"

lemma moka_get_hit:
  assumes "moka_law L view" and "moka_get L x now k m = (Some e, m')"
  obtains t where "view m k = Some (e, t)" and "now < t"
proof -
  from assms(1) have "moka_returns_stored L view" by (simp add: moka_law_def)
  with assms(2) that show ?thesis unfolding moka_returns_stored_def by blast
qed

lemma moka_get_view:
  assumes "moka_law L view" and "moka_get L x now k m = (r, m')" and "view m' k' = Some v"
  shows "view m k' = Some v"
proof -
  from assms(1) have "moka_get_keeps L view" by (simp add: moka_law_def)
  then have "view (snd (moka_get L x now k m)) k' \<in> {view m k', None}"
    unfolding moka_get_keeps_def by simp
  with assms(2,3) show ?thesis by auto
qed

lemma moka_insert_other:
  assumes "moka_law L view" and "k' \<noteq> k" and "view (moka_insert L x now k e m) k' = Some v"
  shows "view m k' = Some v"
proof -
  from assms(1) have "moka_insert_keeps L view" by (simp add: moka_law_def)
  with assms(2) have "view (moka_insert L x now k e m) k' \<in> {view m k', None}"
    unfolding moka_insert_keeps_def by simp
  with assms(3) show ?thesis by auto
qed

lemma moka_insert_same:
  assumes "moka_law L view" and "view (moka_insert L ttl_expiry now k e m) k = Some (e', t)"
  shows "e' = e" and "t = now + secs (unat (l1_ttl e))"
proof -
  from assms(1) have "moka_insert_stores L view" by (simp add: moka_law_def)
  with assms(2) have "e' = e \<and> (\<forall>d. on_create ttl_expiry k e now = Some d \<and>
      (\<forall>cur. on_update ttl_expiry k e now cur = Some d) \<longrightarrow> t = now + d)"
    unfolding moka_insert_stores_def by blast
  then show "e' = e" "t = now + secs (unat (l1_ttl e))"
    by (simp_all add: ttl_expiry_def expire_after_create_def expire_after_update_def)
qed

lemma l1_honest_get:
  assumes "moka_law L view" and "l1_honest view hist m" and "moka_get L x now k m = (r, m')"
  shows "l1_honest view hist m'"
  unfolding l1_honest_def
proof (intro allI impI)
  fix k' e t
  assume "view m' k' = Some (e, t)"
  then have "view m k' = Some (e, t)" by (rule moka_get_view [OF assms(1,3)])
  with assms(2) show "\<exists>t0. (t0, k', e) \<in> set hist \<and> t = t0 + secs (unat (l1_ttl e))"
    by (simp add: l1_honest_def)
qed

lemma l1_honest_insert:
  assumes law: "moka_law L view" and honest: "l1_honest view hist m"
  shows "l1_honest view ((now, k, e) # hist) (moka_insert L ttl_expiry now k e m)"
  unfolding l1_honest_def
proof (intro allI impI)
  fix k' e' t
  assume stored: "view (moka_insert L ttl_expiry now k e m) k' = Some (e', t)"
  show "\<exists>t0. (t0, k', e') \<in> set ((now, k, e) # hist) \<and> t = t0 + secs (unat (l1_ttl e'))"
  proof (cases "k' = k")
    case True
    have "e' = e" "t = now + secs (unat (l1_ttl e))"
      using moka_insert_same [OF law] stored True by blast+
    with True show ?thesis by auto
  next
    case False
    from moka_insert_other [OF law False stored] honest
    obtain t0 where "(t0, k', e') \<in> set hist \<and> t = t0 + secs (unat (l1_ttl e'))"
      unfolding l1_honest_def by blast
    then show ?thesis by auto
  qed
qed

text \<open>
  The steps of the cache that concern L1, with the insertions recorded: storing an answer,
  the two lookups, and anything that leaves L1 alone (the domain lists, Redis, the database).
\<close>

inductive cache_step ::
  "('rt, 'm, 'r, 'db, 'x) cache_libs_scheme \<Rightarrow> l1_history \<times> ('m, 'r, 'db) cache \<Rightarrow>
     l1_history \<times> ('m, 'r, 'db) cache \<Rightarrow> bool" for L where
  store: "cache_step L (h, c)
     ((now, query_key L q, \<lparr>l1_raw = response, l1_ttl = ttl\<rparr>) # h,
      add_dns_query_moka L now q response ttl c)"
| hot_lookup: "cache_step L (h, c) (h, snd (l1_get L now q c))"
| cold_lookup: "cache_step L (h, c) (h, snd (check_and_get L now q c))"
| elsewhere: "c_l1 c' = c_l1 c \<Longrightarrow> cache_step L (h, c) (h, c')"

inductive_cases cache_stepE: "cache_step L (h, c) (h', c')"

definition honest_state ::
  "('rt, 'm, 'r, 'db, 'x) cache_libs_scheme \<Rightarrow> ('m \<Rightarrow> string \<Rightarrow> (l1_entry \<times> nat) option) \<Rightarrow>
     l1_history \<times> ('m, 'r, 'db) cache \<Rightarrow> bool" where
  "honest_state L view s \<longleftrightarrow> moka_law L view \<and> l1_honest view (fst s) (c_l1 (snd s))"

lemma check_and_get_l1:
  "c_l1 (snd (check_and_get L now q c)) = c_l1 c \<or>
   (\<exists>r. moka_get L ttl_expiry now (query_key L q) (c_l1 c) = (r, c_l1 (snd (check_and_get L now q c))))"
  by (auto simp: check_and_get_def split: prod.splits option.splits sum.splits)

lemma l1_get_l1:
  "\<exists>r. moka_get L ttl_expiry now (query_key L q) (c_l1 c) = (r, c_l1 (snd (l1_get L now q c)))"
  by (auto simp: l1_get_def split: prod.splits)

lemma cache_step_honest:
  assumes "cache_step L s t" and "honest_state L view s"
  shows "honest_state L view t"
  using assms
proof (cases rule: cache_step.cases)
  case (store h c now q response ttl)
  with assms(2) show ?thesis
    by (simp add: honest_state_def add_dns_query_moka_def l1_honest_insert)
next
  case (hot_lookup h c now q)
  with assms(2) l1_get_l1 [of L now q c] show ?thesis
    by (auto simp: honest_state_def intro: l1_honest_get)
next
  case (cold_lookup h c now q)
  with assms(2) check_and_get_l1 [of L now q c] show ?thesis
    by (auto simp: honest_state_def intro: l1_honest_get)
next
  case (elsewhere c' c h)
  with assms(2) show ?thesis by (simp add: honest_state_def)
qed

interpretation l1: step_invariant "cache_step L" "honest_state L view"
  for L :: "('rt, 'm, 'r, 'db, 'x) cache_libs_scheme" and view
  by unfold_locales (rule cache_step_honest)

lemma l1_get_fresh:
  assumes "honest_state L view (h, c)" and "l1_get L now q c = (Some raw, c')"
  shows "\<exists>t0 e. (t0, query_key L q, e) \<in> set h \<and> raw = l1_raw e \<and> now < t0 + secs (unat (l1_ttl e))"
proof -
  from assms(2) obtain e m where get: "moka_get L ttl_expiry now (query_key L q) (c_l1 c) = (Some e, m)"
    and raw: "raw = l1_raw e"
    by (auto simp: l1_get_def split: prod.splits)
  from assms(1) have law: "moka_law L view" and honest: "l1_honest view h (c_l1 c)"
    by (simp_all add: honest_state_def)
  from moka_get_hit [OF law get] obtain t where "view (c_l1 c) (query_key L q) = Some (e, t)" "now < t" .
  moreover from this(1) honest obtain t0 where
    "(t0, query_key L q, e) \<in> set h" "t = t0 + secs (unat (l1_ttl e))"
    unfolding l1_honest_def by blast
  ultimately show ?thesis using raw by auto
qed

section \<open>Chunks and sets\<close>

lemma chunks_Nil [simp]: "chunks n [] = []"
  by (subst chunks.simps) simp

lemma concat_chunks: "0 < n \<Longrightarrow> concat (chunks n xs) = xs"
  by (induction n xs rule: chunks.induct) (subst chunks.simps, auto)

lemma chunks_size: "ch \<in> set (chunks n xs) \<Longrightarrow> ch \<noteq> [] \<and> length ch \<le> n"
proof (induction n xs rule: chunks.induct)
  case (1 n xs)
  then show ?case
    by (subst (asm) chunks.simps) (auto split: if_splits)
qed

lemma cow_insert_set [simp]: "cow_insert D ds = D \<union> set ds"
  unfolding cow_insert_def by (induction ds arbitrary: D) auto

section \<open>The tables\<close>

text \<open>
  What the statements do, with \<open>rows\<close> reading the set of domains in a table: an insertion
  with \<open>ON CONFLICT DO NOTHING\<close> that succeeds adds the rows that are not there and counts
  them; a deletion that succeeds removes the row; the other table is left alone.
\<close>

definition sql_law ::
  "('rt, 'm, 'r, 'db, 'x) cache_libs_scheme \<Rightarrow> (domain_table \<Rightarrow> 'db \<Rightarrow> domain_set) \<Rightarrow> bool" where
  "sql_law L rows \<longleftrightarrow>
     (\<forall>list ds db n db'. sql_insert_blocked L list ds db = (Inr n, db') \<longrightarrow>
        n = card (set ds - rows Blocked_Table db) \<and>
        rows Blocked_Table db' = rows Blocked_Table db \<union> set ds \<and>
        rows Allowed_Table db' = rows Allowed_Table db) \<and>
     (\<forall>ds db n db'. sql_insert_allowed L ds db = (Inr n, db') \<longrightarrow>
        n = card (set ds - rows Allowed_Table db) \<and>
        rows Allowed_Table db' = rows Allowed_Table db \<union> set ds \<and>
        rows Blocked_Table db' = rows Blocked_Table db) \<and>
     (\<forall>d db u db'. sql_delete_blocked L d db = (Inr u, db') \<longrightarrow>
        rows Blocked_Table db' = rows Blocked_Table db - {d} \<and>
        rows Allowed_Table db' = rows Allowed_Table db) \<and>
     (\<forall>tbl db ds. sql_select_domains L tbl db = map Inr ds \<longrightarrow> set ds = rows tbl db)"

lemma sql_lawD:
  assumes "sql_law L rows"
  shows "sql_insert_blocked L list ds db = (Inr n, db') \<Longrightarrow>
        n = card (set ds - rows Blocked_Table db) \<and>
        rows Blocked_Table db' = rows Blocked_Table db \<union> set ds \<and>
        rows Allowed_Table db' = rows Allowed_Table db"
    and "sql_insert_allowed L ds db = (Inr n, db') \<Longrightarrow>
        n = card (set ds - rows Allowed_Table db) \<and>
        rows Allowed_Table db' = rows Allowed_Table db \<union> set ds \<and>
        rows Blocked_Table db' = rows Blocked_Table db"
    and "sql_delete_blocked L d db = (Inr u, db') \<Longrightarrow>
        rows Blocked_Table db' = rows Blocked_Table db - {d} \<and>
        rows Allowed_Table db' = rows Allowed_Table db"
    and "sql_select_domains L tbl db = map Inr dl \<Longrightarrow> set dl = rows tbl db"
  using assms unfolding sql_law_def by simp_all

text \<open>Inserting in chunks counts and adds what one insertion of the whole list would.\<close>

lemma insert_chunks_total:
  assumes ins: "\<And>ds db n db'. ins ds db = (Inr n, db') \<Longrightarrow>
      n = card (set ds - rows db) \<and> rows db' = rows db \<union> set ds \<and> other db' = other db"
    and run: "insert_chunks ins cs acc db = (Inr n, db')"
  shows "n = acc + card (set (concat cs) - rows db) \<and>
    rows db' = rows db \<union> set (concat cs) \<and> other db' = other db"
  using run
proof (induction cs arbitrary: acc db)
  case Nil
  then show ?case by simp
next
  case (Cons ch cs)
  from Cons.prems obtain k db1 where step: "ins ch db = (Inr k, db1)"
    and rest: "insert_chunks ins cs (acc + k) db1 = (Inr n, db')"
    by (auto split: prod.splits sum.splits)
  have "set (concat (ch # cs)) - rows db =
      (set ch - rows db) \<union> (set (concat cs) - (rows db \<union> set ch))"
    by auto
  then have "card (set (concat (ch # cs)) - rows db) =
      card (set ch - rows db) + card (set (concat cs) - (rows db \<union> set ch))"
    by (simp only:) (rule card_Un_disjoint; auto)
  with ins [OF step] Cons.IH [OF rest] show ?case by auto
qed

lemma length_distinct_bound: "card (set xs - D) \<le> length xs"
  by (meson Diff_subset card_length card_mono finite_set le_trans)

section \<open>Adding and removing domains\<close>

lemma add_block_domains_memory [simp]:
  "c_block (snd (add_block_domains L list ds c)) = c_block c \<union> set (normalize_domains L ds)"
  "c_allow (snd (add_block_domains L list ds c)) = c_allow c"
  "c_l1 (snd (add_block_domains L list ds c)) = c_l1 c"
  by (auto simp: add_block_domains_def Let_def split: prod.splits sum.splits)

lemma add_allow_domains_memory [simp]:
  "c_allow (snd (add_allow_domains L ds c)) = c_allow c \<union> set (normalize_domains L ds)"
  "c_block (snd (add_allow_domains L ds c)) = c_block c"
  "c_l1 (snd (add_allow_domains L ds c)) = c_l1 c"
  by (auto simp: add_allow_domains_def Let_def split: prod.splits sum.splits)

lemma remove_block_domain_memory [simp]:
  "c_block (snd (remove_block_domain L d c)) = c_block c - {to_lowercase L d}"
  "c_allow (snd (remove_block_domain L d c)) = c_allow c"
  "c_l1 (snd (remove_block_domain L d c)) = c_l1 c"
  by (auto simp: remove_block_domain_def Let_def split: prod.splits sum.splits)

lemma add_block_domains_Ok:
  assumes law: "sql_law L rows" and run: "add_block_domains L list ds c = (Inr out, c')"
  shows "added out = card (set (normalize_domains L ds) - rows Blocked_Table (c_db c))"
    and "considered out = length (normalize_domains L ds)"
    and "rows Blocked_Table (c_db c') = rows Blocked_Table (c_db c) \<union> set (normalize_domains L ds)"
    and "rows Allowed_Table (c_db c') = rows Allowed_Table (c_db c)"
proof -
  let ?valid = "normalize_domains L ds"
  have "added out = card (set ?valid - rows Blocked_Table (c_db c)) \<and>
    considered out = length ?valid \<and>
    rows Blocked_Table (c_db c') = rows Blocked_Table (c_db c) \<union> set ?valid \<and>
    rows Allowed_Table (c_db c') = rows Allowed_Table (c_db c)"
  proof (cases "?valid = []")
    case True
    with run show ?thesis by (auto simp: add_block_domains_def)
  next
    case False
    with run obtain n db where
      ins: "insert_chunks (sql_insert_blocked L list) (chunks MAX_INSERT_CHUNK ?valid) 0 (c_db c) = (Inr n, db)"
      and out: "out = \<lparr>added = n, considered = length ?valid\<rparr>" and c': "c_db c' = db"
      by (auto simp: add_block_domains_def Let_def split: prod.splits sum.splits)
    have "concat (chunks MAX_INSERT_CHUNK ?valid) = ?valid"
      by (rule concat_chunks) (simp add: MAX_INSERT_CHUNK_def)
    with insert_chunks_total [where rows = "rows Blocked_Table" and other = "rows Allowed_Table",
        OF sql_lawD(1) [OF law, of list] ins] show ?thesis
      by (simp add: out c')
  qed
  then show "added out = card (set (normalize_domains L ds) - rows Blocked_Table (c_db c))"
    and "considered out = length (normalize_domains L ds)"
    and "rows Blocked_Table (c_db c') = rows Blocked_Table (c_db c) \<union> set (normalize_domains L ds)"
    and "rows Allowed_Table (c_db c') = rows Allowed_Table (c_db c)"
    by simp_all
qed

lemma add_allow_domains_Ok:
  assumes law: "sql_law L rows" and run: "add_allow_domains L ds c = (Inr out, c')"
  shows "added out = card (set (normalize_domains L ds) - rows Allowed_Table (c_db c)) \<and>
    considered out = length (normalize_domains L ds) \<and>
    rows Allowed_Table (c_db c') = rows Allowed_Table (c_db c) \<union> set (normalize_domains L ds) \<and>
    rows Blocked_Table (c_db c') = rows Blocked_Table (c_db c)"
proof -
  let ?valid = "normalize_domains L ds"
  show ?thesis
  proof (cases "?valid = []")
    case True
    with run show ?thesis by (auto simp: add_allow_domains_def)
  next
    case False
    with run obtain n db where
      ins: "insert_chunks (sql_insert_allowed L) (chunks MAX_INSERT_CHUNK ?valid) 0 (c_db c) = (Inr n, db)"
      and out: "out = \<lparr>added = n, considered = length ?valid\<rparr>" and c': "c_db c' = db"
      by (auto simp: add_allow_domains_def Let_def split: prod.splits sum.splits)
    have "concat (chunks MAX_INSERT_CHUNK ?valid) = ?valid"
      by (rule concat_chunks) (simp add: MAX_INSERT_CHUNK_def)
    with insert_chunks_total [where rows = "rows Allowed_Table" and other = "rows Blocked_Table",
        OF sql_lawD(2) [OF law] ins] show ?thesis
      by (simp add: out c')
  qed
qed

lemma remove_block_domain_Ok:
  assumes law: "sql_law L rows" and run: "remove_block_domain L d c = (Inr removed, c')"
  shows "removed \<longleftrightarrow> to_lowercase L d \<in> c_block c"
    and "rows Blocked_Table (c_db c') = rows Blocked_Table (c_db c) - {to_lowercase L d}"
    and "rows Allowed_Table (c_db c') = rows Allowed_Table (c_db c)"
proof -
  from run obtain db where del: "sql_delete_blocked L (to_lowercase L d) (c_db c) = (Inr (), db)"
    and r: "removed = (to_lowercase L d \<in> c_block c)" and c': "c_db c' = db"
    by (auto simp: remove_block_domain_def Let_def split: prod.splits sum.splits)
  from r show "removed \<longleftrightarrow> to_lowercase L d \<in> c_block c" by simp
  from sql_lawD(3) [OF law del] show "rows Blocked_Table (c_db c') = rows Blocked_Table (c_db c) - {to_lowercase L d}"
    and "rows Allowed_Table (c_db c') = rows Allowed_Table (c_db c)"
    by (simp_all add: c')
qed

text \<open>
  Adding to a store of domains and reading it back, whichever list it is: the interface the
  management API uses. The allow and the block list are two instances.
\<close>

locale domain_store =
  fixes norm :: "string list \<Rightarrow> domain_set"
    and add :: "string list \<Rightarrow> 's \<Rightarrow> 's"
    and listed :: "'s \<Rightarrow> domain_set"
    and rest :: "'s \<Rightarrow> 'f"
  assumes listed_add: "listed (add ds s) = listed s \<union> norm ds"
    and rest_add: "rest (add ds s) = rest s"
begin

lemma add_keeps: "d \<in> listed s \<Longrightarrow> d \<in> listed (add ds s)"
  by (simp add: listed_add)

lemma add_again: "listed (add ds (add ds s)) = listed (add ds s)"
  by (auto simp: listed_add)

lemma add_commute: "listed (add ds (add es s)) = listed (add es (add ds s))"
  by (auto simp: listed_add)

lemma listed_fold: "listed (fold add dss s) = listed s \<union> (\<Union>ds \<in> set dss. norm ds)"
  by (induction dss arbitrary: s) (auto simp: listed_add)

lemma rest_fold: "rest (fold add dss s) = rest s"
  by (induction dss arbitrary: s) (auto simp: rest_add)

end

locale removable_store = domain_store norm add listed rest
  for norm :: "string list \<Rightarrow> domain_set" and add :: "string list \<Rightarrow> 's \<Rightarrow> 's"
    and listed :: "'s \<Rightarrow> domain_set" and rest :: "'s \<Rightarrow> 'f" +
  fixes canon :: "string \<Rightarrow> string" and remove :: "string \<Rightarrow> 's \<Rightarrow> 's"
  assumes listed_remove: "listed (remove d s) = listed s - {canon d}"
    and rest_remove: "rest (remove d s) = rest s"
begin

lemma remove_removes: "canon d \<notin> listed (remove d s)"
  by (simp add: listed_remove)

lemma remove_after_add: "norm [d] = {canon d} \<Longrightarrow> listed (remove d (add [d] s)) = listed s - {canon d}"
  by (auto simp: listed_remove listed_add)

end

interpretation blockstore: removable_store "\<lambda>ds. set (normalize_domains L ds)"
    "\<lambda>ds c. snd (add_block_domains L list ds c)" c_block "\<lambda>c. (c_allow c, c_l1 c)"
    "to_lowercase L" "\<lambda>d c. snd (remove_block_domain L d c)"
  for L :: "('rt, 'm, 'r, 'db, 'x) cache_libs_scheme" and list
  by unfold_locales simp_all

interpretation allowstore: domain_store "\<lambda>ds. set (normalize_domains L ds)"
    "\<lambda>ds c. snd (add_allow_domains L ds c)" c_allow "\<lambda>c. (c_block c, c_l1 c)"
  for L :: "('rt, 'm, 'r, 'db, 'x) cache_libs_scheme"
  by unfold_locales simp_all

section \<open>Memory and database\<close>

definition memory_matches_db ::
  "(domain_table \<Rightarrow> 'db \<Rightarrow> domain_set) \<Rightarrow> ('m, 'r, 'db) cache \<Rightarrow> bool" where
  "memory_matches_db rows c \<longleftrightarrow>
     c_block c = rows Blocked_Table (c_db c) \<and> c_allow c = rows Allowed_Table (c_db c)"

text \<open>The management operations that report success.\<close>

inductive admin_step ::
  "('rt, 'm, 'r, 'db, 'x) cache_libs_scheme \<Rightarrow> ('m, 'r, 'db) cache \<Rightarrow> ('m, 'r, 'db) cache \<Rightarrow> bool"
  for L where
  block: "add_block_domains L list ds c = (Inr out, c') \<Longrightarrow> admin_step L c c'"
| allow: "add_allow_domains L ds c = (Inr out, c') \<Longrightarrow> admin_step L c c'"
| unblock: "remove_block_domain L d c = (Inr removed, c') \<Longrightarrow> admin_step L c c'"

definition consistent_cache ::
  "('rt, 'm, 'r, 'db, 'x) cache_libs_scheme \<Rightarrow> (domain_table \<Rightarrow> 'db \<Rightarrow> domain_set) \<Rightarrow>
     ('m, 'r, 'db) cache \<Rightarrow> bool" where
  "consistent_cache L rows c \<longleftrightarrow> sql_law L rows \<and> memory_matches_db rows c"

lemma admin_step_consistent:
  assumes "admin_step L c c'" and "consistent_cache L rows c"
  shows "consistent_cache L rows c'"
proof -
  from assms(2) have law: "sql_law L rows"
    and mem: "c_block c = rows Blocked_Table (c_db c)" "c_allow c = rows Allowed_Table (c_db c)"
    by (simp_all add: consistent_cache_def memory_matches_db_def)
  from assms(1) have "memory_matches_db rows c'"
  proof cases
    case (block list ds out)
    with add_block_domains_memory [of L list ds c] add_block_domains_Ok(3,4) [OF law block] mem
    show ?thesis by (simp add: memory_matches_db_def)
  next
    case (allow ds out)
    with add_allow_domains_memory [of L ds c] add_allow_domains_Ok [OF law allow] mem
    show ?thesis by (simp add: memory_matches_db_def)
  next
    case (unblock d removed)
    with remove_block_domain_memory [of L d c] remove_block_domain_Ok(2,3) [OF law unblock] mem
    show ?thesis by (simp add: memory_matches_db_def)
  qed
  with law show ?thesis by (simp add: consistent_cache_def)
qed

interpretation admin: step_invariant "admin_step L" "consistent_cache L rows"
  for L :: "('rt, 'm, 'r, 'db, 'x) cache_libs_scheme" and rows
  by unfold_locales (rule admin_step_consistent)

lemma load_set_Inr: "load_set (map Inr ds) D = D \<union> set ds"
  by (induction ds arbitrary: D) auto

text \<open>A start that reads both tables without an error finds what memory held.\<close>

lemma reload_consistent:
  assumes "consistent_cache L rows c"
    and "sql_select_domains L Blocked_Table (c_db c) = map Inr bs"
    and "sql_select_domains L Allowed_Table (c_db c) = map Inr as"
  shows "read_allowlist_db_memory L (read_blocklist_db_memory L (c\<lparr>c_block := {}, c_allow := {}\<rparr>)) = c"
proof -
  from assms(1) have law: "sql_law L rows" and mem: "memory_matches_db rows c"
    by (simp_all add: consistent_cache_def)
  have "set bs = c_block c" "set as = c_allow c"
    using sql_lawD(4) [OF law assms(2)] sql_lawD(4) [OF law assms(3)] mem
    by (simp_all add: memory_matches_db_def)
  with assms(2,3) show ?thesis
    by (simp add: read_allowlist_db_memory_def read_blocklist_db_memory_def load_set_Inr)
qed

section \<open>The form of the listed domains\<close>

definition normal_lists :: "('m, 'r, 'db) cache \<Rightarrow> bool" where
  "normal_lists c \<longleftrightarrow> (\<forall>d \<in> c_block c \<union> c_allow c. normal_domain d)"

lemma normal_lists_ops:
  assumes "lowercase_law L" and "normal_lists c"
  shows "normal_lists (snd (add_block_domains L list ds c))"
    and "normal_lists (snd (add_allow_domains L ds c))"
    and "normal_lists (snd (remove_block_domain L d c))"
  using assms by (auto simp: normal_lists_def normalize_domains_normal)

end
