(* ===== verification/Handler.thy ===== *)
theory Handler
  imports Upstream Cache_Correct
begin

text \<open>
  \<open>QueryHandler\<close> of \<open>backend/src/handler/query.rs\<close>: one query from packet to reply, through
  the blocklist, the caches and the upstream pool. The state is the cache, the socket queue
  and the sequence of events handed to the analytics producer. What the surroundings
  contribute to one request (the clock readings and the network) is a record of its own.
\<close>

section \<open>Data\<close>

record dns_query_event =
  ev_timestamp_ms :: u64
  ev_domain :: string
  ev_query_type :: u16
  ev_response_code :: u16
  ev_cache_hit :: bool
  ev_blocked :: bool
  ev_latency_us :: u64

datatype handler_error =
    H_Parser parse_error
  | H_Cache cache_error
  | H_Upstream upstream_error

record served =
  sv_raw :: bytes
  sv_response_code :: u16
  sv_cache_hit :: bool
  sv_blocked :: bool
  sv_latency_us :: u64

record 'sock request =
  rq_lookup :: nat
  rq_store :: nat
  rq_timestamp_ms :: u64
  rq_latency_us :: u64
  rq_net :: "nat \<Rightarrow> 'sock attempt"

record ('m, 'r, 'db, 'q) world =
  w_cache :: "('m, 'r, 'db) cache"
  w_sockets :: 'q
  w_events :: "dns_query_event list"

section \<open>Operations\<close>

definition cache_ttl :: "runtime_config \<Rightarrow> bytes \<Rightarrow> nat \<Rightarrow> u32 option" where
  "cache_ttl cfg raw answer_offset =
     (case slice_get raw 3 of
        None \<Rightarrow> None
      | Some b \<Rightarrow>
          (let rcode = b AND 0x0F;
               ancount = (if 8 \<le> length raw then u16_from_be_bytes (raw ! 6) (raw ! 7) else 0)
           in if rcode = 0 \<and> 0 < ancount then Some (clamped cfg (parse_ttl raw answer_offset))
              else if rcode = 0 \<or> rcode = 3 then Some (clamped cfg (neg_ttl cfg))
              else None))"

definition serve ::
  "('rt, 'm, 'r, 'db, 'x) cache_libs_scheme \<Rightarrow> ('sock, 'q) queue_libs \<Rightarrow> runtime_config \<Rightarrow>
     'sock request \<Rightarrow> 'rt query \<Rightarrow> ('m, 'r, 'db, 'q) world \<Rightarrow>
     (handler_error + served) \<times> ('m, 'r, 'db, 'q) world" where
  "serve L Q cfg rq q w =
     (case check_and_get L (rq_lookup rq) q (w_cache w) of
        (Inl e, c) \<Rightarrow> (Inl (H_Cache e), w\<lparr>w_cache := c\<rparr>)
      | (Inr (True, _), c) \<Rightarrow>
          (let response = blocked L q (blocking_mode cfg) in
           (Inr \<lparr>sv_raw = resp_raw response,
                 sv_response_code = rc_to_u16 L (resp_code response),
                 sv_cache_hit = False, sv_blocked = True,
                 sv_latency_us = rq_latency_us rq\<rparr>,
            w\<lparr>w_cache := c\<rparr>))
      | (Inr (False, Some hit), c) \<Rightarrow>
          (let c' = (case cache_ttl cfg hit (q_answer_offset q) of
                       Some ttl \<Rightarrow> add_dns_query_moka L (rq_store rq) q hit ttl c
                     | None \<Rightarrow> c);
               response = cached q hit in
           (Inr \<lparr>sv_raw = resp_raw response,
                 sv_response_code = rc_to_u16 L (resp_code response),
                 sv_cache_hit = True, sv_blocked = False,
                 sv_latency_us = rq_latency_us rq\<rparr>,
            w\<lparr>w_cache := c'\<rparr>))
      | (Inr (False, None), c) \<Rightarrow>
          (case resolve Q cfg q (rq_net rq) (w_sockets w) of
             (Inl e, s) \<Rightarrow> (Inl (H_Upstream e), w\<lparr>w_cache := c, w_sockets := s\<rparr>)
           | (Inr res, s) \<Rightarrow>
               (let c' = (case cache_ttl cfg (resp_raw res) (q_answer_offset q) of
                            Some ttl \<Rightarrow>
                              (let c1 = add_dns_query_moka L (rq_store rq) q (resp_raw res) ttl c in
                               if redis_feature L
                               then add_dns_query_redis L (rq_store rq) q (resp_raw res) ttl c1
                               else c1)
                          | None \<Rightarrow> c) in
                (Inr \<lparr>sv_raw = resp_raw res,
                      sv_response_code = rc_to_u16 L (resp_code res),
                      sv_cache_hit = False, sv_blocked = False,
                      sv_latency_us = rq_latency_us rq\<rparr>,
                 w\<lparr>w_cache := c', w_sockets := s\<rparr>))))"

definition event_of ::
  "('rt, 'x) dns_libs_scheme \<Rightarrow> 'sock request \<Rightarrow> 'rt query \<Rightarrow> served \<Rightarrow> dns_query_event" where
  "event_of L rq q sv =
     \<lparr>ev_timestamp_ms = rq_timestamp_ms rq, ev_domain = q_name q,
      ev_query_type = rt_to_u16 L (q_type q), ev_response_code = sv_response_code sv,
      ev_cache_hit = sv_cache_hit sv, ev_blocked = sv_blocked sv,
      ev_latency_us = sv_latency_us sv\<rparr>"

definition handle_parsed ::
  "('rt, 'm, 'r, 'db, 'x) cache_libs_scheme \<Rightarrow> ('sock, 'q) queue_libs \<Rightarrow> runtime_config \<Rightarrow>
     'sock request \<Rightarrow> 'rt query \<Rightarrow> ('m, 'r, 'db, 'q) world \<Rightarrow>
     (handler_error + bytes) \<times> ('m, 'r, 'db, 'q) world" where
  "handle_parsed L Q cfg rq q w =
     (case serve L Q cfg rq q w of
        (Inl e, w') \<Rightarrow> (Inl e, w')
      | (Inr sv, w') \<Rightarrow> (Inr (sv_raw sv), w'\<lparr>w_events := w_events w' @ [event_of L rq q sv]\<rparr>))"

definition handle ::
  "('rt, 'm, 'r, 'db, 'x) cache_libs_scheme \<Rightarrow> ('sock, 'q) queue_libs \<Rightarrow> runtime_config \<Rightarrow>
     'sock request \<Rightarrow> bytes \<Rightarrow> ('m, 'r, 'db, 'q) world \<Rightarrow>
     (handler_error + bytes) \<times> ('m, 'r, 'db, 'q) world" where
  "handle L Q cfg rq data w =
     (case parse_udp L data of
        Inl e \<Rightarrow> (Inl (H_Parser e), w)
      | Inr q \<Rightarrow> handle_parsed L Q cfg rq q w)"

section \<open>Which answers are cached, and for how long\<close>

lemma cache_ttl_bounds:
  "cache_ttl cfg raw off = Some ttl \<Longrightarrow>
     cache_min_ttl cfg \<le> ttl \<and> ttl \<le> max (cache_max_ttl cfg) (cache_min_ttl cfg)"
  by (auto simp: cache_ttl_def Let_def clamped_lower clamped_upper split: option.splits if_splits)

lemma cache_ttl_None_iff:
  "cache_ttl cfg raw off = None \<longleftrightarrow> length raw < 4 \<or> rcode_from_raw raw \<notin> {NoError, NXDomain}"
proof (cases "length raw < 4")
  case True
  then show ?thesis by (simp add: cache_ttl_def)
next
  case False
  then have get: "slice_get raw 3 = Some (raw ! 3)" by simp
  obtain n where n: "n = raw ! 3 AND 0x0F" by blast
  have "cache_ttl cfg raw off = None \<longleftrightarrow> n \<noteq> 0 \<and> n \<noteq> 3"
    unfolding cache_ttl_def get Let_def option.case n [symmetric] by simp
  moreover have "rcode_from_raw raw \<notin> {NoError, NXDomain} \<longleftrightarrow> n \<noteq> 0 \<and> n \<noteq> 3"
    unfolding rcode_from_raw_def get Let_def option.case n [symmetric] by simp
  ultimately show ?thesis using False by simp
qed

lemma cache_ttl_length: "cache_ttl cfg raw off = Some ttl \<Longrightarrow> 4 \<le> length raw"
  by (rule ccontr) (simp add: cache_ttl_def not_le)

text \<open>A cached packet is judged by the same TTL as the packet it was stored from.\<close>

lemma rcode_from_raw_drop2:
  assumes "drop 2 a = drop 2 b" and "length a = length b"
  shows "rcode_from_raw a = rcode_from_raw b"
proof (cases "4 \<le> length b")
  case True
  have "a ! 3 = drop 2 a ! 1" "b ! 3 = drop 2 b ! 1"
    using True assms(2) by simp_all
  with assms(1) have "a ! 3 = b ! 3" by (simp only:)
  with assms(2) show ?thesis by (simp add: rcode_from_raw_def slice_get_def)
next
  case False
  with assms show ?thesis by (simp add: rcode_from_raw_def)
qed

section \<open>The four ways a query is served\<close>

lemma check_and_get_blocked:
  "check_and_get L now q c = (Inr (True, x), c') \<longleftrightarrow> is_blocked L c (q_name q) \<and> x = None \<and> c' = c"
  by (auto simp: check_and_get_def split: prod.splits option.splits sum.splits)

lemma check_and_get_pass:
  "check_and_get L now q c = (Inr (False, x), c') \<Longrightarrow> \<not> is_blocked L c (q_name q)"
  by (auto simp: check_and_get_def split: if_splits)

lemma serve_InrE:
  assumes "serve L Q cfg rq q w = (Inr sv, w')"
  obtains (blocked_name) "is_blocked L (w_cache w) (q_name q)" "w' = w"
      "sv = \<lparr>sv_raw = resp_raw (blocked L q (blocking_mode cfg)),
         sv_response_code = rc_to_u16 L (resp_code (blocked L q (blocking_mode cfg))),
         sv_cache_hit = False, sv_blocked = True, sv_latency_us = rq_latency_us rq\<rparr>"
  | (from_cache) hit c where "\<not> is_blocked L (w_cache w) (q_name q)"
      "check_and_get L (rq_lookup rq) q (w_cache w) = (Inr (False, Some hit), c)"
      "w' = w\<lparr>w_cache := (case cache_ttl cfg hit (q_answer_offset q) of
           Some ttl \<Rightarrow> add_dns_query_moka L (rq_store rq) q hit ttl c | None \<Rightarrow> c)\<rparr>"
      "sv = \<lparr>sv_raw = resp_raw (cached q hit),
         sv_response_code = rc_to_u16 L (rcode_from_raw hit),
         sv_cache_hit = True, sv_blocked = False, sv_latency_us = rq_latency_us rq\<rparr>"
  | (from_upstream) res c s where "\<not> is_blocked L (w_cache w) (q_name q)"
      "check_and_get L (rq_lookup rq) q (w_cache w) = (Inr (False, None), c)"
      "resolve Q cfg q (rq_net rq) (w_sockets w) = (Inr res, s)"
      "w' = w\<lparr>w_cache := (case cache_ttl cfg (resp_raw res) (q_answer_offset q) of
           Some ttl \<Rightarrow>
             (let c1 = add_dns_query_moka L (rq_store rq) q (resp_raw res) ttl c in
              if redis_feature L then add_dns_query_redis L (rq_store rq) q (resp_raw res) ttl c1 else c1)
         | None \<Rightarrow> c), w_sockets := s\<rparr>"
      "sv = \<lparr>sv_raw = resp_raw res, sv_response_code = rc_to_u16 L (resp_code res),
         sv_cache_hit = False, sv_blocked = False, sv_latency_us = rq_latency_us rq\<rparr>"
proof -
  obtain r c where cg: "check_and_get L (rq_lookup rq) q (w_cache w) = (r, c)" by fastforce
  from assms cg obtain b x where r: "r = Inr (b, x)"
    by (cases r) (auto simp: serve_def)
  show thesis
  proof (cases b)
    case True
    with cg r have "is_blocked L (w_cache w) (q_name q)" "c = w_cache w"
      by (simp_all add: check_and_get_blocked)
    with assms cg r True show thesis
      by (intro blocked_name) (simp_all add: serve_def Let_def)
  next
    case b: False
    with cg r have pass: "\<not> is_blocked L (w_cache w) (q_name q)"
      by (auto dest: check_and_get_pass)
    show thesis
    proof (cases x)
      case (Some hit)
      with assms cg r b pass show thesis
        by (intro from_cache [of hit c]) (simp_all add: serve_def Let_def cached_code)
    next
      case None
      with assms cg r b obtain res s where
        "resolve Q cfg q (rq_net rq) (w_sockets w) = (Inr res, s)"
        by (auto simp: serve_def Let_def split: prod.splits sum.splits)
      with assms cg r b None pass show thesis
        by (intro from_upstream [of c res s]) (simp_all add: serve_def Let_def)
    qed
  qed
qed

lemma handle_parsed_InrE:
  assumes "handle_parsed L Q cfg rq q w = (Inr reply, w')"
  obtains sv w1 where "serve L Q cfg rq q w = (Inr sv, w1)" "reply = sv_raw sv"
    "w' = w1\<lparr>w_events := w_events w1 @ [event_of L rq q sv]\<rparr>"
  using assms by (auto simp: handle_parsed_def split: prod.splits sum.splits)

end
