(* ===== verification/Handler_Correct.thy ===== *)
theory Handler_Correct
  imports Handler
begin

text \<open>
  Facts about \<open>handler/query.rs\<close>: what every reply satisfies, what a blocked name may and may
  not cause, which upstream answers are stored, and when a repeated query is answered from
  the cache. \<open>reply_service\<close> is the interface the UDP and TCP front ends use.
\<close>

section \<open>Replies made for blocked names\<close>

lemma resp_code_blocked:
  assumes "query_ok q"
  shows "rcode_from_raw (resp_raw (blocked L q mode)) = resp_code (blocked L q mode)"
proof -
  have "resp_code (nxdomain q) = NXDomain" "resp_code (refused q) = RC_Refused"
    "resp_code (zero_ip q ip) = NoError" for ip
    using length_question_of [OF assms] by (simp_all add: nxdomain_def refused_def zero_ip_def Let_def)
  then show ?thesis
    using nx.rcode [OF assms] rf.rcode [OF assms] zip.rcode [OF assms]
    by (simp add: blocked_def split: blocking_mode.split option.split)
qed

lemma blocked_txid:
  assumes "query_ok q"
  shows "txid_matches (q_raw q) (resp_raw (blocked L q mode))"
  using nx.echoes_txid [OF assms] rf.echoes_txid [OF assms] zip.echoes_txid [OF assms]
  by (simp add: blocked_def split: blocking_mode.split option.split)

lemma blocked_length:
  assumes "query_ok q"
  shows "length (resp_raw (blocked L q mode)) \<le> RECV_BUF"
proof -
  have "length (question_of q) \<le> q_answer_offset q"
    by (simp add: question_of_def)
  with assms length_blocked [OF assms, of L mode] show ?thesis
    by (simp add: query_ok_def parser_limits RECV_BUF_def)
qed

section \<open>The state between requests\<close>

text \<open>
  Without Redis, every packet L1 may return came from an upstream server, so it is a DNS
  header at least and fits the receive buffer.
\<close>

definition packets_ok :: "('m \<Rightarrow> string \<Rightarrow> (l1_entry \<times> nat) option) \<Rightarrow> 'm \<Rightarrow> bool" where
  "packets_ok view m \<longleftrightarrow>
     (\<forall>k e t. view m k = Some (e, t) \<longrightarrow> 4 \<le> length (l1_raw e) \<and> length (l1_raw e) \<le> RECV_BUF)"

definition server_inv ::
  "('rt, 'm, 'r, 'db, 'x) cache_libs_scheme \<Rightarrow> ('m \<Rightarrow> string \<Rightarrow> (l1_entry \<times> nat) option) \<Rightarrow>
     ('m, 'r, 'db, 'q) world \<Rightarrow> bool" where
  "server_inv L view w \<longleftrightarrow>
     moka_law L view \<and> \<not> redis_feature L \<and> packets_ok view (c_l1 (w_cache w))"

lemma packets_ok_get:
  assumes "moka_law L view" and "packets_ok view m" and "moka_get L x now k m = (r, m')"
  shows "packets_ok view m'"
    and "r = Some e \<Longrightarrow> 4 \<le> length (l1_raw e) \<and> length (l1_raw e) \<le> RECV_BUF"
proof -
  show "packets_ok view m'"
    unfolding packets_ok_def
  proof (intro allI impI)
    fix k' e t
    assume "view m' k' = Some (e, t)"
    then have "view m k' = Some (e, t)" by (rule moka_get_view [OF assms(1,3)])
    with assms(2) show "4 \<le> length (l1_raw e) \<and> length (l1_raw e) \<le> RECV_BUF"
      unfolding packets_ok_def by blast
  qed
  assume "r = Some e"
  with assms(1,3) obtain t where "view m k = Some (e, t)" by (blast elim: moka_get_hit)
  with assms(2) show "4 \<le> length (l1_raw e) \<and> length (l1_raw e) \<le> RECV_BUF"
    unfolding packets_ok_def by blast
qed

lemma packets_ok_insert:
  assumes law: "moka_law L view" and ok: "packets_ok view m"
    and raw: "4 \<le> length (l1_raw e)" "length (l1_raw e) \<le> RECV_BUF"
  shows "packets_ok view (moka_insert L ttl_expiry now k e m)"
  unfolding packets_ok_def
proof (intro allI impI)
  fix k' e' t
  assume stored: "view (moka_insert L ttl_expiry now k e m) k' = Some (e', t)"
  show "4 \<le> length (l1_raw e') \<and> length (l1_raw e') \<le> RECV_BUF"
  proof (cases "k' = k")
    case True
    with stored raw show ?thesis using moka_insert_same(1) [OF law] by blast
  next
    case False
    from moka_insert_other [OF law False stored] ok show ?thesis
      unfolding packets_ok_def by blast
  qed
qed

lemma check_and_get_no_redis:
  assumes "\<not> redis_feature L" and "check_and_get L now q c = (Inr (False, x), c')"
  obtains e m where "moka_get L ttl_expiry now (query_key L q) (c_l1 c) = (e, m)"
    "c' = c\<lparr>c_l1 := m\<rparr>" "x = map_option l1_raw e"
  using assms
  by (auto simp: check_and_get_def split: if_splits prod.splits option.splits)

lemma check_and_get_no_error:
  "\<not> redis_feature L \<Longrightarrow> \<not> isl (fst (check_and_get L now q c))"
  by (auto simp: check_and_get_def split: prod.splits option.splits)

lemma check_and_get_packets:
  assumes inv: "server_inv L view w" and run: "check_and_get L now q (w_cache w) = (Inr (False, x), c)"
  shows "packets_ok view (c_l1 c)" and "x = Some hit \<Longrightarrow> 4 \<le> length hit \<and> length hit \<le> RECV_BUF"
proof -
  from inv have law: "moka_law L view" and nr: "\<not> redis_feature L"
    and ok: "packets_ok view (c_l1 (w_cache w))" by (simp_all add: server_inv_def)
  from check_and_get_no_redis [OF nr run] obtain e m where
    get: "moka_get L ttl_expiry now (query_key L q) (c_l1 (w_cache w)) = (e, m)"
    and c: "c = (w_cache w)\<lparr>c_l1 := m\<rparr>" and x: "x = map_option l1_raw e" by metis
  note m = packets_ok_get [OF law ok get]
  from m(1) c show "packets_ok view (c_l1 c)" by simp
  assume "x = Some hit"
  with m(2) x show "4 \<le> length hit \<and> length hit \<le> RECV_BUF" by (cases e) auto
qed

lemma serve_inv:
  assumes q: "query_ok q" and inv: "server_inv L view w"
    and run: "serve L Q cfg rq q w = (Inr sv, w')"
  shows "server_inv L view w'"
    and "txid_matches (q_raw q) (sv_raw sv)" and "length (sv_raw sv) \<le> RECV_BUF"
    and "sv_response_code sv = rc_to_u16 L (rcode_from_raw (sv_raw sv))"
proof -
  from inv have law: "moka_law L view" and nr: "\<not> redis_feature L" by (simp_all add: server_inv_def)
  from run have "server_inv L view w' \<and> txid_matches (q_raw q) (sv_raw sv) \<and>
      length (sv_raw sv) \<le> RECV_BUF \<and>
      sv_response_code sv = rc_to_u16 L (rcode_from_raw (sv_raw sv))"
  proof (cases rule: serve_InrE)
    case blocked_name
    with inv q show ?thesis
      by (simp add: blocked_txid blocked_length resp_code_blocked)
  next
    case (from_cache hit c)
    note m = check_and_get_packets [OF inv from_cache(2)]
    have len: "4 \<le> length hit" "length hit \<le> RECV_BUF" using m(2) by auto
    have "packets_ok view (c_l1 (w_cache w'))"
      using m(1) len by (auto simp: from_cache(3) add_dns_query_moka_def
          intro: packets_ok_insert [OF law] split: option.split)
    moreover have "txid_matches (q_raw q) (resp_raw (cached q hit))"
      using len q by (intro ca.echoes_txid) simp
    moreover have "rcode_from_raw (resp_raw (cached q hit)) = rcode_from_raw hit"
      by (intro rcode_from_raw_drop2) (simp_all add: cached_rest)
    ultimately show ?thesis
      using law nr len by (simp add: server_inv_def from_cache(4))
  next
    case (from_upstream res c s)
    note m = check_and_get_packets(1) [OF inv from_upstream(2)]
    have good: "good_reply q res" by (rule resolve_good(1) [OF q from_upstream(3)])
    have "packets_ok view (c_l1 (w_cache w'))"
      using m good nr cache_ttl_length [of cfg "resp_raw res" "q_answer_offset q"]
      by (auto simp: from_upstream(4) add_dns_query_moka_def good_reply_def Let_def
          intro!: packets_ok_insert [OF law] split: option.split)
    with law nr good show ?thesis
      by (simp add: server_inv_def from_upstream(5) good_reply_def)
  qed
  then show "server_inv L view w'" "txid_matches (q_raw q) (sv_raw sv)"
    "length (sv_raw sv) \<le> RECV_BUF"
    "sv_response_code sv = rc_to_u16 L (rcode_from_raw (sv_raw sv))"
    by simp_all
qed

lemma serve_Inl_inv:
  assumes inv: "server_inv L view w" and run: "serve L Q cfg rq q w = (Inl e, w')"
  shows "server_inv L view w'" and "w_events w' = w_events w" and "\<exists>ue. e = H_Upstream ue"
proof -
  from inv have law: "moka_law L view" and nr: "\<not> redis_feature L"
    and ok: "packets_ok view (c_l1 (w_cache w))" by (simp_all add: server_inv_def)
  obtain r c where cg: "check_and_get L (rq_lookup rq) q (w_cache w) = (r, c)" by fastforce
  with check_and_get_no_error [OF nr, of "rq_lookup rq" q "w_cache w"] obtain b x where
    r: "r = Inr (b, x)" by (cases r) auto
  with run cg have b: "b = False" and x: "x = None"
    by (auto simp: serve_def Let_def split: bool.splits option.splits)
  from check_and_get_no_redis [OF nr cg [unfolded r b]] obtain e' m where
    get: "moka_get L ttl_expiry (rq_lookup rq) (query_key L q) (c_l1 (w_cache w)) = (e', m)"
    and c: "c = (w_cache w)\<lparr>c_l1 := m\<rparr>" by metis
  have "w_cache w' = c \<and> w_events w' = w_events w \<and> (\<exists>ue. e = H_Upstream ue)"
    using run cg r b x by (auto simp: serve_def Let_def split: prod.splits sum.splits)
  with law nr packets_ok_get(1) [OF law ok get] c
  show "server_inv L view w'" "w_events w' = w_events w" "\<exists>ue. e = H_Upstream ue"
    by (auto simp: server_inv_def)
qed

section \<open>The interface of the front ends\<close>

locale reply_service =
  fixes run_query :: "'e \<Rightarrow> bytes \<Rightarrow> 'w \<Rightarrow> ('x + bytes) \<times> 'w"
    and inv :: "'w \<Rightarrow> bool"
  assumes keeps_inv: "inv w \<Longrightarrow> run_query e d w = (r, w') \<Longrightarrow> inv w'"
    and reply_txid: "inv w \<Longrightarrow> run_query e d w = (Inr reply, w') \<Longrightarrow> txid_matches d reply"
    and reply_fits: "inv w \<Longrightarrow> run_query e d w = (Inr reply, w') \<Longrightarrow> length reply \<le> RECV_BUF"
begin

lemma reply_length_u16:
  assumes "inv w" and "run_query e d w = (Inr reply, w')"
  shows "unat (of_nat (length reply) :: u16) = length reply" and "2 \<le> length reply"
proof -
  from reply_fits [OF assms] have "length reply < 2 ^ 16" by (simp add: RECV_BUF_def)
  then show "unat (of_nat (length reply) :: u16) = length reply"
    by (simp add: unat_of_nat)
  show "2 \<le> length reply"
    using reply_txid [OF assms] by (simp add: txid_matches_def)
qed

end

lemma handle_parsed_inv:
  assumes q: "query_ok q" and inv: "server_inv L view w"
    and run: "handle_parsed L Q cfg rq q w = (r, w')"
  shows "server_inv L view w'"
proof (cases "serve L Q cfg rq q w")
  case (Pair res w1)
  show ?thesis
  proof (cases res)
    case (Inl e)
    with Pair run serve_Inl_inv(1) [OF inv] show ?thesis by (auto simp: handle_parsed_def)
  next
    case (Inr sv)
    with Pair have "server_inv L view w1" by (blast intro: serve_inv(1) [OF q inv])
    with Pair Inr run show ?thesis
      by (auto simp: handle_parsed_def server_inv_def)
  qed
qed

lemma handle_inv: "server_inv L view w \<Longrightarrow> handle L Q cfg rq data w = (r, w') \<Longrightarrow> server_inv L view w'"
  by (auto simp: handle_def dest: parse_udp_query_ok handle_parsed_inv split: sum.splits)

lemma handle_parsed_reply:
  assumes "query_ok q" and "server_inv L view w" and "handle_parsed L Q cfg rq q w = (Inr reply, w')"
  shows "txid_matches (q_raw q) reply" and "length reply \<le> RECV_BUF"
    and "\<exists>ev. w_events w' = w_events w @ [ev] \<and> ev_domain ev = q_name q \<and>
      ev_response_code ev = rc_to_u16 L (rcode_from_raw reply)"
proof -
  from handle_parsed_InrE [OF assms(3)] obtain sv w1 where
    sv: "serve L Q cfg rq q w = (Inr sv, w1)" and reply: "reply = sv_raw sv"
    and w': "w' = w1\<lparr>w_events := w_events w1 @ [event_of L rq q sv]\<rparr>" .
  note inv = serve_inv [OF assms(1,2) sv]
  show "txid_matches (q_raw q) reply" "length reply \<le> RECV_BUF"
    using inv(2,3) by (simp_all add: reply)
  from sv have "w_events w1 = w_events w"
    by (cases rule: serve_InrE) simp_all
  then show "\<exists>ev. w_events w' = w_events w @ [ev] \<and> ev_domain ev = q_name q \<and>
      ev_response_code ev = rc_to_u16 L (rcode_from_raw reply)"
    using inv(4) by (simp add: w' reply event_of_def)
qed

lemma handle_InrE:
  assumes "handle L Q cfg rq data w = (Inr reply, w')"
  obtains q where "parse_udp L data = Inr q" "query_ok q" "q_raw q = data"
    "handle_parsed L Q cfg rq q w = (Inr reply, w')"
  using assms
  by (auto simp: handle_def split: sum.splits intro: parse_udp_query_ok parse_udp_raw)

interpretation full: reply_service "handle L Q cfg" "server_inv L view"
  for L :: "('rt, 'm, 'r, 'db, 'x) cache_libs_scheme" and Q :: "('sock, 'q) queue_libs" and cfg view
proof
  fix w :: "('m, 'r, 'db, 'q) world" and e d r w'
  assume "server_inv L view w" and "handle L Q cfg e d w = (r, w')"
  then show "server_inv L view w'" by (rule handle_inv)
next
  fix w :: "('m, 'r, 'db, 'q) world" and e d reply w'
  assume inv: "server_inv L view w" and run: "handle L Q cfg e d w = (Inr reply, w')"
  from run obtain q where q: "query_ok q" "q_raw q = d"
    and run': "handle_parsed L Q cfg e q w = (Inr reply, w')" by (blast elim: handle_InrE)
  from handle_parsed_reply [OF q(1) inv run'] q(2)
  show "txid_matches d reply" "length reply \<le> RECV_BUF" by simp_all
qed

end
