(* ===== verification/Acl.thy ===== *)
theory Acl
  imports Rust_Text
begin

text \<open>
  \<open>backend/src/acl.rs\<close>: the access list. Rows of the \<open>access\<close> table become entries, an
  address gets the action of the first entry with a network that contains it.
\<close>

section \<open>Data\<close>

datatype action = Allow | Deny | Refuse

definition parse_action :: "string \<Rightarrow> action" where
  "parse_action s =
     (let t = ascii_lowercase (trim s) in
      if t = ''deny'' then Deny else if t = ''refuse'' then Refuse else Allow)"

record 'net acl_entry =
  ae_action :: action
  ae_networks :: "'net list"

text \<open>The crate \<open>ipnet\<close>, and the two statements on the table.\<close>

type_synonym access_row = "bool \<times> string \<times> string"

record ('net, 'db) acl_libs =
  net_contains :: "'net \<Rightarrow> ip_addr \<Rightarrow> bool"
  net_parse :: "string \<Rightarrow> 'net option"
  sql_create_access :: "('db, unit) sql"
  sql_select_access :: "('db, access_row list) sql"

section \<open>Operations\<close>

definition parse_networks :: "('net, 'db, 'x) acl_libs_scheme \<Rightarrow> string \<Rightarrow> 'net list" where
  "parse_networks N networks = List.map_filter (\<lambda>s. net_parse N (trim s)) (split_on CHR '','' networks)"

definition row_entry :: "('net, 'db, 'x) acl_libs_scheme \<Rightarrow> access_row \<Rightarrow> 'net acl_entry option" where
  "row_entry N row =
     (case row of (_, action, networks) \<Rightarrow>
        (let nets = parse_networks N networks in
         if nets \<noteq> [] then Some \<lparr>ae_action = parse_action action, ae_networks = nets\<rparr> else None))"

definition entries_of_rows ::
  "('net, 'db, 'x) acl_libs_scheme \<Rightarrow> access_row list \<Rightarrow> 'net acl_entry list" where
  "entries_of_rows N rows = List.map_filter (row_entry N) (filter (\<lambda>(enabled, _, _). enabled) rows)"

definition fetch :: "('net, 'db, 'x) acl_libs_scheme \<Rightarrow> ('db, 'net acl_entry list) sql" where
  "fetch N db =
     (case sql_select_access N db of
        (Inl e, db') \<Rightarrow> (Inl e, db')
      | (Inr rows, db') \<Rightarrow> (Inr (entries_of_rows N rows), db'))"

definition load :: "('net, 'db, 'x) acl_libs_scheme \<Rightarrow> ('db, 'net acl_entry list) sql" where
  "load N db =
     (case sql_create_access N db of
        (Inl e, db') \<Rightarrow> (Inl e, db')
      | (Inr _, db') \<Rightarrow> fetch N db')"

text \<open>\<open>reload\<close> replaces the entries only when the rows could be read.\<close>

definition reload ::
  "('net, 'db, 'x) acl_libs_scheme \<Rightarrow> 'net acl_entry list \<Rightarrow> 'db \<Rightarrow>
     (sql_error + unit) \<times> 'net acl_entry list \<times> 'db" where
  "reload N entries db =
     (case fetch N db of
        (Inl e, db') \<Rightarrow> (Inl e, entries, db')
      | (Inr entries', db') \<Rightarrow> (Inr (), entries', db'))"

fun first_match :: "('net, 'db, 'x) acl_libs_scheme \<Rightarrow> 'net acl_entry list \<Rightarrow> ip_addr \<Rightarrow> action" where
  "first_match N [] ip = Deny"
| "first_match N (e # es) ip =
     (if list_ex (\<lambda>n. net_contains N n ip) (ae_networks e) then ae_action e else first_match N es ip)"

definition acl_decide ::
  "('net, 'db, 'x) acl_libs_scheme \<Rightarrow> 'net acl_entry list \<Rightarrow> ip_addr \<Rightarrow> action" where
  "acl_decide N entries ip = (if entries = [] then Allow else first_match N entries ip)"

section \<open>What the list decides\<close>

definition entry_matches :: "('net, 'db, 'x) acl_libs_scheme \<Rightarrow> ip_addr \<Rightarrow> 'net acl_entry \<Rightarrow> bool" where
  "entry_matches N ip e \<longleftrightarrow> (\<exists>n \<in> set (ae_networks e). net_contains N n ip)"

lemma first_match_Cons:
  "first_match N (e # es) ip = (if entry_matches N ip e then ae_action e else first_match N es ip)"
  by (simp add: entry_matches_def list_ex_iff)

lemma first_match_skip:
  "\<forall>e \<in> set es. \<not> entry_matches N ip e \<Longrightarrow> first_match N (es @ fs) ip = first_match N fs ip"
  by (induction es) (simp_all add: first_match_Cons del: first_match.simps(2))

lemma first_match_decides:
  "\<forall>e \<in> set es. \<not> entry_matches N ip e \<Longrightarrow> entry_matches N ip e' \<Longrightarrow>
     first_match N (es @ e' # fs) ip = ae_action e'"
  by (simp add: first_match_skip first_match_Cons del: first_match.simps(2))

lemma acl_decide_find:
  "acl_decide N entries ip =
     (if entries = [] then Allow
      else case List.find (entry_matches N ip) entries of None \<Rightarrow> Deny | Some e \<Rightarrow> ae_action e)"
proof -
  have "first_match N es ip =
      (case List.find (entry_matches N ip) es of None \<Rightarrow> Deny | Some e \<Rightarrow> ae_action e)" for es
    by (induction es) (simp_all add: first_match_Cons del: first_match.simps(2))
  then show ?thesis by (simp add: acl_decide_def)
qed

text \<open>Rows that are disabled or name no readable network play no part.\<close>

definition idle_row :: "('net, 'db, 'x) acl_libs_scheme \<Rightarrow> access_row \<Rightarrow> bool" where
  "idle_row N row \<longleftrightarrow> \<not> fst row \<or> parse_networks N (snd (snd row)) = []"

lemma entries_of_rows_Nil: "entries_of_rows N [] = []"
  by (simp add: entries_of_rows_def List.map_filter_def)

lemma entries_of_rows_Cons:
  "entries_of_rows N (row # rows) =
     (if idle_row N row then []
      else [\<lparr>ae_action = parse_action (fst (snd row)),
             ae_networks = parse_networks N (snd (snd row))\<rparr>]) @ entries_of_rows N rows"
  by (cases row)
    (simp add: entries_of_rows_def List.map_filter_def idle_row_def row_entry_def Let_def)

lemmas entries_of_rows_simps = entries_of_rows_Nil entries_of_rows_Cons

lemma entries_of_rows_filter:
  "entries_of_rows N (filter (\<lambda>row. \<not> idle_row N row) rows) = entries_of_rows N rows"
  by (induction rows) (simp_all add: entries_of_rows_simps)

lemma entries_of_rows_networks: "e \<in> set (entries_of_rows N rows) \<Longrightarrow> ae_networks e \<noteq> []"
  by (induction rows) (auto simp: entries_of_rows_simps idle_row_def split: if_splits)

lemma entries_of_rows_Nil_iff: "entries_of_rows N rows = [] \<longleftrightarrow> (\<forall>row \<in> set rows. idle_row N row)"
  by (induction rows) (simp_all add: entries_of_rows_simps)

lemma entries_of_rows_append:
  "entries_of_rows N (rows @ rows') = entries_of_rows N rows @ entries_of_rows N rows'"
  by (induction rows) (simp_all add: entries_of_rows_simps)

end
