(* ===== verification/Mono.thy ===== *)
theory Mono
  imports Handler_Correct Acl
begin

text \<open>
  \<open>backend/src/dns/mono.rs\<close>: the pinned datapath workers. A datagram passes the access list,
  is answered on the worker when the name is blocked or the answer is in L1, and otherwise
  goes over the cold channel to \<open>QueryHandler::handle_parsed\<close>.
\<close>

section \<open>Operations\<close>

definition MONO_RECV_BUF :: nat where "MONO_RECV_BUF = 512"

datatype 'rt outcome = Reply bytes | Miss "'rt query" | Drop

definition hot_event ::
  "('rt, 'x) dns_libs_scheme \<Rightarrow> 'sock request \<Rightarrow> 'rt query \<Rightarrow> response_code \<Rightarrow> bool \<Rightarrow> bool \<Rightarrow>
     dns_query_event" where
  "hot_event L rq q code hit blk =
     \<lparr>ev_timestamp_ms = rq_timestamp_ms rq, ev_domain = q_name q,
      ev_query_type = rt_to_u16 L (q_type q), ev_response_code = rc_to_u16 L code,
      ev_cache_hit = hit, ev_blocked = blk, ev_latency_us = rq_latency_us rq\<rparr>"

definition send_event ::
  "dns_query_event \<Rightarrow> ('m, 'r, 'db, 'q) world \<Rightarrow> ('m, 'r, 'db, 'q) world" where
  "send_event ev w = w\<lparr>w_events := w_events w @ [ev]\<rparr>"

definition classify ::
  "('rt, 'm, 'r, 'db, 'x) cache_libs_scheme \<Rightarrow> runtime_config \<Rightarrow> 'sock request \<Rightarrow> bytes \<Rightarrow>
     ('m, 'r, 'db, 'q) world \<Rightarrow> 'rt outcome \<times> ('m, 'r, 'db, 'q) world" where
  "classify L cfg rq packet w =
     (case parse_udp L packet of
        Inl _ \<Rightarrow> (Drop, w)
      | Inr q \<Rightarrow>
          (if is_blocked L (w_cache w) (q_name q) then
             (let resp = blocked L q (blocking_mode cfg) in
              (Reply (resp_raw resp), send_event (hot_event L rq q (resp_code resp) False True) w))
           else
             (case l1_get L (rq_lookup rq) q (w_cache w) of
                (Some hit, c) \<Rightarrow>
                  (let txid = (q_raw q ! 0, q_raw q ! 1);
                       raw = (if 2 \<le> length hit then hit[0 := fst txid, 1 := snd txid] else hit)
                   in (Reply raw,
                       send_event (hot_event L rq q (rcode_from_raw raw) True False) (w\<lparr>w_cache := c\<rparr>)))
              | (None, c) \<Rightarrow> (Miss q, w\<lparr>w_cache := c\<rparr>))))"

definition refuse :: "('rt, 'x) dns_libs_scheme \<Rightarrow> bytes \<Rightarrow> bytes option" where
  "refuse L packet =
     (case parse_udp L packet of
        Inl _ \<Rightarrow> None
      | Inr q \<Rightarrow> Some (resp_raw (blocked L q Mode_Refused)))"

text \<open>
  \<open>serve_miss\<close> and \<open>cold_path\<close>: the query travels over the channel with its time stamp and
  comes back as a reply, or not at all when the handler fails and the reply sender is dropped.
\<close>

definition serve_miss ::
  "('rt, 'm, 'r, 'db, 'x) cache_libs_scheme \<Rightarrow> ('sock, 'q) queue_libs \<Rightarrow> runtime_config \<Rightarrow>
     'sock request \<Rightarrow> 'rt query \<Rightarrow> ('m, 'r, 'db, 'q) world \<Rightarrow>
     bytes option \<times> ('m, 'r, 'db, 'q) world" where
  "serve_miss L Q cfg rq q w =
     (case handle_parsed L Q cfg rq q w of
        (Inr resp, w') \<Rightarrow> (Some resp, w')
      | (Inl _, w') \<Rightarrow> (None, w'))"

text \<open>
  One iteration of \<open>Worker::run\<close> for a datagram that was received: what is sent back to its
  source. \<open>rq\<close> holds the readings of the worker, \<open>rq'\<close> those of the cold path.
\<close>

definition datagram ::
  "('rt, 'm, 'r, 'db, 'x) cache_libs_scheme \<Rightarrow> ('sock, 'q) queue_libs \<Rightarrow>
     ('net, 'ndb, 'y) acl_libs_scheme \<Rightarrow> 'net acl_entry list \<Rightarrow> runtime_config \<Rightarrow>
     'sock request \<Rightarrow> 'sock request \<Rightarrow> socket_addr \<Rightarrow> bytes \<Rightarrow> ('m, 'r, 'db, 'q) world \<Rightarrow>
     bytes option \<times> ('m, 'r, 'db, 'q) world" where
  "datagram L Q N acl cfg rq rq' src packet w =
     (let buf = take MONO_RECV_BUF packet in
      case acl_decide N acl (socket_ip src) of
        Deny \<Rightarrow> (None, w)
      | Refuse \<Rightarrow> (refuse L buf, w)
      | Allow \<Rightarrow>
          (case classify L cfg rq buf w of
             (Reply resp, w') \<Rightarrow> (Some resp, w')
           | (Miss q, w') \<Rightarrow>
               serve_miss L Q cfg (rq'\<lparr>rq_timestamp_ms := rq_timestamp_ms rq\<rparr>) q w'
           | (Drop, w') \<Rightarrow> (None, w')))"

section \<open>The hot path against the full handler\<close>

lemma hot_patch_eq_cached:
  assumes "query_ok q"
  shows "(if 2 \<le> length hit then hit[0 := q_raw q ! 0, 1 := q_raw q ! 1] else hit)
    = resp_raw (cached q hit)"
  using assms by (simp add: cached_def Let_def query_ok_def HEADER_def)

lemma cached_rcode: "rcode_from_raw (resp_raw (cached q hit)) = rcode_from_raw hit"
  by (intro rcode_from_raw_drop2) (simp_all add: cached_rest)

text \<open>What the handler answers, seen from the socket.\<close>

definition answer :: "'e + bytes \<Rightarrow> bytes option" where
  "answer r = (case r of Inl _ \<Rightarrow> None | Inr b \<Rightarrow> Some b)"

text \<open>The state after a lookup in L1 that found nothing, or the state itself.\<close>

definition after_hot_lookup ::
  "('rt, 'm, 'r, 'db, 'x) cache_libs_scheme \<Rightarrow> nat \<Rightarrow> 'rt query \<Rightarrow> ('m, 'r, 'db, 'q) world \<Rightarrow>
     ('m, 'r, 'db, 'q) world" where
  "after_hot_lookup L now q w = w\<lparr>w_cache := snd (l1_get L now q (w_cache w))\<rparr>"

lemma l1_get_check:
  assumes "\<not> is_blocked L c (q_name q)" and "l1_get L now q c = (Some hit, c')"
  shows "check_and_get L now q c = (Inr (False, Some hit), c')"
  using assms by (auto simp: l1_get_def check_and_get_def split: prod.splits)

lemma classify_blocked:
  assumes "parse_udp L packet = Inr q" and "is_blocked L (w_cache w) (q_name q)"
    and "handle_parsed L Q cfg rq q w = (r, w1)"
  shows "classify L cfg rq packet w = (Reply (resp_raw (blocked L q (blocking_mode cfg))), w1)"
    and "r = Inr (resp_raw (blocked L q (blocking_mode cfg)))"
proof -
  have "check_and_get L (rq_lookup rq) q (w_cache w) = (Inr (True, None), w_cache w)"
    using assms(2) by (simp add: check_and_get_def)
  with assms show "classify L cfg rq packet w = (Reply (resp_raw (blocked L q (blocking_mode cfg))), w1)"
    "r = Inr (resp_raw (blocked L q (blocking_mode cfg)))"
    by (auto simp: classify_def handle_parsed_def serve_def Let_def send_event_def hot_event_def
        event_of_def)
qed

lemma classify_hit:
  assumes p: "parse_udp L packet = Inr q" and nb: "\<not> is_blocked L (w_cache w) (q_name q)"
    and hit: "l1_get L (rq_lookup rq) q (w_cache w) = (Some hit, c)"
    and h: "handle_parsed L Q cfg rq q w = (r, w1)"
  shows "\<exists>w2. classify L cfg rq packet w = (Reply (resp_raw (cached q hit)), w2) \<and>
      r = Inr (resp_raw (cached q hit)) \<and> w_events w2 = w_events w1"
proof -
  have ok: "query_ok q" by (rule parse_udp_query_ok [OF p])
  have "check_and_get L (rq_lookup rq) q (w_cache w) = (Inr (False, Some hit), c)"
    by (rule l1_get_check [OF nb hit])
  with h have r: "r = Inr (resp_raw (cached q hit))"
    and ev: "w_events w1 = w_events w @ [hot_event L rq q (rcode_from_raw hit) True False]"
    by (auto simp: handle_parsed_def serve_def Let_def event_of_def hot_event_def cached_code)
  have "classify L cfg rq packet w =
      (Reply (resp_raw (cached q hit)),
       send_event (hot_event L rq q (rcode_from_raw (resp_raw (cached q hit))) True False)
         (w\<lparr>w_cache := c\<rparr>))"
    unfolding classify_def p sum.case using nb hit
    by (simp only: if_False hit prod.case option.case fst_conv snd_conv Let_def
        hot_patch_eq_cached [OF ok, of hit])
  then show ?thesis
    using r ev by (simp add: send_event_def cached_rcode)
qed

lemma classify_miss:
  assumes "parse_udp L packet = Inr q" and "\<not> is_blocked L (w_cache w) (q_name q)"
    and "fst (l1_get L (rq_lookup rq) q (w_cache w)) = None"
  shows "classify L cfg rq packet w = (Miss q, after_hot_lookup L (rq_lookup rq) q w)"
  using assms by (cases "l1_get L (rq_lookup rq) q (w_cache w)")
    (simp add: classify_def after_hot_lookup_def)

lemma serve_miss_answer:
  "handle_parsed L Q cfg rq q w = (r, w1) \<Longrightarrow> serve_miss L Q cfg rq q w = (answer r, w1)"
  by (simp add: serve_miss_def answer_def split: sum.split)

text \<open>
  The three outcomes of the hot path, each against the full handler run with the same clock
  readings: a reply is the handler's reply, a miss leaves the query to it.
\<close>

lemma classify_cases:
  obtains (dropped) e where "parse_udp L packet = Inl e" "classify L cfg rq packet w = (Drop, w)"
  | (replied) q w1 w2 reply where "parse_udp L packet = Inr q"
      "classify L cfg rq packet w = (Reply reply, w2)"
      "handle L Q cfg rq packet w = (Inr reply, w1)" "w_events w2 = w_events w1"
  | (missed) q where "parse_udp L packet = Inr q" "\<not> is_blocked L (w_cache w) (q_name q)"
      "classify L cfg rq packet w = (Miss q, after_hot_lookup L (rq_lookup rq) q w)"
proof (cases "parse_udp L packet")
  case (Inl e)
  then show thesis by (intro dropped) (simp_all add: classify_def)
next
  case p: (Inr q)
  obtain r w1 where h: "handle_parsed L Q cfg rq q w = (r, w1)" by fastforce
  have handled: "handle L Q cfg rq packet w = (r, w1)" by (simp add: handle_def p h)
  show thesis
  proof (cases "is_blocked L (w_cache w) (q_name q)")
    case True
    note b = classify_blocked [OF p True h]
    show thesis
      by (rule replied [OF p b(1) handled [unfolded b(2)]]) simp
  next
    case nb: False
    obtain x c where look: "l1_get L (rq_lookup rq) q (w_cache w) = (x, c)" by fastforce
    show thesis
    proof (cases x)
      case None
      with look have "fst (l1_get L (rq_lookup rq) q (w_cache w)) = None" by simp
      from classify_miss [OF p nb this] show thesis by (rule missed [OF p nb])
    next
      case (Some hit)
      from classify_hit [OF p nb look [unfolded Some] h] obtain w2 where
        c: "classify L cfg rq packet w = (Reply (resp_raw (cached q hit)), w2)"
        and r: "r = Inr (resp_raw (cached q hit))" and ev: "w_events w2 = w_events w1" by blast
      show thesis by (rule replied [OF p c handled [unfolded r] ev])
    qed
  qed
qed

section \<open>The pinned workers as a front end of the handler\<close>

lemma server_inv_after_hot_lookup:
  assumes inv: "server_inv L view w"
  shows "server_inv L view (after_hot_lookup L now q w)"
proof -
  from inv have law: "moka_law L view" and ok: "packets_ok view (c_l1 (w_cache w))"
    by (simp_all add: server_inv_def)
  obtain e m where get: "moka_get L ttl_expiry now (query_key L q) (c_l1 (w_cache w)) = (e, m)"
    by fastforce
  show ?thesis
    using inv packets_ok_get(1) [OF law ok get]
    by (simp add: after_hot_lookup_def l1_get_def get server_inv_def)
qed

lemma datagram_allow:
  assumes "acl_decide N acl (socket_ip src) = Allow" and "length packet \<le> MONO_RECV_BUF"
    and "datagram L Q N acl cfg rq rq' src packet w = (r, w')"
  obtains (unparsed) e where "parse_udp L packet = Inl e" "r = None" "w' = w"
  | (hot) reply w1 where "handle L Q cfg rq packet w = (Inr reply, w1)" "r = Some reply"
      "w_events w' = w_events w1"
  | (cold) q x where "parse_udp L packet = Inr q" "r = answer x"
      "handle L Q cfg (rq'\<lparr>rq_timestamp_ms := rq_timestamp_ms rq\<rparr>) packet
         (after_hot_lookup L (rq_lookup rq) q w) = (x, w')"
proof (rule classify_cases [where L = L and packet = packet and cfg = cfg and rq = rq and w = w and Q = Q])
  fix e
  assume "parse_udp L packet = Inl e" and "classify L cfg rq packet w = (Drop, w)"
  with assms show thesis by (intro unparsed) (simp_all add: datagram_def)
next
  fix w1 w2 reply
  assume "classify L cfg rq packet w = (Reply reply, w2)"
    and "handle L Q cfg rq packet w = (Inr reply, w1)" and "w_events w2 = w_events w1"
  with assms show thesis by (intro hot) (auto simp: datagram_def)
next
  fix q
  assume p: "parse_udp L packet = Inr q"
    and miss: "classify L cfg rq packet w = (Miss q, after_hot_lookup L (rq_lookup rq) q w)"
  let ?rq = "rq'\<lparr>rq_timestamp_ms := rq_timestamp_ms rq\<rparr>"
  let ?w = "after_hot_lookup L (rq_lookup rq) q w"
  obtain x w1 where h: "handle_parsed L Q cfg ?rq q ?w = (x, w1)" by fastforce
  with assms miss serve_miss_answer [OF h] have "r = answer x" "w1 = w'"
    by (simp_all add: datagram_def)
  with h p show thesis by (intro cold [OF p]) (auto simp: handle_def)
qed

lemma txid_matches_take: "2 \<le> n \<Longrightarrow> txid_matches (take n packet) reply \<longleftrightarrow> txid_matches packet reply"
  by (simp add: txid_matches_def min_def)

lemma refuse_reply:
  assumes "refuse L packet = Some reply"
  shows "txid_matches packet reply" and "length reply \<le> RECV_BUF"
    and "rcode_from_raw reply = RC_Refused"
proof -
  from assms obtain q where p: "parse_udp L packet = Inr q"
    and reply: "reply = resp_raw (blocked L q Mode_Refused)"
    by (auto simp: refuse_def split: sum.splits)
  note ok = parse_udp_query_ok [OF p]
  show "txid_matches packet reply" "length reply \<le> RECV_BUF"
    using blocked_txid [OF ok, of L Mode_Refused] blocked_length [OF ok, of L Mode_Refused]
    by (simp_all add: reply parse_udp_raw [OF p])
  show "rcode_from_raw reply = RC_Refused"
    using rf.rcode [OF ok] by (simp add: reply blocked_def)
qed

lemma classify_inv:
  assumes inv: "server_inv L view w" and run: "classify L cfg rq packet w = (out, w')"
  shows "server_inv L view w'"
    and "out = Miss q \<Longrightarrow> query_ok q \<and> q_raw q = packet"
    and "out = Reply reply \<Longrightarrow> txid_matches packet reply \<and> length reply \<le> RECV_BUF"
proof -
  have "server_inv L view w' \<and> (\<forall>q. out = Miss q \<longrightarrow> query_ok q \<and> q_raw q = packet)"
  proof (cases "parse_udp L packet")
    case (Inl e)
    with inv run show ?thesis by (auto simp: classify_def)
  next
    case (Inr q)
    note ok = parse_udp_query_ok [OF Inr] parse_udp_raw [OF Inr]
    obtain x c where look: "l1_get L (rq_lookup rq) q (w_cache w) = (x, c)" by fastforce
    have "server_inv L view (w\<lparr>w_cache := c\<rparr>)"
      using server_inv_after_hot_lookup [OF inv, of "rq_lookup rq" q]
      by (simp add: after_hot_lookup_def look)
    with inv run ok show ?thesis
      by (auto simp: classify_def Inr look Let_def send_event_def server_inv_def
          split: if_splits option.splits)
  qed
  then show "server_inv L view w'" "out = Miss q \<Longrightarrow> query_ok q \<and> q_raw q = packet" by blast+
  assume out: "out = Reply reply"
  show "txid_matches packet reply \<and> length reply \<le> RECV_BUF"
  proof (rule classify_cases [where L = L and packet = packet and cfg = cfg and rq = rq and w = w])
    fix w1 w2 reply'
    assume "classify L cfg rq packet w = (Reply reply', w2)"
      and h: "handle L Q cfg rq packet w = (Inr reply', w1)"
    with out run have "reply' = reply" by simp
    with full.reply_txid [OF inv h] full.reply_fits [OF inv h] show ?thesis by simp
  qed (use run out in simp_all)
qed

text \<open>A datagram worker as a service: no answer is an error of the service.\<close>

definition datagram_service ::
  "('rt, 'm, 'r, 'db, 'x) cache_libs_scheme \<Rightarrow> ('sock, 'q) queue_libs \<Rightarrow>
     ('net, 'ndb, 'y) acl_libs_scheme \<Rightarrow> 'net acl_entry list \<Rightarrow> runtime_config \<Rightarrow>
     'sock request \<times> 'sock request \<times> socket_addr \<Rightarrow> bytes \<Rightarrow> ('m, 'r, 'db, 'q) world \<Rightarrow>
     (unit + bytes) \<times> ('m, 'r, 'db, 'q) world" where
  "datagram_service L Q N acl cfg env packet w =
     (case datagram L Q N acl cfg (fst env) (fst (snd env)) (snd (snd env)) packet w of
        (None, w') \<Rightarrow> (Inl (), w')
      | (Some reply, w') \<Rightarrow> (Inr reply, w'))"

lemma datagram_service_Inr:
  "datagram_service L Q N acl cfg (rq, rq', src) packet w = (Inr reply, w') \<longleftrightarrow>
     datagram L Q N acl cfg rq rq' src packet w = (Some reply, w')"
  by (auto simp: datagram_service_def split: prod.splits option.splits)

lemma datagram_inv:
  assumes inv: "server_inv L view w" and run: "datagram L Q N acl cfg rq rq' src packet w = (r, w')"
  shows "server_inv L view w'"
    and "r = Some reply \<Longrightarrow> txid_matches packet reply \<and> length reply \<le> RECV_BUF"
proof -
  let ?buf = "take MONO_RECV_BUF packet"
  have buf: "txid_matches ?buf x \<longleftrightarrow> txid_matches packet x" for x
    by (rule txid_matches_take) (simp add: MONO_RECV_BUF_def)
  have "server_inv L view w' \<and>
      (\<forall>reply. r = Some reply \<longrightarrow> txid_matches ?buf reply \<and> length reply \<le> RECV_BUF)"
  proof (cases "acl_decide N acl (socket_ip src)")
    case Allow
    obtain out w1 where c: "classify L cfg rq ?buf w = (out, w1)" by fastforce
    note ci = classify_inv [OF inv c]
    show ?thesis
    proof (cases out)
      case (Miss q)
      let ?rq = "rq'\<lparr>rq_timestamp_ms := rq_timestamp_ms rq\<rparr>"
      from ci(2) [OF Miss] have ok: "query_ok q" and raw: "q_raw q = ?buf" by simp_all
      obtain x w2 where h: "handle_parsed L Q cfg ?rq q w1 = (x, w2)" by fastforce
      from run Allow c Miss serve_miss_answer [OF h] have "r = answer x" "w' = w2"
        by (simp_all add: datagram_def)
      with handle_parsed_inv [OF ok ci(1) h] handle_parsed_reply(1,2) [OF ok ci(1)] h raw
      show ?thesis by (auto simp: answer_def split: sum.splits)
    qed (use run Allow c ci in \<open>auto simp: datagram_def\<close>)
  qed (use run inv refuse_reply in \<open>auto simp: datagram_def\<close>)
  then show "server_inv L view w'"
    "r = Some reply \<Longrightarrow> txid_matches packet reply \<and> length reply \<le> RECV_BUF"
    by (simp_all add: buf)
qed

interpretation pinned: reply_service "datagram_service L Q N acl cfg" "server_inv L view"
  for L :: "('rt, 'm, 'r, 'db, 'x) cache_libs_scheme" and Q :: "('sock, 'q) queue_libs"
    and N :: "('net, 'ndb, 'y) acl_libs_scheme" and acl cfg view
proof
  fix w :: "('m, 'r, 'db, 'q) world" and env d r w'
  assume inv: "server_inv L view w" and run: "datagram_service L Q N acl cfg env d w = (r, w')"
  obtain x where "datagram L Q N acl cfg (fst env) (fst (snd env)) (snd (snd env)) d w = (x, w')"
    using run by (auto simp: datagram_service_def split: prod.splits option.splits)
  from datagram_inv(1) [OF inv this] show "server_inv L view w'" .
next
  fix w :: "('m, 'r, 'db, 'q) world" and env d reply w'
  assume inv: "server_inv L view w"
    and run: "datagram_service L Q N acl cfg env d w = (Inr reply, w')"
  obtain rq rq' src where env: "env = (rq, rq', src)" by (cases env)
  from run have "datagram L Q N acl cfg rq rq' src d w = (Some reply, w')"
    by (simp add: env datagram_service_Inr)
  from datagram_inv(2) [OF inv this, of reply]
  show "txid_matches d reply" "length reply \<le> RECV_BUF" by simp_all
qed

end
