(* ===== verification/Server.thy ===== *)
theory Server
  imports Mono
begin

text \<open>
  \<open>backend/src/dns/server.rs\<close>: the Tokio front ends. The UDP loop hands recycled buffers to
  spawned tasks, which is a step relation; a TCP connection is a loop over the bytes the peer
  sends, with the two ways it can stop sending. Both are clients of \<open>reply_service\<close>.
  The last section is the choice of front end in \<open>backend/src/main.rs\<close>.
\<close>

section \<open>The buffer pool\<close>

definition UDP_BUFFER_SIZE :: nat where "UDP_BUFFER_SIZE = 512"
definition UDP_BUFFER_COUNT :: nat where "UDP_BUFFER_COUNT = 1000"

text \<open>A \<open>BytesMut\<close> has contents and a capacity; growing it past the capacity reallocates.\<close>

record bytes_mut =
  bm_data :: bytes
  bm_cap :: nat

definition bm_resize :: "nat \<Rightarrow> bytes_mut \<Rightarrow> bytes_mut" where
  "bm_resize n b =
     \<lparr>bm_data = take n (bm_data b) @ replicate (n - length (bm_data b)) 0,
      bm_cap = max (bm_cap b) n\<rparr>"

definition bm_truncate :: "nat \<Rightarrow> bytes_mut \<Rightarrow> bytes_mut" where
  "bm_truncate n b = b\<lparr>bm_data := take n (bm_data b)\<rparr>"

record buffer_pool =
  bp_pool :: "bytes_mut list"
  bp_buffer_size :: nat

definition buffer_pool_new :: "nat \<Rightarrow> nat \<Rightarrow> buffer_pool" where
  "buffer_pool_new buffer_size initial_count =
     \<lparr>bp_pool = replicate initial_count \<lparr>bm_data = replicate buffer_size 0, bm_cap = buffer_size\<rparr>,
      bp_buffer_size = buffer_size\<rparr>"

definition buffer_get :: "buffer_pool \<Rightarrow> bytes_mut \<times> buffer_pool" where
  "buffer_get p =
     (if bp_pool p = [] then (\<lparr>bm_data = [], bm_cap = bp_buffer_size p\<rparr>, p)
      else (last (bp_pool p), p\<lparr>bp_pool := butlast (bp_pool p)\<rparr>))"

definition buffer_put :: "bytes_mut \<Rightarrow> buffer_pool \<Rightarrow> buffer_pool" where
  "buffer_put buf p =
     (let buf' = buf\<lparr>bm_data := []\<rparr> in
      if bm_cap buf' \<le> bp_buffer_size p * 2 then p\<lparr>bp_pool := bp_pool p @ [buf']\<rparr> else p)"

section \<open>The UDP loop\<close>

text \<open>
  \<open>serve_udp\<close> holds one buffer while it waits for a datagram; every datagram becomes a task.
  The two sequences of datagrams record what the socket received and sent.
\<close>

record 'w udp_server =
  us_pool :: buffer_pool
  us_current :: "bytes_mut option"
  us_tasks :: "(bytes_mut \<times> socket_addr) list"
  us_received :: "(socket_addr \<times> bytes) list"
  us_sent :: "(socket_addr \<times> bytes) list"
  us_world :: 'w

definition udp_start :: "'w \<Rightarrow> 'w udp_server" where
  "udp_start w =
     \<lparr>us_pool = buffer_pool_new UDP_BUFFER_SIZE UDP_BUFFER_COUNT, us_current = None, us_tasks = [],
      us_received = [], us_sent = [], us_world = w\<rparr>"

definition udp_prepare :: "'w udp_server \<Rightarrow> 'w udp_server" where
  "udp_prepare s =
     (case buffer_get (us_pool s) of
        (buf, p) \<Rightarrow> s\<lparr>us_pool := p, us_current := Some (bm_resize UDP_BUFFER_SIZE buf)\<rparr>)"

text \<open>The socket copies what fits into the buffer; the rest of the datagram is lost.\<close>

definition recv_into :: "bytes \<Rightarrow> bytes_mut \<Rightarrow> nat \<times> bytes_mut" where
  "recv_into data b =
     (let len = min (length data) (length (bm_data b))
      in (len, b\<lparr>bm_data := take len data @ drop len (bm_data b)\<rparr>))"

definition udp_receive :: "socket_addr \<Rightarrow> bytes \<Rightarrow> bytes_mut \<Rightarrow> 'w udp_server \<Rightarrow> 'w udp_server" where
  "udp_receive src data buf s =
     (case recv_into data buf of
        (len, buf') \<Rightarrow>
          s\<lparr>us_current := None, us_tasks := us_tasks s @ [(bm_truncate len buf', src)],
            us_received := us_received s @ [(src, data)]\<rparr>)"

definition udp_task ::
  "('e \<Rightarrow> bytes \<Rightarrow> 'w \<Rightarrow> ('x + bytes) \<times> 'w) \<Rightarrow> 'e \<Rightarrow> bool \<Rightarrow> bytes_mut \<times> socket_addr \<Rightarrow>
     'w udp_server \<Rightarrow> 'w udp_server" where
  "udp_task run env send_ok task s =
     (case run env (bm_data (fst task)) (us_world s) of
        (res, w) \<Rightarrow>
          (let s' = s\<lparr>us_world := w, us_tasks := remove1 task (us_tasks s),
                      us_pool := buffer_put (fst task) (us_pool s)\<rparr>
           in case res of
                Inr reply \<Rightarrow>
                  (if send_ok then s'\<lparr>us_sent := us_sent s' @ [(snd task, reply)]\<rparr> else s')
              | Inl _ \<Rightarrow> s'))"

inductive udp_step ::
  "('e \<Rightarrow> bytes \<Rightarrow> 'w \<Rightarrow> ('x + bytes) \<times> 'w) \<Rightarrow> 'w udp_server \<Rightarrow> 'w udp_server \<Rightarrow> bool"
  for run :: "'e \<Rightarrow> bytes \<Rightarrow> 'w \<Rightarrow> ('x + bytes) \<times> 'w" where
  prepare: "us_current s = None \<Longrightarrow> udp_step run s (udp_prepare s)"
| receive: "us_current s = Some buf \<Longrightarrow> udp_step run s (udp_receive src data buf s)"
| task: "t \<in> set (us_tasks s) \<Longrightarrow> udp_step run s (udp_task run env send_ok t s)"

text \<open>
  Buffers keep the size they were made with, a task works on the bytes of one datagram and
  on nothing left over from an earlier one, and what is sent answers something received.
\<close>

definition pool_ok :: "buffer_pool \<Rightarrow> bool" where
  "pool_ok p \<longleftrightarrow> bp_buffer_size p = UDP_BUFFER_SIZE \<and>
     (\<forall>b \<in> set (bp_pool p). bm_cap b = UDP_BUFFER_SIZE \<and> length (bm_data b) \<le> UDP_BUFFER_SIZE)"

definition task_ok :: "(socket_addr \<times> bytes) list \<Rightarrow> bytes_mut \<times> socket_addr \<Rightarrow> bool" where
  "task_ok received t \<longleftrightarrow> bm_cap (fst t) = UDP_BUFFER_SIZE \<and>
     (\<exists>data. (snd t, data) \<in> set received \<and> bm_data (fst t) = take UDP_BUFFER_SIZE data)"

definition reply_ok :: "(socket_addr \<times> bytes) list \<Rightarrow> socket_addr \<times> bytes \<Rightarrow> bool" where
  "reply_ok received r \<longleftrightarrow>
     (\<exists>data. (fst r, data) \<in> set received \<and> txid_matches data (snd r)) \<and> length (snd r) \<le> RECV_BUF"

definition udp_ok :: "('w \<Rightarrow> bool) \<Rightarrow> 'w udp_server \<Rightarrow> bool" where
  "udp_ok winv s \<longleftrightarrow> winv (us_world s) \<and> pool_ok (us_pool s) \<and>
     (\<forall>b. us_current s = Some b \<longrightarrow>
        bm_cap b = UDP_BUFFER_SIZE \<and> length (bm_data b) = UDP_BUFFER_SIZE) \<and>
     (\<forall>t \<in> set (us_tasks s). task_ok (us_received s) t) \<and>
     (\<forall>r \<in> set (us_sent s). reply_ok (us_received s) r)"

lemma pool_ok_new: "pool_ok (buffer_pool_new UDP_BUFFER_SIZE n)"
  by (simp add: pool_ok_def buffer_pool_new_def)

lemma pool_ok_get:
  assumes "pool_ok p" and "buffer_get p = (b, p')"
  shows "pool_ok p'" and "bm_cap b = UDP_BUFFER_SIZE" and "length (bm_data b) \<le> UDP_BUFFER_SIZE"
proof -
  have "b \<in> set (butlast (bp_pool p)) \<Longrightarrow> b \<in> set (bp_pool p)" for b by (rule in_set_butlastD)
  with assms show "pool_ok p'" "bm_cap b = UDP_BUFFER_SIZE" "length (bm_data b) \<le> UDP_BUFFER_SIZE"
    by (auto simp: pool_ok_def buffer_get_def split: if_splits)
qed

lemma pool_ok_put:
  "pool_ok p \<Longrightarrow> bm_cap b = UDP_BUFFER_SIZE \<Longrightarrow>
     pool_ok (buffer_put b p) \<and> length (bp_pool (buffer_put b p)) = Suc (length (bp_pool p))"
  by (auto simp: pool_ok_def buffer_put_def)

lemma udp_ok_start: "winv w \<Longrightarrow> udp_ok winv (udp_start w)"
  by (simp add: udp_ok_def udp_start_def pool_ok_new)

lemma udp_ok_prepare: "udp_ok winv s \<Longrightarrow> udp_ok winv (udp_prepare s)"
  by (cases "buffer_get (us_pool s)")
    (auto simp: udp_ok_def udp_prepare_def bm_resize_def dest: pool_ok_get)

lemma received_bytes:
  "length (bm_data b) = n \<Longrightarrow> recv_into data b = (len, b') \<Longrightarrow>
     bm_data (bm_truncate len b') = take n data"
  by (auto simp: recv_into_def bm_truncate_def Let_def min_def)

lemma task_ok_more: "task_ok rs t \<Longrightarrow> task_ok (rs @ rs') t"
  by (auto simp: task_ok_def)

lemma reply_ok_more: "reply_ok rs t \<Longrightarrow> reply_ok (rs @ rs') t"
  by (auto simp: reply_ok_def)

lemma udp_ok_receive:
  assumes ok: "udp_ok winv s" and cur: "us_current s = Some buf"
  shows "udp_ok winv (udp_receive src data buf s)"
proof -
  obtain len b' where r: "recv_into data buf = (len, b')" by fastforce
  from ok cur have "bm_cap buf = UDP_BUFFER_SIZE" "length (bm_data buf) = UDP_BUFFER_SIZE"
    by (simp_all add: udp_ok_def)
  with received_bytes [OF _ r] r
  have "task_ok (us_received s @ [(src, data)]) (bm_truncate len b', src)"
    by (auto simp: task_ok_def bm_truncate_def recv_into_def Let_def)
  with ok r show ?thesis
    by (auto simp: udp_ok_def udp_receive_def intro: task_ok_more reply_ok_more)
qed

section \<open>A TCP connection\<close>

definition TCP_MAX_MSG :: nat where "TCP_MAX_MSG = 65535"

text \<open>
  How the peer stops: it closes the stream, it falls silent for longer than
  \<open>TCP_IDLE_TIMEOUT\<close>, or the connection breaks. \<open>Waits\<close> is the value of a loop that never
  returns: the body of a message is read without a timeout.
\<close>

datatype stream_end = Eof | Idle | Broken
datatype conn_result = Conn_Closed | Conn_Error | Conn_Waits

definition header_end :: "stream_end \<Rightarrow> conn_result" where
  "header_end e = (case e of Eof \<Rightarrow> Conn_Closed | Idle \<Rightarrow> Conn_Closed | Broken \<Rightarrow> Conn_Error)"

definition body_end :: "stream_end \<Rightarrow> conn_result" where
  "body_end e = (case e of Eof \<Rightarrow> Conn_Error | Idle \<Rightarrow> Conn_Waits | Broken \<Rightarrow> Conn_Error)"

text \<open>
  The loop over an input, from request number \<open>n\<close> on. The second component of the result is
  what the completed writes sent; \<open>write_ok i\<close> tells whether the \<open>i\<close>-th write succeeds.
\<close>

function conn_loop ::
  "('e \<Rightarrow> bytes \<Rightarrow> 'w \<Rightarrow> ('x + bytes) \<times> 'w) \<Rightarrow> (nat \<Rightarrow> 'e) \<Rightarrow> (nat \<Rightarrow> bool) \<Rightarrow> stream_end \<Rightarrow>
     nat \<Rightarrow> bytes \<Rightarrow> 'w \<Rightarrow> conn_result \<times> bytes \<times> 'w" where
  "conn_loop run envs write_ok fin n inp w =
     (if length inp < 2 then (header_end fin, [], w)
      else
        let msg_len = unat (u16_from_be_bytes (inp ! 0) (inp ! 1)) in
        if msg_len = 0 \<or> msg_len > TCP_MAX_MSG then (Conn_Closed, [], w)
        else if length (drop 2 inp) < msg_len then (body_end fin, [], w)
        else
          let res = run (envs n) (take msg_len (drop 2 inp)) w in
          case fst res of
            Inl _ \<Rightarrow> (Conn_Closed, [], snd res)
          | Inr response \<Rightarrow>
              let resp_len = u16_to_be_bytes (of_nat (length response)) in
              if \<not> write_ok (2 * n) then (Conn_Error, [], snd res)
              else if \<not> write_ok (2 * n + 1) then (Conn_Error, resp_len, snd res)
              else
                let again = conn_loop run envs write_ok fin (Suc n) (drop msg_len (drop 2 inp)) (snd res)
                in (fst again, resp_len @ response @ fst (snd again), snd (snd again)))"
  by pat_completeness auto

termination conn_loop
  by (relation "measure (\<lambda>(run, envs, write_ok, fin, n, inp, w). length inp)") auto

declare conn_loop.simps [simp del]

definition handle_tcp_conn ::
  "('rt, 'm, 'r, 'db, 'x) cache_libs_scheme \<Rightarrow> ('sock, 'q) queue_libs \<Rightarrow> runtime_config \<Rightarrow>
     (nat \<Rightarrow> 'sock request) \<Rightarrow> (nat \<Rightarrow> bool) \<Rightarrow> stream_end \<Rightarrow> bytes \<Rightarrow> ('m, 'r, 'db, 'q) world \<Rightarrow>
     conn_result \<times> bytes \<times> ('m, 'r, 'db, 'q) world" where
  "handle_tcp_conn L Q cfg rqs write_ok fin inp w =
     conn_loop (handle L Q cfg) rqs write_ok fin 0 inp w"

text \<open>The framing of RFC 1035, 4.2.2: how a client writes messages and reads them back.\<close>

definition frame :: "bytes \<Rightarrow> bytes" where
  "frame m = u16_to_be_bytes (of_nat (length m)) @ m"

definition frames :: "bytes list \<Rightarrow> bytes" where "frames ms = concat (map frame ms)"

definition framable :: "bytes \<Rightarrow> bool" where
  "framable m \<longleftrightarrow> 0 < length m \<and> length m \<le> TCP_MAX_MSG"

text \<open>Answering one message after the other, up to the first that fails.\<close>

fun answers ::
  "('e \<Rightarrow> bytes \<Rightarrow> 'w \<Rightarrow> ('x + bytes) \<times> 'w) \<Rightarrow> (nat \<Rightarrow> 'e) \<Rightarrow> nat \<Rightarrow> bytes list \<Rightarrow> 'w \<Rightarrow>
     bytes list \<times> 'w" where
  "answers run envs n [] w = ([], w)"
| "answers run envs n (m # ms) w =
     (case run (envs n) m w of
        (Inl _, w') \<Rightarrow> ([], w')
      | (Inr reply, w') \<Rightarrow>
          (let rest = answers run envs (Suc n) ms w' in (reply # fst rest, snd rest)))"

lemma frames_simps [simp]: "frames [] = []" "frames (m # ms) = frame m @ frames ms"
  by (simp_all add: frames_def)

lemma frame_header:
  assumes "framable m"
  shows "unat (u16_from_be_bytes ((frame m @ rest) ! 0) ((frame m @ rest) ! 1)) = length m"
    and "drop 2 (frame m @ rest) = m @ rest" and "2 \<le> length (frame m @ rest)"
proof -
  from assms have "length m < 2 ^ 16" by (simp add: framable_def TCP_MAX_MSG_def)
  then have "unat (of_nat (length m) :: u16) = length m" by (simp add: unat_of_nat)
  then show "unat (u16_from_be_bytes ((frame m @ rest) ! 0) ((frame m @ rest) ! 1)) = length m"
    by (simp add: frame_def u16_to_be_bytes_def)
  show "drop 2 (frame m @ rest) = m @ rest" "2 \<le> length (frame m @ rest)"
    by (simp_all add: frame_def u16_to_be_bytes_def)
qed

lemma conn_loop_frame:
  assumes "framable m" and "run (envs n) m w = (r, w')"
  shows "conn_loop run envs (\<lambda>_. True) fin n (frame m @ rest) w =
     (case r of
        Inl _ \<Rightarrow> (Conn_Closed, [], w')
      | Inr reply \<Rightarrow>
          (let again = conn_loop run envs (\<lambda>_. True) fin (Suc n) rest w'
           in (fst again, frame reply @ fst (snd again), snd (snd again))))"
  using frame_header [OF assms(1), of rest] assms
  by (subst conn_loop.simps) (simp add: framable_def frame_def [of reply for reply] Let_def not_less
      split: sum.split)

section \<open>What the front ends owe their clients\<close>

context reply_service begin

lemma udp_ok_task:
  assumes ok: "udp_ok inv s" and t: "t \<in> set (us_tasks s)"
  shows "udp_ok inv (udp_task run_query env send_ok t s)"
proof -
  obtain r w where run: "run_query env (bm_data (fst t)) (us_world s) = (r, w)" by fastforce
  from ok have i: "inv (us_world s)" by (simp add: udp_ok_def)
  have "inv w" by (rule keeps_inv [OF i run])
  from ok t have task: "task_ok (us_received s) t" and pool: "pool_ok (us_pool s)"
    by (simp_all add: udp_ok_def)
  have put: "pool_ok (buffer_put (fst t) (us_pool s))"
    using pool_ok_put [OF pool, of "fst t"] task by (simp add: task_ok_def)
  have reply: "reply_ok (us_received s) (snd t, x)" if r: "r = Inr x" for x
  proof -
    from task obtain data where data: "(snd t, data) \<in> set (us_received s)"
      "bm_data (fst t) = take UDP_BUFFER_SIZE data" by (auto simp: task_ok_def)
    from reply_txid [OF i run [unfolded r]] data(2) have "txid_matches data x"
      by (simp add: txid_matches_take UDP_BUFFER_SIZE_def)
    with data(1) reply_fits [OF i run [unfolded r]] show ?thesis by (auto simp: reply_ok_def)
  qed
  have tasks: "\<forall>t' \<in> set (remove1 t (us_tasks s)). task_ok (us_received s) t'"
    using ok by (auto simp: udp_ok_def dest: notin_set_remove1)
  from ok \<open>inv w\<close> put reply tasks run show ?thesis
    by (auto simp: udp_task_def udp_ok_def Let_def split: sum.split)
qed

lemma udp_ok_step: "udp_ok inv s \<Longrightarrow> udp_step run_query s s' \<Longrightarrow> udp_ok inv s'"
  by (auto elim!: udp_step.cases intro: udp_ok_prepare udp_ok_receive udp_ok_task)

lemma conn_loop_frames:
  assumes "inv w" and "\<forall>m \<in> set ms. framable m"
    and "answers run_query envs n ms w = (replies, w')"
  shows "conn_loop run_query envs (\<lambda>_. True) Eof n (frames ms) w = (Conn_Closed, frames replies, w')
     \<and> inv w'"
  using assms
proof (induction ms arbitrary: n w replies)
  case Nil
  then show ?case by (simp add: conn_loop.simps [of _ _ _ _ _ "[]"] header_end_def)
next
  case (Cons m ms)
  obtain r w1 where run: "run_query (envs n) m w = (r, w1)" by fastforce
  from Cons.prems(2) have "framable m" by simp
  note frame = conn_loop_frame [where run = run_query and envs = envs and n = n and m = m, OF this run]
  note w1 = keeps_inv [OF Cons.prems(1) run]
  show ?case
  proof (cases r)
    case (Inl e)
    with Cons.prems(3) run frame w1 show ?thesis by simp
  next
    case (Inr reply)
    obtain rest w2 where rest: "answers run_query envs (Suc n) ms w1 = (rest, w2)" by fastforce
    from Cons.prems(3) run Inr rest have eq: "replies = reply # rest" "w' = w2"
      by (simp_all add: Let_def)
    have "conn_loop run_query envs (\<lambda>_. True) Eof (Suc n) (frames ms) w1 =
        (Conn_Closed, frames rest, w') \<and> inv w'"
      using Cons.prems(2) rest eq w1 by (intro Cons.IH) auto
    with frame Inr eq show ?thesis by (simp add: Let_def)
  qed
qed

lemma answers_echo:
  assumes "inv w" and "answers run_query envs n ms w = (replies, w')"
  shows "list_all2 txid_matches (take (length replies) ms) replies"
    and "\<forall>r \<in> set replies. framable r"
proof -
  have "list_all2 txid_matches (take (length replies) ms) replies \<and> (\<forall>r \<in> set replies. framable r)"
    using assms
  proof (induction ms arbitrary: n w w' replies)
    case (Cons m ms)
    obtain r w1 where run: "run_query (envs n) m w = (r, w1)" by fastforce
    show ?case
    proof (cases r)
      case (Inl e)
      with run Cons.prems(2) show ?thesis by simp
    next
      case (Inr reply)
      obtain rest w2 where rest: "answers run_query envs (Suc n) ms w1 = (rest, w2)" by fastforce
      note run' = run [unfolded Inr]
      have "framable reply"
        using reply_fits [OF Cons.prems(1) run'] reply_length_u16(2) [OF Cons.prems(1) run']
        by (auto simp: framable_def TCP_MAX_MSG_def RECV_BUF_def)
      moreover have "replies = reply # rest"
        using Cons.prems(2) run Inr rest by (simp add: Let_def)
      ultimately show ?thesis
        using Cons.IH [OF keeps_inv [OF Cons.prems(1) run] rest] reply_txid [OF Cons.prems(1) run']
        by simp
    qed
  qed simp
  then show "list_all2 txid_matches (take (length replies) ms) replies"
    "\<forall>r \<in> set replies. framable r" by simp_all
qed

end

sublocale reply_service \<subseteq> udp: step_invariant "udp_step run_query" "udp_ok inv"
  by unfold_locales (rule udp_ok_step)

text \<open>A client reads the replies back from the stream.\<close>

function unframe :: "bytes \<Rightarrow> bytes list option" where
  "unframe inp =
     (if inp = [] then Some []
      else if length inp < 2 then None
      else
        let n = unat (u16_from_be_bytes (inp ! 0) (inp ! 1)) in
        if length (drop 2 inp) < n then None
        else map_option (\<lambda>ms. take n (drop 2 inp) # ms) (unframe (drop n (drop 2 inp))))"
  by pat_completeness auto

termination unframe
  by (relation "measure length") auto

declare unframe.simps [simp del]

lemma unframe_frames: "\<forall>m \<in> set ms. framable m \<Longrightarrow> unframe (frames ms) = Some ms"
proof (induction ms)
  case Nil
  then show ?case by (simp add: unframe.simps)
next
  case (Cons m ms)
  then have m: "framable m" by simp
  from frame_header(3) [OF m, of "frames ms"] have "frame m @ frames ms \<noteq> []" by auto
  with frame_header [OF m, of "frames ms"] Cons show ?case
    by (subst unframe.simps) (simp add: Let_def not_less)
qed

section \<open>Which front end answers\<close>

text \<open>
  \<open>backend/src/main.rs\<close>, \<open>run\<close>: on the Monoio runtime UDP goes to the pinned workers, which
  hold the access list; TCP on either runtime, and UDP on Tokio, go to the handler.
\<close>

datatype runtime = Monoio | Tokio
datatype transport = Udp | Tcp

definition dns_reply ::
  "('rt, 'm, 'r, 'db, 'x) cache_libs_scheme \<Rightarrow> ('sock, 'q) queue_libs \<Rightarrow>
     ('net, 'ndb, 'y) acl_libs_scheme \<Rightarrow> 'net acl_entry list \<Rightarrow> runtime_config \<Rightarrow>
     runtime \<Rightarrow> transport \<Rightarrow> 'sock request \<Rightarrow> 'sock request \<Rightarrow> socket_addr \<Rightarrow> bytes \<Rightarrow>
     ('m, 'r, 'db, 'q) world \<Rightarrow> bytes option \<times> ('m, 'r, 'db, 'q) world" where
  "dns_reply L Q N acl cfg rt tr rq rq' src msg w =
     (case (rt, tr) of
        (Monoio, Udp) \<Rightarrow> datagram L Q N acl cfg rq rq' src msg w
      | (Tokio, Udp) \<Rightarrow>
          (case handle L Q cfg rq (take UDP_BUFFER_SIZE msg) w of (r, w') \<Rightarrow> (answer r, w'))
      | (_, Tcp) \<Rightarrow> (case handle L Q cfg rq msg w of (r, w') \<Rightarrow> (answer r, w')))"

end
