(* ===== verification/Samples.thy ===== *)
theory Samples
  imports Server "HOL-Library.List_Lexorder" "HOL-Library.Char_ord"
begin

text \<open>
  Concrete records for the libraries the model is parametric in, with proofs that they have
  the documented behaviour: a cache without eviction, two tables as lists, a bounded queue,
  a settings row, and networks as an address with a prefix length. The witnesses run on them.
\<close>

section \<open>Cache and tables\<close>

type_synonym sample_moka = "string \<Rightarrow> (l1_entry \<times> nat) option"
type_synonym sample_db = "string list \<times> string list"

definition sample_get :: "expiry \<Rightarrow> nat \<Rightarrow> string \<Rightarrow> sample_moka \<Rightarrow> l1_entry option \<times> sample_moka" where
  "sample_get x now k m =
     (case m k of
        Some (e, t) \<Rightarrow> (if now < t then (Some e, m) else (None, m))
      | None \<Rightarrow> (None, m))"

definition sample_insert :: "expiry \<Rightarrow> nat \<Rightarrow> string \<Rightarrow> l1_entry \<Rightarrow> sample_moka \<Rightarrow> sample_moka" where
  "sample_insert x now k e m =
     (let d = (case m k of None \<Rightarrow> on_create x k e now
               | Some (_, t) \<Rightarrow> on_update x k e now (Some (t - now)))
      in m(k := map_option (\<lambda>d. (e, now + d)) d))"

definition add_rows :: "string list \<Rightarrow> string list \<Rightarrow> string list" where
  "add_rows ds rows = remdups (filter (\<lambda>d. d \<notin> set rows) ds) @ rows"

fun sample_rows :: "domain_table \<Rightarrow> sample_db \<Rightarrow> domain_set" where
  "sample_rows Blocked_Table db = set (fst db)"
| "sample_rows Allowed_Table db = set (snd db)"

fun sample_select :: "domain_table \<Rightarrow> sample_db \<Rightarrow> string list" where
  "sample_select Blocked_Table db = fst db"
| "sample_select Allowed_Table db = snd db"

definition sample_cache_libs :: "(u16, sample_moka, unit, sample_db) cache_libs" where
  "sample_cache_libs = \<lparr>
     memchr_iter = memchr_iter sample_libs,
     heapless_write_str = heapless_write_str sample_libs,
     rt_from_u16 = rt_from_u16 sample_libs, rt_to_u16 = rt_to_u16 sample_libs,
     rt_display = rt_display sample_libs, rt_A = rt_A sample_libs, rt_AAAA = rt_AAAA sample_libs,
     rc_to_u16 = rc_to_u16 sample_libs, unicode_lowercase = unicode_lowercase sample_libs,
     moka_insert = sample_insert, moka_get = sample_get, moka_entry_count = (\<lambda>_. 0),
     redis_feature = False, redis_get = (\<lambda>_ _ r. (Inr None, r)), redis_setex = (\<lambda>_ _ _ _ r. r),
     sql_insert_blocked = (\<lambda>_ ds db.
       (Inr (length (add_rows ds (fst db)) - length (fst db)), (add_rows ds (fst db), snd db))),
     sql_insert_allowed = (\<lambda>ds db.
       (Inr (length (add_rows ds (snd db)) - length (snd db)), (fst db, add_rows ds (snd db)))),
     sql_delete_blocked = (\<lambda>d db. (Inr (), (filter (\<lambda>x. x \<noteq> d) (fst db), snd db))),
     sql_select_domains = (\<lambda>tbl db. map Inr (sample_select tbl db)),
     sql_page_domains = (\<lambda>tbl limit offset db.
       (Inr (take (unat limit) (drop (unat offset) (sort (sample_select tbl db)))), db)),
     sql_count_domains = (\<lambda>tbl db. (Inr (of_nat (length (sample_select tbl db))), db))\<rparr>"

lemma sample_dns_laws [simp]:
  "memchr_law sample_cache_libs" "heapless_law sample_cache_libs"
  "record_type_law sample_cache_libs" "response_code_law sample_cache_libs"
  "lowercase_law sample_cache_libs" "\<not> redis_feature sample_cache_libs"
  using sample_libs_laws sample_libs_lowercase
  by (simp_all add: sample_cache_libs_def memchr_law_def heapless_law_def record_type_law_def
      response_code_law_def lowercase_law_def)

lemma sample_moka_law [simp]: "moka_law sample_cache_libs (\<lambda>m. m)"
proof -
  have "moka_returns_stored sample_cache_libs (\<lambda>m. m)"
    by (auto simp: moka_returns_stored_def sample_cache_libs_def sample_get_def
        split: option.splits if_splits)
  moreover have "moka_get_keeps sample_cache_libs (\<lambda>m. m)"
    by (auto simp: moka_get_keeps_def sample_cache_libs_def sample_get_def split: option.splits)
  moreover have "moka_insert_keeps sample_cache_libs (\<lambda>m. m)"
    by (simp add: moka_insert_keeps_def sample_cache_libs_def sample_insert_def Let_def)
  moreover have "moka_insert_stores sample_cache_libs (\<lambda>m. m)"
    by (auto simp: moka_insert_stores_def sample_cache_libs_def sample_insert_def Let_def
        split: option.splits)
  ultimately show ?thesis by (simp add: moka_law_def)
qed

lemma add_rows_count: "length (add_rows ds rows) - length rows = card (set ds - set rows)"
proof -
  have "set ds - set rows = set (filter (\<lambda>d. d \<notin> set rows) ds)" by auto
  then show ?thesis by (simp add: add_rows_def length_remdups_card_conv)
qed

lemma set_add_rows [simp]: "set (add_rows ds rows) = set rows \<union> set ds"
  by (auto simp: add_rows_def)

lemma set_sample_select [simp]: "set (sample_select tbl db) = sample_rows tbl db"
  by (cases tbl) simp_all

lemma sample_sql_law [simp]: "sql_law sample_cache_libs sample_rows"
proof -
  have "set xs = sample_rows tbl db" if "map Inr (sample_select tbl db) = map Inr xs" for tbl db xs
  proof -
    from that have "sample_select tbl db = xs" by (simp add: inj_map_eq_map inj_def)
    then show ?thesis using set_sample_select by metis
  qed
  then show ?thesis
    by (auto simp: sql_law_def sample_cache_libs_def add_rows_count)
qed

section \<open>Sockets\<close>

definition sample_queue :: "(nat, nat \<times> nat list) queue_libs" where
  "sample_queue = \<lparr>
     queue_new = (\<lambda>n. (n, [])),
     queue_pop = (\<lambda>q. case snd q of [] \<Rightarrow> None | s # ss \<Rightarrow> Some (s, (fst q, ss))),
     queue_push = (\<lambda>s q. (fst q, if length (snd q) < fst q then snd q @ [s] else snd q))\<rparr>"

lemma sample_queue_law [simp]: "queue_law sample_queue (\<lambda>q. q)"
  by (auto simp: queue_law_def sample_queue_def split: list.splits)

section \<open>Networks\<close>

type_synonym sample_net = "ip_addr \<times> nat"

fun sample_contains :: "sample_net \<Rightarrow> ip_addr \<Rightarrow> bool" where
  "sample_contains (V4 n, p) (V4 a) = (drop_bit (32 - p) n = drop_bit (32 - p) a)"
| "sample_contains (V6 n, p) (V6 a) = (drop_bit (128 - p) n = drop_bit (128 - p) a)"
| "sample_contains _ _ = False"

definition sample_net_parse :: "string \<Rightarrow> sample_net option" where
  "sample_net_parse s =
     (if s = ''10.0.0.0/8'' then Some (V4 0x0A000000, 8)
      else if s = ''192.168.0.0/16'' then Some (V4 0xC0A80000, 16)
      else None)"

definition sample_acl_libs :: "(sample_net, access_row list) acl_libs" where
  "sample_acl_libs = \<lparr>net_contains = sample_contains, net_parse = sample_net_parse,
     sql_create_access = (\<lambda>db. (Inr (), db)), sql_select_access = (\<lambda>db. (Inr db, db))\<rparr>"

section \<open>The settings row\<close>

text \<open>A text form of the configuration: every number as its binary digits.\<close>

definition word_text :: "'a::len word \<Rightarrow> string" where
  "word_text w = map (\<lambda>i. if bit w i then CHR ''1'' else CHR ''0'') [0..<LENGTH('a)]"

definition text_word :: "string \<Rightarrow> 'a::len word" where
  "text_word s = horner_sum of_bool 2 (map (\<lambda>c. c = CHR ''1'') s)"

lemma text_word_text [simp]: "text_word (word_text w) = w"
proof -
  have "map (\<lambda>c. c = CHR ''1'') (word_text w) = map (bit w) [0..<LENGTH('a)]"
    by (simp add: word_text_def comp_def)
  then show ?thesis by (simp add: text_word_def horner_sum_bit_eq_take_bit)
qed

lemma length_word_text [simp]: "length (word_text (w :: 'a::len word)) = LENGTH('a)"
  by (simp add: word_text_def)

fun socket_text :: "socket_addr \<Rightarrow> string" where
  "socket_text (SocketV4 a p) = CHR ''4'' # word_text a @ word_text p"
| "socket_text (SocketV6 a p f s) = CHR ''6'' # word_text a @ word_text p @ word_text f @ word_text s"

function text_sockets :: "string \<Rightarrow> socket_addr list \<times> string" where
  "text_sockets s =
     (if s \<noteq> [] \<and> hd s = CHR ''4'' then
        (let rest = text_sockets (drop 49 s) in
         (SocketV4 (text_word (take 32 (drop 1 s))) (text_word (take 16 (drop 33 s))) # fst rest,
          snd rest))
      else if s \<noteq> [] \<and> hd s = CHR ''6'' then
        (let rest = text_sockets (drop 209 s) in
         (SocketV6 (text_word (take 128 (drop 1 s))) (text_word (take 16 (drop 129 s)))
            (text_word (take 32 (drop 145 s))) (text_word (take 32 (drop 177 s))) # fst rest,
          snd rest))
      else ([], s))"
  by pat_completeness auto
termination
  by (relation "measure length") auto

declare text_sockets.simps [simp del]

lemma text_sockets_step:
  "text_sockets (socket_text a @ s) = (a # fst (text_sockets s), snd (text_sockets s))"
  by (cases a; subst text_sockets.simps) (simp_all add: Let_def drop_Cons' take_Cons')

lemma text_sockets_text:
  "s = [] \<or> hd s \<notin> {CHR ''4'', CHR ''6''} \<Longrightarrow>
     text_sockets (concat (map socket_text as) @ s) = (as, s)"
  by (induction as) (auto simp: text_sockets_step text_sockets.simps [of s] simp del: append_assoc
      simp add: append_assoc)

fun mode_text :: "blocking_mode \<Rightarrow> char" where
  "mode_text NxDomain = CHR ''n''" | "mode_text Mode_Refused = CHR ''r''" | "mode_text ZeroIp = CHR ''z''"

definition config_text :: "runtime_config \<Rightarrow> string" where
  "config_text c = concat (map socket_text (upstreams c)) @ mode_text (blocking_mode c) #
     word_text (upstream_timeout_ms c) @ word_text (cache_min_ttl c) @ word_text (cache_max_ttl c) @
     word_text (neg_ttl c)"

definition text_config :: "string \<Rightarrow> runtime_config option" where
  "text_config s =
     (case text_sockets s of
        (as, []) \<Rightarrow> None
      | (as, m # r) \<Rightarrow>
          (if length r \<noteq> 160 then None
           else Some \<lparr>upstreams = as, upstream_timeout_ms = text_word (take 64 r),
             blocking_mode = (if m = CHR ''n'' then NxDomain else if m = CHR ''r'' then Mode_Refused else ZeroIp),
             cache_min_ttl = text_word (take 32 (drop 64 r)),
             cache_max_ttl = text_word (take 32 (drop 96 r)),
             neg_ttl = text_word (drop 128 r)\<rparr>))"

lemma text_config_text: "text_config (config_text c) = Some c"
proof -
  have "text_sockets (config_text c) = (upstreams c, drop (length (concat (map socket_text (upstreams c)))) (config_text c))"
    unfolding config_text_def by (subst text_sockets_text) (cases "blocking_mode c"; simp)+
  then show ?thesis
    by (cases "blocking_mode c") (simp_all add: text_config_def config_text_def)
qed

definition sample_settings :: "string option settings_libs" where
  "sample_settings = \<lparr>to_json = config_text, from_json = text_config,
     create_settings = (\<lambda>db. (Inr (), db)), select_config = (\<lambda>db. (Inr db, db)),
     upsert_config = (\<lambda>s db. (Inr (), Some s))\<rparr>"

lemma sample_settings_law [simp]: "settings_law sample_settings (\<lambda>db. db)"
  by (simp add: settings_law_def sample_settings_def text_config_text)

end
