(* ===== verification/Wire_Properties.thy ===== *)
theory Wire_Properties
  imports Samples
begin

text \<open>
  What the parser of \<open>handler/parser.rs\<close>, the reply builders of \<open>handler/upstream.rs\<close> and the
  domain rules of \<open>repo/cache.rs\<close> promise, as theorems about the definitions of
  \<open>Parser\<close>, \<open>Responses\<close> and \<open>Domains\<close>.
\<close>

section \<open>Parsing\<close>

text \<open>A query for \<open>wWw.Example.com\<close>, type A, and its header.\<close>

definition sample_header :: bytes where
  "sample_header = [0xAB, 0xCD, 1, 0, 0, 1, 0, 0, 0, 0, 0, 0]"

definition sample_labels :: "bytes list" where
  "sample_labels = [[119, 87, 119], [69, 120, 97, 109, 112, 108, 101], [99, 111, 109]]"

definition sample_packet :: bytes where
  "sample_packet = question_packet sample_header sample_labels 1 [0, 1]"

definition sample_query :: "u16 query" where
  "sample_query = \<lparr>q_name = ''www.example.com'', q_type = 1, q_raw = sample_packet,
     q_answer_offset = 33\<rparr>"

lemma sample_header_length: "length sample_header = HEADER"
  by (simp add: sample_header_def HEADER_def)

lemma sample_labels_ok: "\<forall>l \<in> set sample_labels. label_ok l"
  by (simp add: sample_labels_def label_ok_def MAX_LABEL_def)

lemma sample_labels_length: "length (encode_labels sample_labels) = 16"
  by (simp add: sample_labels_def)

lemma sample_name: "from_utf8_lossy (lowered (dotted sample_labels)) = ''www.example.com''"
  by code_simp

text \<open>
  C8: a packet made of a header, an encoded name of at most 255 octets, a type and anything
  after it parses to the name in lower case with dots, the type, and the offset just behind
  type and class; an encoded name that is longer is refused.
\<close>

theorem encoded_question_parses:
  assumes "length hdr = HEADER" and "\<forall>l \<in> set ls. label_ok l"
  shows "parse_udp L (question_packet hdr ls t rest) =
    (if length (encode_labels ls) \<le> MAX_NAME
     then Inr \<lparr>q_name = from_utf8_lossy (lowered (dotted ls)), q_type = rt_from_u16 L t,
            q_raw = question_packet hdr ls t rest,
            q_answer_offset = HEADER + length (encode_name ls) + 4\<rparr>
     else Inl NameTooLong)"
  by (rule parse_udp_question_packet [OF assms])

lemma encoded_question_parses_witness:
  "parse_udp sample_libs sample_packet = Inr sample_query"
  using encoded_question_parses [OF sample_header_length sample_labels_ok, of sample_libs 1 "[0, 1]"]
  by (simp add: sample_packet_def sample_query_def sample_labels_length sample_name encode_name_def
      parser_limits sample_libs_def)

text \<open>
  C9: whatever packet parses, its name comes from labels of 1 to 63 octets written in the
  packet from octet 12 on, 255 octets at most, or from such labels followed by a length octet
  and a zero octet; the type is the two octets behind the name's end.
\<close>

theorem parsed_question_is_encoded:
  assumes "parse_udp L data = Inr q"
  shows "\<exists>ls name stop. (\<forall>l \<in> set ls. label_ok l) \<and> length (encode_labels ls) \<le> MAX_NAME \<and>
    (regular_parse data HEADER name stop ls \<or> zero_label_parse data HEADER name stop ls) \<and>
    q_name q = from_utf8_lossy name \<and> stop + 2 < length data \<and>
    q_type q = rt_from_u16 L (u16_from_be_bytes (data ! (stop + 1)) (data ! (stop + 2))) \<and>
    q_raw q = data \<and> q_answer_offset q = stop + 5"
proof -
  from parse_udp_InrE [OF assms] obtain name stop hi lo where
    p: "parse_question data = Inr (name, stop)"
    and b: "slice_get data (stop + 1) = Some hi" "slice_get data (stop + 2) = Some lo"
    and q: "q = \<lparr>q_name = from_utf8_lossy name, q_type = rt_from_u16 L (u16_from_be_bytes hi lo),
          q_raw = data, q_answer_offset = stop + 5\<rparr>" .
  from parse_question_accepts [OF p] obtain ls where
    "\<forall>l \<in> set ls. label_ok l" "length (encode_labels ls) \<le> MAX_NAME"
    "regular_parse data HEADER name stop ls \<or> zero_label_parse data HEADER name stop ls" .
  with b q show ?thesis by (auto simp: slice_get_Some_iff)
qed

lemma sample_packet_parses: "parse_udp sample_libs sample_packet = Inr sample_query"
  using parse_udp_question_packet [OF sample_header_length sample_labels_ok, of sample_libs 1 "[0, 1]"]
  by (simp add: sample_packet_def sample_query_def sample_labels_length sample_name encode_name_def
      parser_limits sample_libs_def)

lemma parsed_question_is_encoded_witness:
  "\<exists>ls name stop. (\<forall>l \<in> set ls. label_ok l) \<and> length (encode_labels ls) \<le> MAX_NAME \<and>
    (regular_parse sample_packet HEADER name stop ls \<or>
     zero_label_parse sample_packet HEADER name stop ls) \<and>
    ''www.example.com'' = from_utf8_lossy name \<and> stop + 2 < length sample_packet \<and>
    (1 :: u16) = u16_from_be_bytes (sample_packet ! (stop + 1)) (sample_packet ! (stop + 2)) \<and>
    33 = stop + 5"
  using parsed_question_is_encoded [OF sample_packet_parses]
  by (simp add: sample_query_def sample_libs_def)

text \<open>
  The parser never hands on an offset or a name the rest of the program could fall over:
  the packet is kept, the answer offset is at most two octets past its end, the name is lower
  case before decoding, of at most 255 octets, and so of at most 765 after it.
\<close>

lemma parsed_query_bounds:
  assumes "parse_udp L data = Inr q"
  shows "q_raw q = data \<and> HEADER + 5 \<le> q_answer_offset q \<and> q_answer_offset q \<le> length data + 2 \<and>
    q_answer_offset q \<le> HEADER + MAX_NAME + 6 \<and> length (q_name q) \<le> 3 * MAX_NAME"
proof -
  from parse_udp_InrE [OF assms] obtain name stop hi lo where
    p: "parse_question data = Inr (name, stop)" and name: "q_name q = from_utf8_lossy name"
    by (metis query.select_convs(1))
  have "length (q_name q) \<le> 3 * length name"
    using lossy_bytes_length [of name] by (simp add: name from_utf8_lossy_def)
  with parse_question_bounds(1) [OF p] parse_udp_query_ok [OF assms] parse_udp_raw [OF assms]
  show ?thesis by (simp add: query_ok_def)
qed

lemma parsed_query_bounds_witness:
  "q_raw sample_query = sample_packet \<and> q_answer_offset sample_query \<le> length sample_packet + 2 \<and>
    length (q_name sample_query) \<le> 765"
  using parsed_query_bounds [OF sample_packet_parses] by (simp add: parser_limits)

lemma parse_loop_labels:
  assumes "\<forall>l \<in> set ls. label_ok l" and "length buf + length (encode_labels ls) \<le> MAX_NAME"
    and "data = pre @ encode_labels ls @ c # rest" and "c \<noteq> 0" and "idx = length pre"
  shows "\<exists>m. parse_loop data idx n Length buf =
    parse_loop data (idx + length (encode_labels ls)) m Length (buf @ lowered (dot_terminated ls))"
  using assms
proof (induction ls arbitrary: buf pre idx n)
  case Nil
  then show ?case by auto
next
  case (Cons l ls)
  from Cons.prems(1) have l: "label_ok l" by simp
  obtain c' rest' where next_byte: "encode_labels ls @ c # rest = c' # rest'" "c' \<noteq> 0"
    using Cons.prems(1,4) by (cases ls) (auto dest: label_ok_length(2))
  have "parse_loop data idx n Length buf =
      parse_loop data (idx + length (encode_label l)) (length l) Length (buf @ lowered l @ [46])"
    using parse_loop_label [OF l _ Cons.prems(5), where data = data and c = c' and rest = rest' and n = n and buf = buf]
      next_byte Cons.prems(2,3) by (simp add: encode_label_def)
  moreover have "\<exists>m. parse_loop data (idx + length (encode_label l)) (length l) Length (buf @ lowered l @ [46]) =
      parse_loop data (idx + length (encode_label l) + length (encode_labels ls)) m Length
        ((buf @ lowered l @ [46]) @ lowered (dot_terminated ls))"
    using Cons.prems by (intro Cons.IH [of _ "pre @ encode_label l"]) (simp_all add: encode_label_def)
  ultimately show ?case by (simp add: encode_label_def add.assoc)
qed



text \<open>
  C40: the dotted name does not tell a dot inside a label from the boundary of two labels: a
  name with a label that contains a dot parses to the name, and the offset, of the other.
\<close>

theorem dots_inside_labels_lost:
  assumes "length hdr = HEADER" and "label_ok l" and "label_ok m" and "length (l @ 46 # m) \<le> MAX_LABEL"
    and "\<forall>k \<in> set ls. label_ok k" and "length (encode_labels ls) \<le> 100"
  shows "\<exists>q q'. parse_udp L (question_packet hdr (l # m # ls) t rest) = Inr q \<and>
    parse_udp L (question_packet hdr ((l @ 46 # m) # ls) t rest) = Inr q' \<and>
    q_name q = q_name q' \<and> q_type q = q_type q' \<and> q_answer_offset q = q_answer_offset q' \<and>
    q_raw q \<noteq> q_raw q'"
proof -
  have ok: "\<forall>k \<in> set (l # m # ls). label_ok k" "\<forall>k \<in> set ((l @ 46 # m) # ls). label_ok k"
    using assms by (auto simp: label_ok_def)
  have same: "dotted (l # m # ls) = dotted ((l @ 46 # m) # ls)" by (simp add: dotted_Cons)
  have "unat (of_nat (length l) :: u8) \<noteq> unat (of_nat (length (l @ 46 # m)) :: u8)"
    using label_ok_length(1) [OF assms(2)] label_ok_length(1) [of "l @ 46 # m"] ok by simp
  then have "(of_nat (length l) :: u8) \<noteq> of_nat (length (l @ 46 # m))" by metis
  then have diff: "question_packet hdr (l # m # ls) t rest \<noteq> question_packet hdr ((l @ 46 # m) # ls) t rest"
    by (simp add: question_packet_def encode_name_def)
  show ?thesis
    using parse_udp_question_packet [OF assms(1) ok(1), of L t rest]
      parse_udp_question_packet [OF assms(1) ok(2), of L t rest] same diff assms(4,6)
    by (simp add: parser_limits encode_name_def)
qed

lemma dots_inside_labels_lost_witness:
  "\<exists>q q'. parse_udp sample_libs (question_packet sample_header [[97], [98]] 1 []) = Inr q \<and>
    parse_udp sample_libs (question_packet sample_header [[97, 46, 98]] 1 []) = Inr q' \<and>
    q_name q = q_name q' \<and> q_raw q \<noteq> q_raw q'"
  using dots_inside_labels_lost [OF sample_header_length, of "[97]" "[98]" "[]" sample_libs 1 "[]"]
  by (auto simp: label_ok_def parser_limits)

section \<open>Replies made locally\<close>

lemma sample_query_ok: "query_ok sample_query"
  by (rule parse_udp_query_ok [OF sample_packet_parses])

definition blocked_code :: "('rt, 'x) dns_libs_scheme \<Rightarrow> 'rt query \<Rightarrow> blocking_mode \<Rightarrow> response_code" where
  "blocked_code L q mode =
     (case mode of
        NxDomain \<Rightarrow> NXDomain
      | Mode_Refused \<Rightarrow> RC_Refused
      | ZeroIp \<Rightarrow> (if zero_ip_for L (q_type q) = None then NXDomain else NoError))"

text \<open>
  C29: the reply for a blocked name, in every blocking mode: it carries the transaction id, the
  opcode is zero and only the RD bit is copied, the code is the one of the mode, the question
  is repeated, and the record counts are the query's QDCOUNT, 1 exactly for a sinkhole
  address, 0 and 0.
\<close>

theorem blocked_reply_contract:
  assumes "parse_udp L data = Inr q"
  shows "let reply = resp_raw (blocked L q mode); code = blocked_code L q mode in
    txid_matches data reply \<and> reply ! 2 AND 0xFB = 0x80 OR (data ! 2 AND 1) \<and>
    rcode_from_raw reply = code \<and> resp_code (blocked L q mode) = code \<and>
    take 2 (drop 4 reply) = take 2 (drop 4 data) \<and>
    take 6 (drop 6 reply) =
      u16_to_be_bytes (if code = NoError then 1 else 0) @ u16_to_be_bytes 0 @ u16_to_be_bytes 0 \<and>
    take (length (question_of q) - 12) (drop 12 reply) = drop 12 (question_of q)"
proof -
  note ok = parse_udp_query_ok [OF assms]
  note code = resp_code_blocked [OF ok, of L mode, symmetric]
  show ?thesis
    unfolding Let_def code parse_udp_raw [OF assms, symmetric]
    using nx.echoes_txid [OF ok] nx.flags [OF ok] nx.rcode [OF ok] nx.qdcount [OF ok] nx.counts [OF ok]
      nx.question [OF ok] rf.echoes_txid [OF ok] rf.flags [OF ok] rf.rcode [OF ok] rf.qdcount [OF ok]
      rf.counts [OF ok] rf.question [OF ok] zip.echoes_txid [OF ok] zip.flags [OF ok] zip.rcode [OF ok]
      zip.qdcount [OF ok] zip.counts [OF ok] zip.question [OF ok]
    by (simp add: blocked_def blocked_code_def split: blocking_mode.split option.split)
qed

lemma blocked_reply_contract_witness:
  "rcode_from_raw (resp_raw (blocked sample_libs sample_query ZeroIp)) = NoError \<and>
   txid_matches sample_packet (resp_raw (blocked sample_libs sample_query ZeroIp))"
  using blocked_reply_contract [OF sample_packet_parses, of ZeroIp]
  by (simp add: Let_def blocked_code_def zero_ip_for_def sample_query_def sample_libs_def)

text \<open>
  The sinkhole reply for an A or AAAA query that has its class ends in one record that
  points to the question's name, with the type of the address family, class IN, 60 seconds
  and the unspecified address; the server's own reader finds those 60 seconds behind the
  question, so a client may keep the answer that long.
\<close>

lemma sinkhole_reply:
  assumes p: "parse_udp L data = Inr q" and full: "q_answer_offset q \<le> length data"
    and ip: "zero_ip_for L (q_type q) = Some ip"
  shows "(ip = V4 0 \<or> ip = V6 0) \<and>
    drop (q_answer_offset q) (resp_raw (blocked L q ZeroIp)) = address_record ip \<and>
    parse_ttl (resp_raw (blocked L q ZeroIp)) (q_answer_offset q) = 60 \<and>
    length (address_record ip) = (if ip = V4 0 then 16 else 28)"
proof -
  note ok = parse_udp_query_ok [OF p] and raw = parse_udp_raw [OF p]
  have "blocked L q ZeroIp = zero_ip q ip" using ip by (simp add: blocked_def)
  moreover have "length (sinkhole_header q) = q_answer_offset q"
    using full by (simp add: question_of_def raw)
  moreover have "ip = V4 0 \<or> ip = V6 0"
    using ip by (auto simp: zero_ip_for_def split: if_splits)
  ultimately show ?thesis
    using zero_ip_parse_ttl [OF ok, of ip] full
    by (auto simp: zero_ip_raw [OF ok] raw SINKHOLE_TTL_def address_record_def address_rdata_def
        octets_v4_def octets_v6_def)
qed

lemma sinkhole_reply_witness:
  "drop 33 (resp_raw (blocked sample_libs sample_query ZeroIp)) =
     [0xC0, 0x0C, 0, 1, 0, 1, 0, 0, 0, 60, 0, 4, 0, 0, 0, 0]"
proof -
  have "address_record (V4 0) = [0xC0, 0x0C, 0, 1, 0, 1, 0, 0, 0, 60, 0, 4, 0, 0, 0, 0]"
    by code_simp
  then show ?thesis
    using sinkhole_reply [OF sample_packet_parses, of "V4 0"]
    by (simp add: zero_ip_for_def sample_query_def sample_libs_def sample_packet_def
        question_packet_def sample_header_def sample_labels_def encode_name_def)
qed

section \<open>Domain rules\<close>

text \<open>
  C7: a name is blocked exactly when some listed domain equals it or is a suffix of it at
  whole labels, and no allowed domain is; the loops over the dots of the name, with their
  early exits, compute this.
\<close>

theorem decide_by_labels:
  assumes "memchr_law L"
  shows "decide L block allow name \<longleftrightarrow>
    (\<exists>d \<in> block. suffix (split_on CHR ''.'' d) (split_on CHR ''.'' name)) \<and>
    \<not> (\<exists>a \<in> allow. suffix (split_on CHR ''.'' a) (split_on CHR ''.'' name))"
  unfolding decide_iff [OF assms] covered_by_def covers_labels ..

lemma decide_by_labels_witness:
  "decide sample_libs {''example.com''} {} ''www.example.com'' \<and>
   \<not> decide sample_libs {''example.com''} {} ''badexample.com'' \<and>
   \<not> decide sample_libs {''example.com''} {''www.example.com''} ''a.www.example.com''"
  by (simp add: decide_by_labels [OF sample_libs_laws(1)] suffix_def)

text \<open>
  C34: every domain that reaches a list is a valid domain in lower case, so it is what a query
  name can be compared with; normalising again changes nothing, and never adds a domain.
\<close>

theorem normalized_domains_normal:
  assumes "lowercase_law L"
  shows "(\<forall>d \<in> set (normalize_domains L ds). is_valid_domain d \<and> ascii_lowercase d = d) \<and>
    normalize_domains L (normalize_domains L ds) = normalize_domains L ds \<and>
    length (normalize_domains L ds) \<le> length ds"
  using normalize_domains_normal [OF assms] normalize_domains_idem [OF assms] length_normalize_domains
  by (auto simp: normal_domain_def)

lemma normalized_domains_normal_witness:
  "normalize_domains sample_libs (normalize_domains sample_libs ['' Ads.Example.COM. '', ''bad_domain!'']) =
   normalize_domains sample_libs ['' Ads.Example.COM. '', ''bad_domain!'']"
  using normalized_domains_normal [OF sample_libs_lowercase] by blast

lemma to_lowercase_fixed:
  assumes "list_all (\<lambda>c. is_ascii (byte_of_char c) \<and> to_ascii_lowercase (byte_of_char c) = byte_of_char c) s"
  shows "to_lowercase L s = s"
  using assms
  by (auto simp: to_lowercase_def ascii_string_def ascii_lowercase_def list_all_iff intro: map_idI)

lemma sample_line: "parse_domain_list sample_libs ''0.0.0.0 ads.example.com # x'' = [''ads.example.com'']"
proof -
  have tokens: "split_whitespace (trim (hd (split_on CHR ''#'' ''0.0.0.0 ads.example.com # x''))) =
      [''0.0.0.0'', ''ads.example.com'']"
    and line: "text_lines ''0.0.0.0 ads.example.com # x'' = [''0.0.0.0 ads.example.com # x'']"
    and some: "trim (hd (split_on CHR ''#'' ''0.0.0.0 ads.example.com # x'')) \<noteq> []"
    and ip: "is_ip_addr ''0.0.0.0''"
    and dots: "trim_end_dots ''ads.example.com'' = ''ads.example.com''"
    and valid: "is_valid_domain ''ads.example.com''"
    by code_simp+
  have "to_lowercase sample_libs ''ads.example.com'' = ''ads.example.com''"
    by (rule to_lowercase_fixed) code_simp
  then have "accept_domain sample_libs ''ads.example.com'' = [''ads.example.com'']"
    by (simp only: accept_domain_def Let_def dots valid if_True)
  then show ?thesis
    unfolding parse_domain_list_def line parse_domain_line_def Let_def
    by (simp only: list.map concat.simps some if_False tokens list.case ip if_True append_Nil2)
qed

text \<open>
  A downloaded list yields only valid domains in lower case; adding what it yields drops
  none of them, so the count of considered domains is the count of the list.
\<close>

lemma downloaded_list_normal:
  assumes "lowercase_law L"
  shows "(\<forall>d \<in> set (parse_domain_list L body). is_valid_domain d \<and> ascii_lowercase d = d) \<and>
    normalize_domains L (parse_domain_list L body) = parse_domain_list L body"
  using parse_domain_list_normal [OF assms] normalize_parsed_list [OF assms]
  by (auto simp: normal_domain_def)

lemma downloaded_list_normal_witness:
  "parse_domain_list sample_libs ''0.0.0.0 ads.example.com # x'' = [''ads.example.com''] \<and>
   normalize_domains sample_libs [''ads.example.com''] = [''ads.example.com'']"
  using downloaded_list_normal [OF sample_libs_lowercase, of "''0.0.0.0 ads.example.com # x''"]
  unfolding sample_line by simp

end
