(* ===== verification/Cache_Properties.thy ===== *)
theory Cache_Properties
  imports Wire_Properties
begin

text \<open>
  What the cache of \<open>repo/cache.rs\<close>, the TTL rule of \<open>handler/query.rs\<close>, the upstream pool of
  \<open>handler/upstream.rs\<close> and the settings of \<open>config.rs\<close> promise, with runs on the sample
  libraries as witnesses.
\<close>

section \<open>The domain lists\<close>

definition sample_cache :: "(sample_moka, unit, sample_db) cache" where
  "sample_cache = \<lparr>c_l1 = (\<lambda>_. None), c_allow = {}, c_block = {}, c_rds = (), c_db = ([], [])\<rparr>"

lemma sample_consistent: "consistent_cache sample_cache_libs sample_rows sample_cache"
  by (simp add: consistent_cache_def memory_matches_db_def sample_cache_def)

lemma sample_normalize:
  "normalize_domains sample_cache_libs [''ads.example.com'', ''nodot''] = [''ads.example.com'']"
proof -
  have t: "trim_end_dots (trim ''ads.example.com'') = ''ads.example.com''"
    "trim_end_dots (trim ''nodot'') = ''nodot''" "is_valid_domain ''ads.example.com''"
    "\<not> is_valid_domain ''nodot''"
    by code_simp+
  have "to_lowercase sample_cache_libs ''ads.example.com'' = ''ads.example.com''"
    "to_lowercase sample_cache_libs ''nodot'' = ''nodot''"
    by (rule to_lowercase_fixed, code_simp)+
  with t show ?thesis by (simp only: normalize_domains_def list.map filter.simps if_True if_False)
qed

lemma sample_add_run:
  "add_block_domains sample_cache_libs ''main'' [''ads.example.com'', ''nodot''] sample_cache =
     (Inr \<lparr>added = 1, considered = 1\<rparr>,
      sample_cache\<lparr>c_block := {''ads.example.com''}, c_db := ([''ads.example.com''], [])\<rparr>)"
  by (simp add: add_block_domains_def sample_normalize Let_def chunks.simps MAX_INSERT_CHUNK_def)
    (simp add: sample_cache_libs_def sample_cache_def add_rows_def)

text \<open>
  C28: adding to the block list reports as considered the valid domains of the request and as
  added those the table did not hold, in whatever chunks they were inserted; so added never
  exceeds considered, nor considered the request; memory and table both gain them all.
\<close>

theorem added_domains_counted:
  assumes "sql_law L rows" and "add_block_domains L list ds c = (Inr out, c')"
  shows "added out = card (set (normalize_domains L ds) - rows Blocked_Table (c_db c)) \<and>
    considered out = length (normalize_domains L ds) \<and>
    added out \<le> considered out \<and> considered out \<le> length ds \<and>
    rows Blocked_Table (c_db c') = rows Blocked_Table (c_db c) \<union> set (normalize_domains L ds) \<and>
    rows Allowed_Table (c_db c') = rows Allowed_Table (c_db c) \<and>
    c_block c' = c_block c \<union> set (normalize_domains L ds) \<and> c_allow c' = c_allow c"
  using add_block_domains_Ok [OF assms] length_distinct_bound [of "normalize_domains L ds"]
    length_normalize_domains [of L ds] add_block_domains_memory [of L list ds c] assms(2)
  by simp

lemma added_domains_counted_witness:
  "\<exists>out c'. add_block_domains sample_cache_libs ''main'' [''ads.example.com'', ''nodot''] sample_cache =
      (Inr out, c') \<and> added out \<le> considered out \<and> considered out \<le> 2 \<and>
      c_block c' = {''ads.example.com''}"
  using added_domains_counted [OF sample_sql_law sample_add_run]
  by (simp add: sample_add_run sample_normalize)

text \<open>
  C15: in a state that memory and tables agree on, every sequence of management operations
  that report success keeps them in agreement; a restart, which reads both tables into empty
  sets, gives the same state back.
\<close>

theorem lists_survive_restart:
  assumes "consistent_cache L rows c" and "(admin_step L)\<^sup>*\<^sup>* c c'"
    and "sql_select_domains L Blocked_Table (c_db c') = map Inr bs"
    and "sql_select_domains L Allowed_Table (c_db c') = map Inr as"
  shows "memory_matches_db rows c' \<and>
    read_allowlist_db_memory L (read_blocklist_db_memory L (c'\<lparr>c_block := {}, c_allow := {}\<rparr>)) = c'"
proof -
  from admin.reach_inv [OF assms(2,1)] have inv: "consistent_cache L rows c'" .
  with reload_consistent [OF inv assms(3,4)] show ?thesis
    by (simp add: consistent_cache_def)
qed

lemma lists_survive_restart_witness:
  "memory_matches_db sample_rows
     (sample_cache\<lparr>c_block := {''ads.example.com''}, c_db := ([''ads.example.com''], [])\<rparr>)"
proof -
  have "(admin_step sample_cache_libs)\<^sup>*\<^sup>* sample_cache
      (sample_cache\<lparr>c_block := {''ads.example.com''}, c_db := ([''ads.example.com''], [])\<rparr>)"
    by (rule r_into_rtranclp) (rule admin_step.block [OF sample_add_run])
  from lists_survive_restart [OF sample_consistent this, of "[''ads.example.com'']" "[]"]
  show ?thesis by (simp add: sample_cache_libs_def)
qed

text \<open>
  When a statement fails, the request fails with that error, but memory has already
  changed: the added domains are blocked, and the removed one is not, until the next start.
\<close>

lemma failed_statement_changes_memory:
  assumes "add_block_domains L list ds c = (Inl e, c1)"
    and "remove_block_domain L d c = (Inl e', c2)"
  shows "normalize_domains L ds \<noteq> [] \<and> c_block c1 = c_block c \<union> set (normalize_domains L ds) \<and>
    c_block c2 = c_block c - {to_lowercase L d} \<and> c_allow c1 = c_allow c \<and> c_allow c2 = c_allow c"
  using add_block_domains_memory [of L list ds c] remove_block_domain_memory [of L d c] assms
  by (auto simp: add_block_domains_def)

definition broken_cache_libs :: "(u16, sample_moka, unit, sample_db) cache_libs" where
  "broken_cache_libs = sample_cache_libs\<lparr>sql_insert_blocked := (\<lambda>_ _ db. (Inl ''full'', db)),
     sql_delete_blocked := (\<lambda>_ db. (Inl ''locked'', db))\<rparr>"

lemma normalize_domains_libs:
  "unicode_lowercase L = unicode_lowercase L' \<Longrightarrow> normalize_domains L ds = normalize_domains L' ds"
  unfolding normalize_domains_def to_lowercase_def by presburger

lemma failed_statement_changes_memory_witness:
  "''ads.example.com'' \<in>
     c_block (snd (add_block_domains broken_cache_libs ''main'' [''ads.example.com'', ''nodot''] sample_cache))"
proof -
  have n: "normalize_domains broken_cache_libs [''ads.example.com'', ''nodot''] = [''ads.example.com'']"
    using normalize_domains_libs [of broken_cache_libs sample_cache_libs] sample_normalize
    by (simp add: broken_cache_libs_def)
  obtain c1 where add: "add_block_domains broken_cache_libs ''main'' [''ads.example.com'', ''nodot'']
      sample_cache = (Inl (Sql ''full''), c1)"
    by (simp add: add_block_domains_def n Let_def chunks.simps MAX_INSERT_CHUNK_def)
      (simp add: broken_cache_libs_def)
  obtain c2 where "remove_block_domain broken_cache_libs ''ads.example.com'' sample_cache =
      (Inl (Sql ''locked''), c2)"
    by (simp add: remove_block_domain_def Let_def broken_cache_libs_def)
  from failed_statement_changes_memory [OF add this] n show ?thesis by (simp add: add)
qed

section \<open>Cached answers\<close>

text \<open>
  C14: from an empty cache on, over any history of stores, lookups and list changes, an answer
  that L1 returns for a query was stored under the key of that query and less than its own
  TTL ago: it is neither stale nor another key's answer, whatever moka evicts.
\<close>

theorem l1_answers_fresh:
  assumes "moka_law L view" and "\<And>k. view (c_l1 c0) k = None"
    and "(cache_step L)\<^sup>*\<^sup>* ([], c0) (h, c)" and "l1_get L now q c = (Some raw, c')"
  shows "\<exists>t0 e. (t0, query_key L q, e) \<in> set h \<and> raw = l1_raw e \<and> now < t0 + secs (unat (l1_ttl e))"
proof -
  have "honest_state L view ([], c0)"
    using assms(1,2) by (simp add: honest_state_def l1_honest_def)
  from l1.reach_inv [OF assms(3) this] show ?thesis
    by (rule l1_get_fresh [OF _ assms(4)])
qed

definition stored_cache :: "(sample_moka, unit, sample_db) cache" where
  "stored_cache = add_dns_query_moka sample_cache_libs 5 sample_query [0, 1, 0x80, 0] 60 sample_cache"

lemma stored_lookup:
  "l1_get sample_cache_libs 59000000000 sample_query stored_cache = (Some [0, 1, 0x80, 0], stored_cache)"
  by (simp add: stored_cache_def l1_get_def add_dns_query_moka_def sample_cache_def)
    (simp add: sample_cache_libs_def sample_get_def sample_insert_def ttl_expiry_def
      expire_after_create_def secs_def)

lemma l1_answers_fresh_witness:
  "\<exists>t0 e. (t0, e) \<in> {(5 :: nat, \<lparr>l1_raw = [0, 1, 0x80, 0], l1_ttl = 60\<rparr>)} \<and>
     l1_raw e = [0, 1, 0x80, 0] \<and> 59000000000 < t0 + secs (unat (l1_ttl e))"
proof -
  have "(cache_step sample_cache_libs)\<^sup>*\<^sup>* ([], sample_cache)
      ([(5, query_key sample_cache_libs sample_query, \<lparr>l1_raw = [0, 1, 0x80, 0], l1_ttl = 60\<rparr>)], stored_cache)"
    unfolding stored_cache_def by (rule r_into_rtranclp) (rule cache_step.store)
  from l1_answers_fresh [OF sample_moka_law _ this stored_lookup] show ?thesis
    by (auto simp: sample_cache_def)
qed

text \<open>
  Two queries whose name and type fit the key buffer share a key only when name and type
  text agree, given that the text of a type has no colon.
\<close>

lemma short_keys_distinct:
  assumes "heapless_law L"
    and "length (q_name q) + length (rt_display L (q_type q)) + 5 \<le> KEY_CAPACITY"
    and "length (q_name q') + length (rt_display L (q_type q')) + 5 \<le> KEY_CAPACITY"
    and "CHR '':'' \<notin> set (rt_display L (q_type q))" and "CHR '':'' \<notin> set (rt_display L (q_type q'))"
  shows "query_key L q = query_key L q' \<longleftrightarrow>
    q_name q = q_name q' \<and> rt_display L (q_type q) = rt_display L (q_type q')"
  using query_key_inj [OF assms] query_key_fits [OF assms(1,2)] query_key_fits [OF assms(1,3)] by auto

lemma short_keys_distinct_witness:
  "query_key sample_libs sample_query \<noteq> query_key sample_libs (sample_query\<lparr>q_type := 28\<rparr>)"
  using short_keys_distinct [OF sample_libs_laws(2), of sample_query "sample_query\<lparr>q_type := 28\<rparr>"]
  by (simp add: sample_query_def sample_libs_def sample_rt_display_def KEY_CAPACITY_def)

text \<open>
  C38: a name of 125 octets or more does not fit behind the prefix of its key, so all such
  queries, whatever their names and types, read and write one entry of the cache.
\<close>

theorem long_names_share_key:
  assumes "heapless_law L" and "125 \<le> length (q_name q)" and "125 \<le> length (q_name q')"
  shows "query_key L q = query_key L q' \<and> l1_get L now q c = l1_get L now q' c \<and>
    add_dns_query_moka L now q response ttl c = add_dns_query_moka L now q' response ttl c"
  using assms(2,3) query_key_long [OF assms(1)]
  by (simp add: KEY_CAPACITY_def l1_get_def add_dns_query_moka_def)

definition long_query :: "u8 \<Rightarrow> u16 query" where
  "long_query b = \<lparr>q_name = replicate 62 (char_of_byte b) @ CHR ''.'' # replicate 62 (char_of_byte b),
     q_type = 1, q_raw = question_packet sample_header [replicate 62 b, replicate 62 b] 1 [0, 1],
     q_answer_offset = 143\<rparr>"

lemma long_query_parses:
  assumes "b \<in> {97, 98}"
  shows "parse_udp sample_libs (q_raw (long_query b)) = Inr (long_query b)"
proof -
  have dot: "char_of_byte 46 = CHR ''.''" by code_simp
  have lower: "to_ascii_lowercase b = b" "is_ascii b"
    using assms by (auto simp: to_ascii_lowercase_def is_ascii_def)
  have "from_utf8_lossy (lowered (dotted [replicate 62 b, replicate 62 b])) = q_name (long_query b)"
    using lower by (simp add: from_utf8_lossy_ascii lowered_def long_query_def dot is_ascii_def
        list_all_iff)
  moreover have "\<forall>l \<in> set [replicate 62 b, replicate 62 b]. label_ok l"
    using assms by (auto simp: label_ok_def MAX_LABEL_def)
  note parse_udp_question_packet [OF sample_header_length this, of sample_libs 1 "[0, 1]"]
  ultimately show ?thesis
    by (simp add: long_query_def parser_limits encode_name_def sample_libs_def)
qed

lemma long_names_share_key_witness:
  "query_key sample_cache_libs (long_query 97) = query_key sample_cache_libs (long_query 98)"
  using long_names_share_key [OF sample_dns_laws(2), of "long_query 97" "long_query 98"]
  by (simp add: long_query_def)

end
