(* ===== verification/Service_Properties.thy ===== *)
theory Service_Properties
  imports Cache_Properties
begin

text \<open>
  What the configuration, the upstream pool, the query handler, the access list and the front
  ends promise: \<open>config.rs\<close>, \<open>handler/upstream.rs\<close>, \<open>handler/query.rs\<close>, \<open>acl.rs\<close>,
  \<open>dns/mono.rs\<close> and \<open>dns/server.rs\<close>.
\<close>

section \<open>Configuration\<close>

text \<open>
  An answer is cached exactly when its code is NOERROR or NXDOMAIN. The time is the TTL
  of its first record when it has answers and the negative TTL otherwise, brought between
  the configured bounds; bringing it there never panics, even for a minimum above the maximum.
\<close>

lemma cached_time:
  "cache_ttl cfg raw off =
     (if 4 \<le> length raw \<and> rcode_from_raw raw \<in> {NoError, NXDomain}
      then clamp_ttl cfg
        (if rcode_from_raw raw = NoError \<and> 8 \<le> length raw \<and> u16_from_be_bytes (raw ! 6) (raw ! 7) \<noteq> 0
         then parse_ttl raw off else neg_ttl cfg)
      else None) \<and>
   (\<exists>t. clamp_ttl cfg ttl = Some t \<and> cache_min_ttl cfg \<le> t \<and>
      t \<le> max (cache_max_ttl cfg) (cache_min_ttl cfg))"
proof
  show "cache_ttl cfg raw off =
     (if 4 \<le> length raw \<and> rcode_from_raw raw \<in> {NoError, NXDomain}
      then clamp_ttl cfg
        (if rcode_from_raw raw = NoError \<and> 8 \<le> length raw \<and> u16_from_be_bytes (raw ! 6) (raw ! 7) \<noteq> 0
         then parse_ttl raw off else neg_ttl cfg)
      else None)"
  proof (cases "4 \<le> length raw")
    case False
    then show ?thesis by (simp add: cache_ttl_def)
  next
    case True
    then have get: "slice_get raw 3 = Some (raw ! 3)" by simp
    obtain n where n: "n = raw ! 3 AND 0x0F" by blast
    have code: "rcode_from_raw raw = NoError \<longleftrightarrow> n = 0" "rcode_from_raw raw = NXDomain \<longleftrightarrow> n = 3"
      unfolding rcode_from_raw_def get Let_def option.case n [symmetric] by auto
    show ?thesis
      unfolding cache_ttl_def get Let_def option.case n [symmetric] clamp_ttl_eq
      using True code by (simp add: word_gt_0)
  qed
  show "\<exists>t. clamp_ttl cfg ttl = Some t \<and> cache_min_ttl cfg \<le> t \<and>
      t \<le> max (cache_max_ttl cfg) (cache_min_ttl cfg)"
    by (simp add: clamp_ttl_eq clamped_lower clamped_upper)
qed

text \<open>
  C36: a configuration that was stored wins over the command line at every later start, and
  after every start that succeeds the stored row reads back as the configuration in use; a
  patch that is applied and stored is what the next start finds.
\<close>

theorem stored_config_wins:
  assumes law: "settings_law S row" and first: "load_or_init S defaults db = (Inr cfg, db1)"
    and store: "persist S (apply_to p cfg) db1 = (Inr u, db2)"
    and again: "load_or_init S defaults' db2 = (Inr cfg', db3)"
  shows "Option.bind (row db1) (from_json S) = Some cfg \<and> cfg' = apply_to p cfg"
proof -
  from store have "row db2 = Some (to_json S (apply_to p cfg))"
    by (auto simp: persist_def dest: settings_lawD(5) [OF law])
  then have "Option.bind (row db2) (from_json S) = Some (apply_to p cfg)"
    by (simp add: settings_lawD(1) [OF law])
  from load_or_init_reads [OF law this again] load_or_init_stores [OF law first]
  show ?thesis by simp
qed

lemma stored_config_wins_witness:
  "\<exists>db3. load_or_init sample_settings (from_cli [] 9)
      (Some (config_text (apply_to (empty_patch\<lparr>p_neg_ttl := Some 5\<rparr>) (from_cli [] 1)))) =
    (Inr (apply_to (empty_patch\<lparr>p_neg_ttl := Some 5\<rparr>) (from_cli [] 1)), db3)"
proof -
  let ?p = "empty_patch\<lparr>p_neg_ttl := Some 5\<rparr>" and ?cfg = "from_cli [] 1"
  have first: "load_or_init sample_settings ?cfg None = (Inr ?cfg, Some (config_text ?cfg))"
    by (simp add: load_or_init_def sample_settings_def persist_def)
  have store: "persist sample_settings (apply_to ?p ?cfg) (Some (config_text ?cfg)) =
      (Inr (), Some (config_text (apply_to ?p ?cfg)))"
    by (simp add: persist_def sample_settings_def)
  obtain cfg' db3 where again: "load_or_init sample_settings (from_cli [] 9)
      (Some (config_text (apply_to ?p ?cfg))) = (Inr cfg', db3)"
    by (simp add: load_or_init_def sample_settings_def text_config_text)
  from stored_config_wins [OF sample_settings_law first store again] again show ?thesis by simp
qed

section \<open>Upstream servers\<close>

text \<open>
  C30: an answer that the pool returns came in one datagram from a configured server, has the
  transaction id of the query, and is cut at 4096 octets; its code is the one in its header.
\<close>

theorem upstream_answer_genuine:
  assumes "query_ok q" and "resolve Q cfg q net sockets = (Inr r, sockets')"
  shows "txid_matches (q_raw q) (resp_raw r) \<and> length (resp_raw r) \<le> RECV_BUF \<and>
    resp_code r = rcode_from_raw (resp_raw r) \<and>
    (\<exists>i d. i < length (upstreams cfg) \<and> Datagram d (upstreams cfg ! i) \<in> set (arrivals (net i)) \<and>
       resp_raw r = take RECV_BUF d)"
  using resolve_good [OF assms] by (simp add: good_reply_def)

definition server_a :: socket_addr where "server_a = SocketV4 0x01010101 53"
definition server_b :: socket_addr where "server_b = SocketV4 0x08080808 53"

definition sample_config :: runtime_config where
  "sample_config = from_cli [server_a, server_b] 2000"

definition sample_answer :: bytes where
  "sample_answer =
     [0xAB, 0xCD, 0x81, 0x80, 0, 1, 0, 1, 0, 0, 0, 0,
      3, 119, 87, 119, 7, 69, 120, 97, 109, 112, 108, 101, 3, 99, 111, 109, 0, 0, 1, 0, 1,
      0xC0, 0x0C, 0, 1, 0, 1, 0, 0, 1, 0x2C, 0, 4, 1, 2, 3, 4]"

definition sample_net_script :: "nat \<Rightarrow> nat attempt" where
  "sample_net_script i =
     (if i = 0 then \<lparr>bind_result = Inr 7, send_error = None, arrivals = [Datagram sample_answer server_b]\<rparr>
      else \<lparr>bind_result = Inr 8, send_error = None,
        arrivals = [Datagram [0, 0, 0] server_b, Datagram sample_answer server_b]\<rparr>)"

lemma sample_query_txid: "q_raw sample_query ! 0 = 0xAB" "q_raw sample_query ! Suc 0 = 0xCD"
  by (simp_all add: sample_query_def sample_packet_def question_packet_def sample_header_def)

lemma sample_exchanges:
  "exchange server_a sample_query (sample_net_script 0) = Inl Timeout"
  "exchange server_b sample_query (sample_net_script (Suc 0)) =
     Inr \<lparr>resp_code = NoError, resp_raw = sample_answer\<rparr>"
  by (simp_all add: exchange_def sample_net_script_def sample_answer_def sample_query_txid server_a_def
      server_b_def RECV_BUF_def rcode_from_raw_def slice_get_def)

lemma sample_binds:
  "bind_result (sample_net_script 0) = Inr 7" "bind_result (sample_net_script (Suc 0)) = Inr 8"
  by (simp_all add: sample_net_script_def)

lemma sample_queries:
  "query_dns sample_queue server_a sample_query (sample_net_script 0) (256, []) =
     (Inl Timeout, (256, []))"
  "query_dns sample_queue server_b sample_query (sample_net_script (Suc 0)) (256, []) =
     (Inr \<lparr>resp_code = NoError, resp_raw = sample_answer\<rparr>, (256, [8]))"
  by (simp_all add: query_dns_def sample_queue_def sample_binds sample_exchanges Let_def)

lemma sample_resolve:
  "resolve sample_queue sample_config sample_query sample_net_script (256, []) =
     (Inr \<lparr>resp_code = NoError, resp_raw = sample_answer\<rparr>, (256, [8]))"
  by (simp add: resolve_def sample_config_def from_cli_def upt_rec sample_queries Let_def)

lemma upstream_answer_genuine_witness:
  "txid_matches (q_raw sample_query) sample_answer"
  using upstream_answer_genuine [OF sample_query_ok sample_resolve] by simp

text \<open>
  C31: the servers are asked in their configured order. Server number \<open>i\<close> answers the query
  when every server before it failed, by an error, by silence, or by sending datagrams only
  from other addresses or with other transaction ids, and what it answers is returned.
\<close>

theorem first_good_server_answers:
  assumes "i < length (upstreams cfg)" and "\<And>j. \<not> isl (bind_result (net j))"
    and "\<And>j. j < i \<Longrightarrow> isl (exchange (upstreams cfg ! j) q (net j))"
    and "exchange (upstreams cfg ! i) q (net i) = Inr r"
  shows "fst (resolve Q cfg q net sockets) = Inr r"
proof -
  let ?n = "length (upstreams cfg)"
  from assms(1) obtain k where k: "?n = i + Suc k" by (auto simp: less_iff_Suc_add)
  then have upto: "[0..<max ?n 1] = [0..<i] @ i # [Suc i..<?n]"
    using upt_add_eq_append [of 0 i "Suc k"] by (simp add: upt_conv_Cons del: upt_Suc)
  have "fst (try_servers Q (upstreams cfg) q net ([0..<i] @ i # [Suc i..<?n]) None sockets) = Inr r"
    using assms by (intro try_servers_first) auto
  with assms(1) upto show ?thesis by (auto simp: resolve_def Let_def)
qed

lemma first_good_server_answers_witness:
  "fst (resolve sample_queue sample_config sample_query sample_net_script (256, [])) =
     Inr \<lparr>resp_code = NoError, resp_raw = sample_answer\<rparr>"
proof (rule first_good_server_answers [where i = 1])
  show "1 < length (upstreams sample_config)" by (simp add: sample_config_def from_cli_def)
  show "\<not> isl (bind_result (sample_net_script j))" for j by (simp add: sample_net_script_def)
  show "isl (exchange (upstreams sample_config ! j) sample_query (sample_net_script j))" if "j < 1" for j
    using that by (simp add: sample_config_def from_cli_def sample_exchanges)
  show "exchange (upstreams sample_config ! 1) sample_query (sample_net_script 1) =
      Inr \<lparr>resp_code = NoError, resp_raw = sample_answer\<rparr>"
    by (simp add: sample_config_def from_cli_def sample_exchanges)
qed

text \<open>The queue of idle sockets never holds more than its capacity.\<close>

definition pool_bounded :: "('q \<Rightarrow> nat \<times> 'sock list) \<Rightarrow> 'q \<Rightarrow> bool" where
  "pool_bounded view s \<longleftrightarrow> fst (view s) = POOL_SIZE \<and> length (snd (view s)) \<le> POOL_SIZE"

lemma queue_lawD:
  assumes "queue_law Q view"
  shows "view (queue_new Q n) = (n, [])"
    and "queue_pop Q q = Some (s, q') \<Longrightarrow> snd (view q) = s # snd (view q') \<and> fst (view q') = fst (view q)"
    and "fst (view (queue_push Q s q)) = fst (view q)"
    and "snd (view (queue_push Q s q)) =
      (if length (snd (view q)) < fst (view q) then snd (view q) @ [s] else snd (view q))"
proof -
  note law = assms [unfolded queue_law_def]
  show "view (queue_new Q n) = (n, [])" using law by simp
  show "fst (view (queue_push Q s q)) = fst (view q)" using law by simp
  show "snd (view (queue_push Q s q)) =
      (if length (snd (view q)) < fst (view q) then snd (view q) @ [s] else snd (view q))"
    using law by simp
  assume "queue_pop Q q = Some (s, q')"
  with law [THEN conjunct2, THEN conjunct1, rule_format, of q]
  show "snd (view q) = s # snd (view q') \<and> fst (view q') = fst (view q)" by simp
qed

lemma pool_bounded_push:
  "queue_law Q view \<Longrightarrow> pool_bounded view s \<Longrightarrow> pool_bounded view (queue_push Q sock s)"
  by (simp add: pool_bounded_def queue_lawD(3,4))

lemma pool_bounded_new:
  assumes "queue_law Q view"
  shows "pool_bounded view (new_pool Q binds)"
proof -
  have "pool_bounded view (queue_new Q POOL_SIZE)"
    by (simp add: pool_bounded_def queue_lawD(1) [OF assms])
  then have "pool_bounded view (fold (\<lambda>b sockets. case b of Inl _ \<Rightarrow> sockets
      | Inr sock \<Rightarrow> queue_push Q sock sockets) bs (queue_new Q POOL_SIZE))" for bs
  proof (induction bs rule: rev_induct)
    case (snoc b bs)
    then show ?case
      using pool_bounded_push [OF assms] by (cases b) simp_all
  qed simp
  then show ?thesis by (simp add: new_pool_def)
qed

lemma pool_bounded_query_dns:
  assumes law: "queue_law Q view" and ok: "pool_bounded view s"
    and run: "query_dns Q server q att s = (r, s')"
  shows "pool_bounded view s'"
proof (cases "queue_pop Q s")
  case None
  with ok run pool_bounded_push [OF law ok] show ?thesis
    by (auto simp: query_dns_def Let_def split: sum.splits if_splits)
next
  case (Some p)
  obtain sock s1 where p: "p = (sock, s1)" by (cases p)
  have "pool_bounded view s1"
    using queue_lawD(2) [OF law Some [unfolded p]] ok by (simp add: pool_bounded_def)
  with run Some p pool_bounded_push [OF law this] show ?thesis
    by (auto simp: query_dns_def Let_def split: if_splits)
qed

lemma pool_bounded_try_servers:
  assumes law: "queue_law Q view"
  shows "pool_bounded view s \<Longrightarrow> try_servers Q servers q net is err s = (r, s') \<Longrightarrow> pool_bounded view s'"
proof (induction "is" arbitrary: err s)
  case (Cons i "is")
  obtain x s1 where step: "query_dns Q (servers ! (i mod length servers)) q (net i) s = (x, s1)"
    by fastforce
  note pool_bounded_query_dns [OF law Cons.prems(1) step]
  with Cons step show ?case by (cases x) auto
qed simp

text \<open>
  The pool starts with at most 256 idle sockets and keeps that bound through every resolution,
  whatever fails: an exchange that fails drops its socket.
\<close>

lemma sockets_bounded:
  assumes "queue_law Q view" and "resolve Q cfg q net s = (r, s')" and "pool_bounded view s"
  shows "pool_bounded view (new_pool Q binds) \<and> pool_bounded view s'"
  using pool_bounded_new [OF assms(1)] pool_bounded_try_servers [OF assms(1,3)] assms(2,3)
  by (auto simp: resolve_def Let_def split: if_splits)

lemma sockets_bounded_witness:
  "pool_bounded (\<lambda>q. q) (256 :: nat, [8 :: nat])"
  using sockets_bounded [OF sample_queue_law sample_resolve] by (simp add: pool_bounded_def POOL_SIZE_def)

section \<open>Queries\<close>

definition sample_world :: "(sample_moka, unit, sample_db, nat \<times> nat list) world" where
  "sample_world = \<lparr>w_cache = sample_cache, w_sockets = (256, []), w_events = []\<rparr>"

definition sample_request :: "nat request" where
  "sample_request = \<lparr>rq_lookup = 0, rq_store = 1, rq_timestamp_ms = 1000, rq_latency_us = 12,
     rq_net = sample_net_script\<rparr>"

lemma sample_server_inv: "server_inv sample_cache_libs (\<lambda>m. m) sample_world"
  by (simp add: server_inv_def packets_ok_def sample_world_def sample_cache_def)

lemma sample_cache_parses: "parse_udp sample_cache_libs sample_packet = Inr sample_query"
  using parse_udp_question_packet [OF sample_header_length sample_labels_ok, of sample_cache_libs 1 "[0, 1]"]
  by (simp add: sample_packet_def sample_query_def sample_labels_length sample_name encode_name_def
      parser_limits sample_cache_libs_def sample_libs_def)

lemma sample_not_blocked: "\<not> is_blocked sample_cache_libs sample_cache name"
  by (simp add: is_blocked_def decide_def sample_cache_def)

lemma sample_lookup_miss:
  "check_and_get sample_cache_libs now q sample_cache = (Inr (False, None), sample_cache)"
  using sample_not_blocked
  by (simp add: check_and_get_def) (simp add: sample_cache_libs_def sample_get_def sample_cache_def)

definition answered_cache :: "(sample_moka, unit, sample_db) cache" where
  "answered_cache = add_dns_query_moka sample_cache_libs 1 sample_query sample_answer 300 sample_cache"

definition sample_event :: "bool \<Rightarrow> dns_query_event" where
  "sample_event hit = \<lparr>ev_timestamp_ms = 1000, ev_domain = ''www.example.com'', ev_query_type = 1,
     ev_response_code = 0, ev_cache_hit = hit, ev_blocked = False, ev_latency_us = 12\<rparr>"

definition answered_world :: "(sample_moka, unit, sample_db, nat \<times> nat list) world" where
  "answered_world = \<lparr>w_cache = answered_cache, w_sockets = (256, [8]), w_events = [sample_event False]\<rparr>"

lemma sample_answer_ttl: "cache_ttl sample_config sample_answer 33 = Some 300"
  by (simp add: cache_ttl_def sample_answer_def slice_get_def u16_from_be_bytes_def parse_ttl_def
      slice_range_def clamped_def sample_config_def from_cli_def u32_from_be_bytes_def)

lemma sample_codes [simp]:
  "rc_to_u16 sample_cache_libs = sample_rc_to_u16" "rt_to_u16 sample_cache_libs = id"
  by (simp_all add: sample_cache_libs_def sample_libs_def)

lemma sample_handle:
  "handle sample_cache_libs sample_queue sample_config sample_request sample_packet sample_world =
     (Inr sample_answer, answered_world)"
proof -
  have parts: "w_cache sample_world = sample_cache" "w_sockets sample_world = (256, [])"
    "rq_net sample_request = sample_net_script" "rq_store sample_request = 1"
    "q_answer_offset sample_query = 33"
    by (simp_all add: sample_world_def sample_request_def sample_query_def)
  show ?thesis
    unfolding handle_def sample_cache_parses sum.case handle_parsed_def serve_def parts sample_lookup_miss
      prod.case bool.case option.case sample_resolve
    by (simp add: sample_answer_ttl Let_def answered_world_def answered_cache_def event_of_def
        sample_event_def sample_request_def sample_query_def sample_world_def)
qed

text \<open>
  C4: without Redis, every reply the handler gives carries the transaction id of the packet
  and at most 4096 octets; exactly one event is recorded for it, with the name of the query
  and the response code that the reply really has; and the invariant of the state is kept.
\<close>

theorem replies_accounted:
  assumes "server_inv L view w" and "handle L Q cfg rq packet w = (Inr reply, w')"
  shows "server_inv L view w' \<and> txid_matches packet reply \<and> length reply \<le> RECV_BUF \<and>
    (\<exists>q ev. parse_udp L packet = Inr q \<and> w_events w' = w_events w @ [ev] \<and>
       ev_domain ev = q_name q \<and> ev_response_code ev = rc_to_u16 L (rcode_from_raw reply))"
proof -
  from handle_InrE [OF assms(2)] obtain q where q: "parse_udp L packet = Inr q" "query_ok q"
    "handle_parsed L Q cfg rq q w = (Inr reply, w')" .
  from handle_parsed_reply(3) [OF q(2) assms(1) q(3)] q(1) full.keeps_inv [OF assms]
    full.reply_txid [OF assms] full.reply_fits [OF assms]
  show ?thesis by blast
qed

lemma replies_accounted_witness:
  "txid_matches sample_packet sample_answer \<and> server_inv sample_cache_libs (\<lambda>m. m) answered_world"
  using replies_accounted [OF sample_server_inv sample_handle] by blast

text \<open>
  C32: a query that fails gets no reply and no event, and keeps the invariant; a packet that
  does not parse changes nothing at all.
\<close>

theorem failed_queries_silent:
  assumes "server_inv L view w" and "handle L Q cfg rq packet w = (Inl e, w')"
  shows "server_inv L view w' \<and> w_events w' = w_events w \<and>
    ((\<exists>pe. e = H_Parser pe \<and> parse_udp L packet = Inl pe \<and> w' = w) \<or> (\<exists>ue. e = H_Upstream ue))"
proof (cases "parse_udp L packet")
  case (Inl pe)
  with assms show ?thesis by (auto simp: handle_def)
next
  case (Inr q)
  with assms(2) have "handle_parsed L Q cfg rq q w = (Inl e, w')" by (simp add: handle_def)
  then have "serve L Q cfg rq q w = (Inl e, w')"
    by (auto simp: handle_parsed_def split: prod.splits sum.splits)
  from serve_Inl_inv [OF assms(1) this] show ?thesis by blast
qed

lemma failed_queries_silent_witness:
  "w_events (snd (handle sample_cache_libs sample_queue sample_config sample_request [1, 2, 3] sample_world)) = []"
proof -
  have "handle sample_cache_libs sample_queue sample_config sample_request [1, 2, 3] sample_world =
      (Inl (H_Parser (TooShort 3)), sample_world)"
    by (simp add: handle_def parse_udp_def HEADER_def)
  from failed_queries_silent [OF sample_server_inv this] this show ?thesis by (simp add: sample_world_def)
qed

lemma blocked_handle:
  assumes "parse_udp L packet = Inr q" and "is_blocked L (w_cache w) (q_name q)"
  shows "handle L Q cfg rq packet w =
    (Inr (resp_raw (blocked L q (blocking_mode cfg))),
     w\<lparr>w_events := w_events w @ [hot_event L rq q (resp_code (blocked L q (blocking_mode cfg))) False True]\<rparr>)"
proof -
  have "check_and_get L (rq_lookup rq) q (w_cache w) = (Inr (True, None), w_cache w)"
    using assms(2) by (simp add: check_and_get_blocked)
  with assms(1) show ?thesis
    by (simp add: handle_def handle_parsed_def serve_def Let_def event_of_def hot_event_def)
qed

text \<open>
  C1: adding a domain blocks it and everything below it, at once and in any letter case. A
  query whose last labels spell the added domain is answered with the reply of the blocking
  mode, unless an allowed domain covers the name; neither the caches nor the sockets are
  touched, and one event, marked blocked, is recorded.
\<close>

theorem added_domain_blocks_subdomains:
  assumes "memchr_law L" and "length hdr = HEADER" and "\<forall>l \<in> set (sub @ ls). label_ok l"
    and "length (encode_labels (sub @ ls)) \<le> MAX_NAME" and "ls \<noteq> []"
    and "from_utf8_lossy (lowered (dotted ls)) \<in> set (normalize_domains L ds)"
    and "\<not> covered_by (c_allow (w_cache w)) (from_utf8_lossy (lowered (dotted (sub @ ls))))"
    and "packet = question_packet hdr (sub @ ls) t rest"
  shows "\<exists>q ev. parse_udp L packet = Inr q \<and> ev_blocked ev \<and> ev_domain ev = q_name q \<and>
    (let w1 = w\<lparr>w_cache := snd (add_block_domains L list ds (w_cache w))\<rparr> in
     handle L Q cfg rq packet w1 =
       (Inr (resp_raw (blocked L q (blocking_mode cfg))), w1\<lparr>w_events := w_events w1 @ [ev]\<rparr>))"
proof -
  let ?d = "from_utf8_lossy (lowered (dotted ls))"
  let ?w = "w\<lparr>w_cache := snd (add_block_domains L list ds (w_cache w))\<rparr>"
  from parse_udp_question_packet [OF assms(2,3), of L t rest] assms(4,8)
  obtain q where q: "parse_udp L packet = Inr q"
    and name: "q_name q = from_utf8_lossy (lowered (dotted (sub @ ls)))"
    by (metis query.select_convs(1))
  have join: "dotted (xs @ ls) = (if xs = [] then dotted ls else dotted xs @ 46 # dotted ls)" for xs
    using assms(5) by (induction xs) (auto simp: dotted_Cons)
  have "char_of_byte 46 = CHR ''.''" by code_simp
  then have "covers ?d (q_name q)"
    by (simp add: name join covers_def from_utf8_lossy_append_ascii is_ascii_def suffix_def)
  moreover have "?d \<in> c_block (w_cache ?w)" using assms(6) by simp
  moreover have "\<not> covered_by (c_allow (w_cache ?w)) (q_name q)" using assms(7) name by simp
  ultimately have "is_blocked L (w_cache ?w) (q_name q)"
    unfolding is_blocked_def using policy.block_listed [OF assms(1)] by blast
  from blocked_handle [OF q this] q show ?thesis
    by (intro exI [of _ q]
        exI [of _ "hot_event L rq q (resp_code (blocked L q (blocking_mode cfg))) False True"])
      (simp add: Let_def hot_event_def)
qed

lemma sample_normalize_example:
  "normalize_domains sample_cache_libs [''example.com''] = [''example.com'']"
proof -
  have t: "trim_end_dots (trim ''example.com'') = ''example.com''" "is_valid_domain ''example.com''"
    by code_simp+
  have "to_lowercase sample_cache_libs ''example.com'' = ''example.com''"
    by (rule to_lowercase_fixed) code_simp
  with t show ?thesis by (simp only: normalize_domains_def list.map filter.simps if_True)
qed

lemma added_domain_blocks_subdomains_witness:
  "fst (handle sample_cache_libs sample_queue sample_config sample_request sample_packet
      (sample_world\<lparr>w_cache := snd (add_block_domains sample_cache_libs ''main'' [''example.com''] sample_cache)\<rparr>))
    = Inr (resp_raw (nxdomain sample_query))"
proof -
  have ls: "[[119, 87, 119]] @ [[69, 120, 97, 109, 112, 108, 101], [99, 111, 109]] = sample_labels"
    by (simp add: sample_labels_def)
  have d: "from_utf8_lossy (lowered (dotted [[69, 120, 97, 109, 112, 108, 101], [99, 111, 109]])) = ''example.com''"
    by code_simp
  have "\<not> covered_by (c_allow (w_cache sample_world)) n" for n
    by (simp add: covered_by_def sample_world_def sample_cache_def)
  moreover have "w_cache sample_world = sample_cache" by (simp add: sample_world_def)
  moreover have "blocking_mode sample_config = NxDomain"
    by (simp add: sample_config_def from_cli_def default_blocking_mode_def)
  ultimately show ?thesis
    using added_domain_blocks_subdomains [where L = sample_cache_libs and sub = "[[119, 87, 119]]"
        and ls = "[[69, 120, 97, 109, 112, 108, 101], [99, 111, 109]]" and w = sample_world
        and ds = "[''example.com'']" and packet = sample_packet and hdr = sample_header and t = 1
        and rest = "[0, 1]" and cfg = sample_config and rq = sample_request and Q = sample_queue
        and list = "''main''", unfolded ls d]
      sample_header_length sample_labels_ok sample_labels_length
    by (auto simp: sample_normalize_example parser_limits sample_packet_def [symmetric] Let_def
        sample_cache_parses blocked_def)
qed

text \<open>
  C37: an answer found in L1 is returned with the transaction id of the packet in place of its
  own and otherwise unchanged, without using a socket. The entry is stored again for the full
  TTL counted from now: a hit restarts the clock of the entry.
\<close>

theorem cache_hit_restarts_clock:
  assumes "moka_law L view" and "parse_udp L packet = Inr q"
    and "\<not> is_blocked L (w_cache w) (q_name q)"
    and "l1_get L (rq_lookup rq) q (w_cache w) = (Some hit, c)"
    and "handle L Q cfg rq packet w = (Inr reply, w')"
    and "cache_ttl cfg hit (q_answer_offset q) = Some ttl"
  shows "reply = take 2 packet @ drop 2 hit \<and> w_sockets w' = w_sockets w \<and>
    w_cache w' = add_dns_query_moka L (rq_store rq) q hit ttl c \<and>
    view (c_l1 (w_cache w')) (query_key L q) \<in>
      {None, Some (\<lparr>l1_raw = hit, l1_ttl = ttl\<rparr>, rq_store rq + secs (unat ttl))}"
proof -
  note ok = parse_udp_query_ok [OF assms(2)] and raw = parse_udp_raw [OF assms(2)]
  have "check_and_get L (rq_lookup rq) q (w_cache w) = (Inr (False, Some hit), c)"
    by (rule l1_get_check [OF assms(3,4)])
  with assms(2,5,6) have reply: "reply = resp_raw (cached q hit)"
    and w': "w_sockets w' = w_sockets w" "w_cache w' = add_dns_query_moka L (rq_store rq) q hit ttl c"
    by (auto simp: handle_def handle_parsed_def serve_def Let_def)
  have "2 \<le> length hit" using cache_ttl_length [OF assms(6)] by simp
  with ok ca.echoes_txid [of q hit] have "take 2 reply = take 2 packet"
    by (simp add: reply txid_matches_def raw)
  moreover have "drop 2 reply = drop 2 hit" by (simp add: reply cached_rest)
  ultimately have "reply = take 2 packet @ drop 2 hit" by (metis append_take_drop_id)
  moreover have "e = \<lparr>l1_raw = hit, l1_ttl = ttl\<rparr> \<and> t = rq_store rq + secs (unat ttl)"
    if "view (c_l1 (w_cache w')) (query_key L q) = Some (e, t)" for e t
    using moka_insert_same [OF assms(1)] that by (fastforce simp: w'(2) add_dns_query_moka_def)
  ultimately show ?thesis
    using w' by (cases "view (c_l1 (w_cache w')) (query_key L q)") auto
qed

lemma answered_lookup:
  "l1_get sample_cache_libs 200000000000 sample_query answered_cache = (Some sample_answer, answered_cache)"
  by (simp add: answered_cache_def l1_get_def add_dns_query_moka_def sample_cache_def)
    (simp add: sample_cache_libs_def sample_get_def sample_insert_def ttl_expiry_def
      expire_after_create_def secs_def)

definition later_request :: "nat request" where
  "later_request = sample_request\<lparr>rq_lookup := 200000000000, rq_store := 200000000000\<rparr>"

lemma answered_not_blocked: "\<not> is_blocked sample_cache_libs (w_cache answered_world) name"
  by (simp add: is_blocked_def decide_def answered_world_def answered_cache_def add_dns_query_moka_def
      sample_cache_def)

lemma cache_hit_restarts_clock_witness:
  "\<exists>w'. handle sample_cache_libs sample_queue sample_config later_request sample_packet answered_world =
     (Inr sample_answer, w') \<and> w_sockets w' = (256, [8]) \<and>
     c_l1 (w_cache w') (query_key sample_cache_libs sample_query) \<in>
       {None, Some (\<lparr>l1_raw = sample_answer, l1_ttl = 300\<rparr>, 500000000000)}"
proof -
  have look: "l1_get sample_cache_libs (rq_lookup later_request) sample_query (w_cache answered_world) =
      (Some sample_answer, answered_cache)"
    by (simp add: later_request_def answered_world_def answered_lookup)
  have ttl: "cache_ttl sample_config sample_answer (q_answer_offset sample_query) = Some 300"
    using sample_answer_ttl by (simp add: sample_query_def)
  note cg = l1_get_check [OF answered_not_blocked look]
  obtain w' where run: "handle sample_cache_libs sample_queue sample_config later_request sample_packet
      answered_world = (Inr (resp_raw (cached sample_query sample_answer)), w')"
    by (simp add: handle_def sample_cache_parses handle_parsed_def serve_def cg Let_def)
  have "take 2 sample_packet @ drop 2 sample_answer = sample_answer"
    by (simp add: sample_packet_def question_packet_def sample_header_def sample_answer_def)
  with cache_hit_restarts_clock [OF sample_moka_law sample_cache_parses answered_not_blocked look run ttl] run
  show ?thesis
    by (auto simp: answered_world_def later_request_def secs_def)
qed

section \<open>The access list and the pinned workers\<close>

text \<open>
  An address gets the action of the first entry with a network that contains it, and is
  denied when there are entries but none matches. Rows that are disabled or have no readable
  network count for nothing; when no other row is left, everyone is allowed.
\<close>

lemma access_decision:
  "acl_decide N (entries_of_rows N rows) ip =
     (if filter (\<lambda>row. \<not> idle_row N row) rows = [] then Allow
      else case List.find (entry_matches N ip) (entries_of_rows N rows) of
        None \<Rightarrow> Deny | Some e \<Rightarrow> ae_action e) \<and>
   acl_decide N (entries_of_rows N rows) ip =
     acl_decide N (entries_of_rows N (filter (\<lambda>row. \<not> idle_row N row) rows)) ip"
  using entries_of_rows_Nil_iff [of N rows]
  by (auto simp: acl_decide_find entries_of_rows_filter filter_empty_conv)

definition sample_rows_acl :: "access_row list" where
  "sample_rows_acl = [(True, ''deny'', ''10.0.0.0/8''), (True, ''allow'', ''192.168.0.0/16'')]"

definition sample_acl :: "sample_net acl_entry list" where
  "sample_acl = entries_of_rows sample_acl_libs sample_rows_acl"

lemma ascii_lowercase_fixed:
  "list_all (\<lambda>c. to_ascii_lowercase (byte_of_char c) = byte_of_char c) s \<Longrightarrow> ascii_lowercase s = s"
  by (auto simp: ascii_lowercase_def list_all_iff intro: map_idI)

lemma sample_actions: "parse_action ''deny'' = Deny" "parse_action ''allow'' = Allow"
proof -
  have t: "trim ''deny'' = ''deny''" "trim ''allow'' = ''allow''" by code_simp+
  have "ascii_lowercase ''deny'' = ''deny''" "ascii_lowercase ''allow'' = ''allow''"
    by (rule ascii_lowercase_fixed, code_simp)+
  with t show "parse_action ''deny'' = Deny" "parse_action ''allow'' = Allow"
    by (simp_all add: parse_action_def)
qed

lemma sample_networks:
  "parse_networks sample_acl_libs ''10.0.0.0/8'' = [(V4 0x0A000000, 8)]"
  "parse_networks sample_acl_libs ''192.168.0.0/16'' = [(V4 0xC0A80000, 16)]"
  by code_simp+

lemma sample_acl_eq:
  "sample_acl = [\<lparr>ae_action = Deny, ae_networks = [(V4 0x0A000000, 8)]\<rparr>,
     \<lparr>ae_action = Allow, ae_networks = [(V4 0xC0A80000, 16)]\<rparr>]"
  by (simp add: sample_acl_def sample_rows_acl_def entries_of_rows_simps idle_row_def sample_actions
      sample_networks)

definition inside :: socket_addr where "inside = SocketV4 0xC0A80102 5353"
definition outside :: socket_addr where "outside = SocketV4 0x0A000001 5353"

lemma sample_decisions:
  "acl_decide sample_acl_libs sample_acl (socket_ip inside) = Allow"
  "acl_decide sample_acl_libs sample_acl (socket_ip outside) = Deny"
  unfolding sample_acl_eq by code_simp+

text \<open>
  C6: what a pinned worker answers to a datagram of an allowed source is what the handler
  answers: nothing when the packet does not parse; the handler's reply and event when the
  name is blocked or the answer is in L1; and otherwise whatever the handler makes of the
  query in the state the failed lookup left.
\<close>

theorem pinned_worker_refines_handler:
  assumes "acl_decide N acl (socket_ip src) = Allow" and "length packet \<le> MONO_RECV_BUF"
    and "datagram L Q N acl cfg rq rq' src packet w = (r, w')"
  shows "(\<exists>e. parse_udp L packet = Inl e \<and> r = None \<and> w' = w) \<or>
    (\<exists>reply w1. handle L Q cfg rq packet w = (Inr reply, w1) \<and> r = Some reply \<and>
       w_events w' = w_events w1) \<or>
    (\<exists>q x. parse_udp L packet = Inr q \<and> r = answer x \<and>
       handle L Q cfg (rq'\<lparr>rq_timestamp_ms := rq_timestamp_ms rq\<rparr>) packet
         (after_hot_lookup L (rq_lookup rq) q w) = (x, w'))"
  by (rule datagram_allow [OF assms]) blast+

lemma sample_packet_length: "length sample_packet = 33"
  by (simp add: sample_packet_def question_packet_def sample_header_def sample_labels_def encode_name_def)

lemma pinned_worker_refines_handler_witness:
  "\<exists>r w'. datagram sample_cache_libs sample_queue sample_acl_libs sample_acl sample_config later_request
      later_request inside sample_packet answered_world = (r, w') \<and>
    ((\<exists>reply w1. handle sample_cache_libs sample_queue sample_config later_request sample_packet
        answered_world = (Inr reply, w1) \<and> r = Some reply \<and> w_events w' = w_events w1) \<or>
     (\<exists>x. r = answer x \<and> handle sample_cache_libs sample_queue sample_config later_request sample_packet
        (after_hot_lookup sample_cache_libs 200000000000 sample_query answered_world) = (x, w')))"
proof -
  obtain r w' where run: "datagram sample_cache_libs sample_queue sample_acl_libs sample_acl sample_config
      later_request later_request inside sample_packet answered_world = (r, w')" by fastforce
  have "rq_timestamp_ms_update (\<lambda>_. rq_timestamp_ms later_request) later_request = later_request"
    "rq_lookup later_request = 200000000000" by (simp_all add: later_request_def)
  then show ?thesis
    using pinned_worker_refines_handler [OF sample_decisions(1) _ run] run
    by (auto simp: MONO_RECV_BUF_def sample_packet_length sample_cache_parses)
qed



text \<open>
  The access list governs one front end only. For TCP on either runtime, and for UDP on
  the Tokio runtime, what is answered and what changes does not depend on it.
\<close>

lemma access_list_only_on_pinned_udp:
  assumes "rt = Tokio \<or> tr = Tcp"
  shows "dns_reply L Q N acl cfg rt tr rq rq' src msg w = dns_reply L Q N [] cfg rt tr rq rq' src msg w"
  using assms by (cases rt; cases tr) (auto simp: dns_reply_def)

lemma access_list_only_on_pinned_udp_witness:
  "dns_reply sample_cache_libs sample_queue sample_acl_libs sample_acl sample_config Monoio Tcp sample_request
     sample_request outside sample_packet sample_world = (Some sample_answer, answered_world) \<and>
   fst (dns_reply sample_cache_libs sample_queue sample_acl_libs sample_acl sample_config Monoio Udp
     sample_request sample_request outside sample_packet sample_world) = None"
  using access_list_only_on_pinned_udp [of Monoio Tcp sample_cache_libs sample_queue sample_acl_libs
      sample_acl sample_config sample_request sample_request outside sample_packet sample_world]
  by (simp add: dns_reply_def sample_handle answer_def) (simp add: datagram_def sample_decisions)

section \<open>The Tokio front ends\<close>

text \<open>
  C12: after any sequence of receptions and finished tasks, whatever the order in which tasks
  finish, every UDP reply went to an address that had sent a datagram with the same transaction
  id, and every task works on the first 512 octets of one received datagram, with nothing left
  over from the recycled buffer it lies in.
\<close>

theorem udp_replies_answer_datagrams:
  assumes "server_inv L view w" and "(udp_step (handle L Q cfg))\<^sup>*\<^sup>* (udp_start w) s"
  shows "(\<forall>r \<in> set (us_sent s). length (snd r) \<le> RECV_BUF \<and>
      (\<exists>data. (fst r, data) \<in> set (us_received s) \<and> txid_matches data (snd r))) \<and>
    (\<forall>t \<in> set (us_tasks s). \<exists>data. (snd t, data) \<in> set (us_received s) \<and>
      bm_data (fst t) = take UDP_BUFFER_SIZE data) \<and> server_inv L view (us_world s)"
  using full.udp.reach_inv [OF assms(2) udp_ok_start [of "server_inv L view", OF assms(1)]]
  by (auto simp: udp_ok_def task_ok_def reply_ok_def)

lemma udp_replies_answer_datagrams_witness:
  "\<exists>s. (udp_step (handle sample_cache_libs sample_queue sample_config))\<^sup>*\<^sup>* (udp_start sample_world) s \<and>
     length (us_received s) = 1 \<and>
     (\<forall>t \<in> set (us_tasks s). \<exists>data. (snd t, data) \<in> set (us_received s) \<and>
        bm_data (fst t) = take UDP_BUFFER_SIZE data)"
proof -
  let ?step = "udp_step (handle sample_cache_libs sample_queue sample_config)"
  let ?s1 = "udp_prepare (udp_start sample_world)"
  have "us_current ?s1 \<noteq> None" by (simp add: udp_prepare_def split: prod.split)
  then obtain buf where buf: "us_current ?s1 = Some buf" by blast
  let ?s2 = "udp_receive inside sample_packet buf ?s1"
  have one: "?step (udp_start sample_world) ?s1"
    by (rule udp_step.prepare) (simp add: udp_start_def)
  have "?step ?s1 ?s2" by (rule udp_step.receive [OF buf])
  with one have reach: "?step\<^sup>*\<^sup>* (udp_start sample_world) ?s2" by (meson r_into_rtranclp rtranclp_trans)
  moreover have "length (us_received ?s2) = 1"
    by (auto simp: udp_receive_def udp_prepare_def udp_start_def split: prod.splits)
  ultimately show ?thesis
    using udp_replies_answer_datagrams [OF sample_server_inv reach] by blast
qed

text \<open>
  C10: a client may send its TCP queries one after the other without waiting. The connection
  returns the replies in their order, framed so that the client reads back exactly them, each
  with the transaction id of its query, up to the first query that fails; then it is closed.
\<close>

theorem tcp_pipelining:
  assumes "server_inv L view w" and "\<forall>m \<in> set ms. framable m"
    and "answers (handle L Q cfg) rqs 0 ms w = (replies, w')"
  shows "\<exists>out. handle_tcp_conn L Q cfg rqs (\<lambda>_. True) Eof (frames ms) w = (Conn_Closed, out, w') \<and>
    unframe out = Some replies \<and> list_all2 txid_matches (take (length replies) ms) replies \<and>
    server_inv L view w'"
  using full.conn_loop_frames [OF assms] full.answers_echo [OF assms(1,3)]
  by (auto simp: handle_tcp_conn_def intro: unframe_frames)

lemma tcp_pipelining_witness:
  "\<exists>out. handle_tcp_conn sample_cache_libs sample_queue sample_config (\<lambda>_. sample_request) (\<lambda>_. True) Eof
     (frames [sample_packet, [1, 2, 3]]) sample_world = (Conn_Closed, out, answered_world) \<and>
     unframe out = Some [sample_answer]"
proof -
  have "handle sample_cache_libs sample_queue sample_config sample_request [1, 2, 3] answered_world =
      (Inl (H_Parser (TooShort 3)), answered_world)"
    by (simp add: handle_def parse_udp_def HEADER_def)
  then have "answers (handle sample_cache_libs sample_queue sample_config) (\<lambda>_. sample_request) 0
      [sample_packet, [1, 2, 3]] sample_world = ([sample_answer], answered_world)"
    by (simp add: sample_handle Let_def)
  moreover have "\<forall>m \<in> set [sample_packet, [1, 2, 3]]. framable m"
    using sample_packet_length by (auto simp: framable_def TCP_MAX_MSG_def)
  ultimately show ?thesis
    using tcp_pipelining [OF sample_server_inv] by blast
qed

text \<open>
  A message that stays incomplete is never handled. When only a part of its length is
  there, an end of the stream or a silence of thirty seconds closes the connection; when a part
  of its body is missing, the end of the stream is an error, and a silence is waited for
  without end.
\<close>

lemma tcp_incomplete_message:
  assumes "framable m" and "n < length (frame m)"
  shows "handle_tcp_conn L Q cfg rqs write_ok fin (take n (frame m)) w =
    (if n < 2 then (if fin = Broken then Conn_Error else Conn_Closed)
     else if fin = Idle then Conn_Waits else Conn_Error, [], w)"
proof (cases "n < 2")
  case True
  then show ?thesis
    using assms(2) unfolding handle_tcp_conn_def
    by (subst conn_loop.simps) (simp add: header_end_def split: stream_end.split)
next
  case False
  let ?inp = "take n (frame m)"
  have nth: "?inp ! 0 = frame m ! 0" "?inp ! 1 = frame m ! 1" "length ?inp = n"
    using False assms(2) by simp_all
  have "unat (u16_from_be_bytes (frame m ! 0) (frame m ! 1)) = length m"
    using frame_header(1) [OF assms(1), of "[]"] by simp
  moreover have len: "length (frame m) = length m + 2" by (simp add: frame_def)
  moreover have "n - 2 < length m" using assms(2) False len by simp
  moreover have "length m \<noteq> 0" "\<not> TCP_MAX_MSG < length m" using assms(1) by (auto simp: framable_def)
  ultimately show ?thesis
    using False nth unfolding handle_tcp_conn_def
    by (subst conn_loop.simps) (simp add: Let_def body_end_def split: stream_end.split)
qed

lemma tcp_incomplete_message_witness:
  "handle_tcp_conn sample_cache_libs sample_queue sample_config (\<lambda>_. sample_request) (\<lambda>_. True) Idle
     (take 4 (frame sample_packet)) sample_world = (Conn_Waits, [], sample_world)"
proof -
  have "framable sample_packet"
    using sample_packet_length by (auto simp: framable_def TCP_MAX_MSG_def)
  moreover have "4 < length (frame sample_packet)"
    by (simp add: frame_def sample_packet_length)
  ultimately show ?thesis
    using tcp_incomplete_message [where L = sample_cache_libs and Q = sample_queue and n = 4
        and m = sample_packet and fin = Idle and w = sample_world]
    by simp
qed

end
