(* ===== verification/Workers.thy ===== *)
theory Workers
  imports Server "HOL-Library.Multiset"
begin

text \<open>
  The pinned workers of \<open>backend/src/dns/mono.rs\<close> with the cold path, step by step: a worker
  answers at once what it can and puts the rest on an unbounded channel; cold tasks take the
  requests from its head, spawn a task for each, and its reply goes back over a channel of its
  own to the task that sends it to the source. All workers share the channel and the cache, so
  one state stands for them together.
\<close>

section \<open>State and steps\<close>

record ('rt, 'w) workers =
  wk_world :: 'w
  wk_cold :: "(socket_addr \<times> 'rt query \<times> u64) list"
  wk_running :: "(socket_addr \<times> 'rt query \<times> u64) list"
  wk_replied :: "(socket_addr \<times> bytes) list"
  wk_received :: "(socket_addr \<times> bytes) list"
  wk_sent :: "(socket_addr \<times> bytes) list"

definition workers_start :: "'w \<Rightarrow> ('rt, 'w) workers" where
  "workers_start w = \<lparr>wk_world = w, wk_cold = [], wk_running = [], wk_replied = [], wk_received = [], wk_sent = []\<rparr>"

definition send_if :: "bool \<Rightarrow> socket_addr \<Rightarrow> bytes \<Rightarrow> ('rt, 'w) workers \<Rightarrow> ('rt, 'w) workers" where
  "send_if ok src reply s = (if ok then s\<lparr>wk_sent := wk_sent s @ [(src, reply)]\<rparr> else s)"

text \<open>One iteration of the loop of \<open>Worker::run\<close>; \<open>ok\<close> tells whether sending succeeds.\<close>

definition worker_receive ::
  "('rt, 'm, 'r, 'db, 'x) cache_libs_scheme \<Rightarrow> ('net, 'ndb, 'y) acl_libs_scheme \<Rightarrow> 'net acl_entry list \<Rightarrow>
     runtime_config \<Rightarrow> 'sock request \<Rightarrow> bool \<Rightarrow> socket_addr \<Rightarrow> bytes \<Rightarrow>
     ('rt, ('m, 'r, 'db, 'q) world) workers \<Rightarrow> ('rt, ('m, 'r, 'db, 'q) world) workers" where
  "worker_receive L N acl cfg rq ok src packet s =
     (let buf = take MONO_RECV_BUF packet;
          s1 = s\<lparr>wk_received := wk_received s @ [(src, packet)]\<rparr>
      in case acl_decide N acl (socket_ip src) of
           Deny \<Rightarrow> s1
         | Refuse \<Rightarrow> (case refuse L buf of Some resp \<Rightarrow> send_if ok src resp s1 | None \<Rightarrow> s1)
         | Allow \<Rightarrow>
             (case classify L cfg rq buf (wk_world s1) of
                (Reply resp, w) \<Rightarrow> send_if ok src resp (s1\<lparr>wk_world := w\<rparr>)
              | (Miss q, w) \<Rightarrow> s1\<lparr>wk_world := w, wk_cold := wk_cold s1 @ [(src, q, rq_timestamp_ms rq)]\<rparr>
              | (Drop, w) \<Rightarrow> s1\<lparr>wk_world := w\<rparr>))"

definition cold_take :: "('rt, 'w) workers \<Rightarrow> ('rt, 'w) workers" where
  "cold_take s =
     (case wk_cold s of [] \<Rightarrow> s | req # rest \<Rightarrow> s\<lparr>wk_cold := rest, wk_running := wk_running s @ [req]\<rparr>)"

text \<open>The spawned task of \<open>cold_path\<close>: a failure drops the sender, and no reply comes.\<close>

definition cold_task ::
  "('rt, 'm, 'r, 'db, 'x) cache_libs_scheme \<Rightarrow> ('sock, 'qu) queue_libs \<Rightarrow> runtime_config \<Rightarrow> 'sock request \<Rightarrow>
     socket_addr \<times> 'rt query \<times> u64 \<Rightarrow>
     ('rt, ('m, 'r, 'db, 'qu) world) workers \<Rightarrow> ('rt, ('m, 'r, 'db, 'qu) world) workers" where
  "cold_task L Q cfg rq req s =
     (case handle_parsed L Q cfg (rq\<lparr>rq_timestamp_ms := snd (snd req)\<rparr>) (fst (snd req)) (wk_world s) of
        (Inr resp, w) \<Rightarrow>
          s\<lparr>wk_world := w, wk_running := remove1 req (wk_running s), wk_replied := wk_replied s @ [(fst req, resp)]\<rparr>
      | (Inl _, w) \<Rightarrow> s\<lparr>wk_world := w, wk_running := remove1 req (wk_running s)\<rparr>)"

text \<open>The task that waits for a reply sends it to the source.\<close>

definition send_reply :: "bool \<Rightarrow> socket_addr \<times> bytes \<Rightarrow> ('rt, 'w) workers \<Rightarrow> ('rt, 'w) workers" where
  "send_reply ok r s = send_if ok (fst r) (snd r) (s\<lparr>wk_replied := remove1 r (wk_replied s)\<rparr>)"

inductive worker_step ::
  "('rt, 'm, 'r, 'db, 'x) cache_libs_scheme \<Rightarrow> ('sock, 'qu) queue_libs \<Rightarrow> ('net, 'ndb, 'y) acl_libs_scheme \<Rightarrow>
     'net acl_entry list \<Rightarrow> ('rt, ('m, 'r, 'db, 'qu) world) workers \<Rightarrow>
     ('rt, ('m, 'r, 'db, 'qu) world) workers \<Rightarrow> bool" for L Q N acl where
  receive: "worker_step L Q N acl s (worker_receive L N acl cfg (rq :: 'sock request) ok src packet s)"
| take_cold: "worker_step L Q N acl s (cold_take s)"
| cold: "req \<in> set (wk_running s) \<Longrightarrow> worker_step L Q N acl s (cold_task L Q cfg rq req s)"
| reply: "r \<in> set (wk_replied s) \<Longrightarrow> worker_step L Q N acl s (send_reply ok r s)"

section \<open>Every reply answers its own datagram\<close>

text \<open>A request on its way comes from a datagram that was received and allowed.\<close>

definition cold_ok ::
  "('net, 'ndb, 'y) acl_libs_scheme \<Rightarrow> 'net acl_entry list \<Rightarrow> (socket_addr \<times> bytes) list \<Rightarrow>
     socket_addr \<times> 'rt query \<times> u64 \<Rightarrow> bool" where
  "cold_ok N acl received req \<longleftrightarrow> query_ok (fst (snd req)) \<and>
     acl_decide N acl (socket_ip (fst req)) = Allow \<and>
     (\<exists>packet. (fst req, packet) \<in> set received \<and> q_raw (fst (snd req)) = take MONO_RECV_BUF packet)"

definition sent_ok ::
  "('net, 'ndb, 'y) acl_libs_scheme \<Rightarrow> 'net acl_entry list \<Rightarrow> (socket_addr \<times> bytes) list \<Rightarrow>
     socket_addr \<times> bytes \<Rightarrow> bool" where
  "sent_ok N acl received r \<longleftrightarrow> reply_ok received r \<and> acl_decide N acl (socket_ip (fst r)) \<noteq> Deny"

definition sources :: "(socket_addr \<times> 'a) list \<Rightarrow> socket_addr multiset" where
  "sources xs = image_mset fst (mset xs)"

definition workers_ok ::
  "('rt, 'm, 'r, 'db, 'x) cache_libs_scheme \<Rightarrow> ('m \<Rightarrow> string \<Rightarrow> (l1_entry \<times> nat) option) \<Rightarrow>
     ('net, 'ndb, 'y) acl_libs_scheme \<Rightarrow> 'net acl_entry list \<Rightarrow>
     ('rt, ('m, 'r, 'db, 'qu) world) workers \<Rightarrow> bool" where
  "workers_ok L view N acl s \<longleftrightarrow> server_inv L view (wk_world s) \<and>
     (\<forall>req \<in> set (wk_cold s) \<union> set (wk_running s). cold_ok N acl (wk_received s) req) \<and>
     (\<forall>r \<in> set (wk_replied s) \<union> set (wk_sent s). sent_ok N acl (wk_received s) r) \<and>
     sources (wk_sent s) + sources (wk_replied s) + sources (wk_running s) + sources (wk_cold s)
       \<subseteq># sources (wk_received s)"

lemma sources_simps [simp]:
  "sources [] = {#}" "sources (x # xs) = add_mset (fst x) (sources xs)"
  "sources (xs @ ys) = sources xs + sources ys"
  by (simp_all add: sources_def)

lemma sources_remove1: "x \<in> set xs \<Longrightarrow> add_mset (fst x) (sources (remove1 x xs)) = sources xs"
  by (induction xs) (auto simp: sources_def)

lemma add_mset_below: "add_mset x A \<subseteq># B \<Longrightarrow> A \<subseteq># B"
  by (rule subset_mset.order_trans [OF _ _]) auto

lemma below_add_mset: "A \<subseteq># B \<Longrightarrow> A \<subseteq># add_mset x B"
  by (rule subset_mset.order_trans [OF _ _]) auto

lemma cold_ok_more: "cold_ok N acl rs x \<Longrightarrow> cold_ok N acl (rs @ rs') x"
  by (auto simp: cold_ok_def)

lemma sent_ok_more: "sent_ok N acl rs x \<Longrightarrow> sent_ok N acl (rs @ rs') x"
  by (auto simp: sent_ok_def reply_ok_more)

text \<open>Receiving and sending as changes of the sequences alone.\<close>

lemma workers_ok_received:
  assumes "workers_ok L view N acl s"
  shows "workers_ok L view N acl (s\<lparr>wk_received := wk_received s @ [(src, packet)]\<rparr>)"
    and "add_mset src (sources (wk_sent s) + sources (wk_replied s) + sources (wk_running s) + sources (wk_cold s))
      \<subseteq># sources (wk_received s @ [(src, packet)])"
proof -
  from assms have "sources (wk_sent s) + sources (wk_replied s) + sources (wk_running s) + sources (wk_cold s)
      \<subseteq># sources (wk_received s)"
    by (simp add: workers_ok_def)
  from this below_add_mset [OF this, of src]
  show "workers_ok L view N acl (s\<lparr>wk_received := wk_received s @ [(src, packet)]\<rparr>)"
    and "add_mset src (sources (wk_sent s) + sources (wk_replied s) + sources (wk_running s) + sources (wk_cold s))
      \<subseteq># sources (wk_received s @ [(src, packet)])"
    using assms by (auto simp: workers_ok_def add.assoc intro: cold_ok_more sent_ok_more)
qed

lemma workers_ok_start: "server_inv L view w \<Longrightarrow> workers_ok L view N acl (workers_start w)"
  by (simp add: workers_ok_def workers_start_def)

lemma take_reply_ok:
  assumes "(src, packet) \<in> set received" and "txid_matches (take MONO_RECV_BUF packet) reply"
    and "length reply \<le> RECV_BUF"
  shows "reply_ok received (src, reply)"
  using assms txid_matches_take [of MONO_RECV_BUF packet reply]
  by (auto simp: reply_ok_def MONO_RECV_BUF_def)

lemma send_if_ok:
  assumes "workers_ok L view N acl s" and "server_inv L view w"
    and "sent_ok N acl (wk_received s) (src, reply)"
    and "add_mset src (sources (wk_sent s) + sources (wk_replied s) + sources (wk_running s) + sources (wk_cold s))
      \<subseteq># sources (wk_received s)"
  shows "workers_ok L view N acl (send_if ok src reply (s\<lparr>wk_world := w\<rparr>))"
  using assms by (auto simp: workers_ok_def send_if_def)

lemma worker_allow_ok:
  assumes ok: "workers_ok L view N acl s" and allow: "acl_decide N acl (socket_ip src) = Allow"
  shows "workers_ok L view N acl (worker_receive L N acl cfg rq ok' src packet s)"
proof -
  let ?buf = "take MONO_RECV_BUF packet" and ?s1 = "s\<lparr>wk_received := wk_received s @ [(src, packet)]\<rparr>"
  note s1 = workers_ok_received [OF ok, of src packet]
  from ok have inv: "server_inv L view (wk_world s)" by (simp add: workers_ok_def)
  obtain out w where c: "classify L cfg rq ?buf (wk_world s) = (out, w)" by fastforce
  note ci = classify_inv [OF inv c]
  show ?thesis
  proof (cases out)
    case (Reply resp)
    have "sent_ok N acl (wk_received ?s1) (src, resp)"
      using ci(3) [OF Reply] allow take_reply_ok [of src packet "wk_received ?s1" resp]
      by (simp add: sent_ok_def)
    then have "workers_ok L view N acl (send_if ok' src resp (?s1\<lparr>wk_world := w\<rparr>))"
      using ci(1) s1 by (intro send_if_ok) simp_all
    with Reply allow c show ?thesis by (simp add: worker_receive_def)
  next
    case (Miss q)
    have "cold_ok N acl (wk_received ?s1) (src, q, rq_timestamp_ms rq)"
      using ci(2) [OF Miss] allow by (auto simp: cold_ok_def)
    with s1 ci(1) Miss allow c show ?thesis
      by (auto simp: worker_receive_def workers_ok_def)
  next
    case Drop
    with s1(1) ci(1) allow c show ?thesis by (auto simp: worker_receive_def workers_ok_def)
  qed
qed

lemma worker_receive_ok:
  assumes ok: "workers_ok L view N acl s"
  shows "workers_ok L view N acl (worker_receive L N acl cfg rq ok' src packet s)"
proof (cases "acl_decide N acl (socket_ip src)")
  case Allow
  with ok show ?thesis by (rule worker_allow_ok)
next
  case Deny
  with workers_ok_received(1) [OF ok] show ?thesis by (simp add: worker_receive_def)
next
  case Refuse
  let ?s1 = "s\<lparr>wk_received := wk_received s @ [(src, packet)]\<rparr>"
  note s1 = workers_ok_received [OF ok, of src packet]
  show ?thesis
  proof (cases "refuse L (take MONO_RECV_BUF packet)")
    case None
    with Refuse s1(1) show ?thesis by (simp add: worker_receive_def)
  next
    case (Some resp)
    have "sent_ok N acl (wk_received ?s1) (src, resp)"
      using refuse_reply [OF Some] Refuse take_reply_ok [of src packet "wk_received ?s1" resp]
      by (simp add: sent_ok_def)
    then have "workers_ok L view N acl (send_if ok' src resp (?s1\<lparr>wk_world := wk_world s\<rparr>))"
      using s1 ok by (intro send_if_ok) (simp_all add: workers_ok_def)
    with Refuse Some show ?thesis by (simp add: worker_receive_def)
  qed
qed

lemma cold_take_ok: "workers_ok L view N acl s \<Longrightarrow> workers_ok L view N acl (cold_take s)"
  by (auto simp: workers_ok_def cold_take_def split: list.split)

lemma cold_task_ok:
  assumes ok: "workers_ok L view N acl s" and req: "req \<in> set (wk_running s)"
  shows "workers_ok L view N acl (cold_task L Q cfg rq req s)"
proof -
  let ?rq = "rq\<lparr>rq_timestamp_ms := snd (snd req)\<rparr>"
  obtain src q ts where parts: "req = (src, q, ts)" by (cases req)
  from ok req have inv: "server_inv L view (wk_world s)" and cok: "cold_ok N acl (wk_received s) req"
    by (simp_all add: workers_ok_def)
  from cok obtain packet where pk: "(src, packet) \<in> set (wk_received s)" "q_raw q = take MONO_RECV_BUF packet"
    and qok: "query_ok q" and allow: "acl_decide N acl (socket_ip src) = Allow"
    by (auto simp: cold_ok_def parts)
  obtain r w where h: "handle_parsed L Q cfg ?rq q (wk_world s) = (r, w)" by fastforce
  have inv': "server_inv L view w" by (rule handle_parsed_inv [OF qok inv h])
  have run: "set (remove1 req (wk_running s)) \<subseteq> set (wk_running s)" by (rule set_remove1_subset)
  have src: "sources (wk_running s) = add_mset src (sources (remove1 req (wk_running s)))"
    using sources_remove1 [OF req] by (simp add: parts)
  show ?thesis
  proof (cases r)
    case (Inl e)
    have "sources (wk_sent s) + sources (wk_replied s) + sources (remove1 req (wk_running s)) + sources (wk_cold s)
        \<subseteq># sources (wk_received s)"
      using ok by (auto simp: workers_ok_def src dest: add_mset_below)
    with ok inv' h Inl run show ?thesis
      by (auto simp: cold_task_def parts workers_ok_def)
  next
    case (Inr resp)
    from handle_parsed_reply(1,2) [OF qok inv] h Inr
    have "txid_matches (q_raw q) resp" "length resp \<le> RECV_BUF" by auto
    with take_reply_ok [OF pk(1)] allow have "sent_ok N acl (wk_received s) (src, resp)"
      by (simp add: sent_ok_def pk(2))
    with ok inv' h Inr run src show ?thesis
      by (auto simp: cold_task_def parts workers_ok_def)
  qed
qed

lemma send_reply_ok:
  assumes ok: "workers_ok L view N acl s" and r: "r \<in> set (wk_replied s)"
  shows "workers_ok L view N acl (send_reply ok' r s)"
proof -
  have src: "sources (wk_replied s) = add_mset (fst r) (sources (remove1 r (wk_replied s)))"
    using sources_remove1 [OF r] by simp
  have "set (remove1 r (wk_replied s)) \<subseteq> set (wk_replied s)" by (rule set_remove1_subset)
  moreover from ok have "sources (wk_sent s) + sources (remove1 r (wk_replied s)) + sources (wk_running s) +
      sources (wk_cold s) \<subseteq># sources (wk_received s)"
    by (auto simp: workers_ok_def src dest: add_mset_below)
  ultimately show ?thesis
    using ok r by (auto simp: workers_ok_def send_reply_def send_if_def src)
qed

lemma worker_step_ok:
  assumes "worker_step L Q N acl s s'" and "workers_ok L view N acl s"
  shows "workers_ok L view N acl s'"
  using assms by cases (auto intro: worker_receive_ok cold_take_ok cold_task_ok send_reply_ok)

interpretation datapath: step_invariant "worker_step L Q N acl" "workers_ok L view N acl"
  for L :: "('rt, 'm, 'r, 'db, 'x) cache_libs_scheme" and Q :: "('sock, 'qu) queue_libs"
    and N :: "('net, 'ndb, 'y) acl_libs_scheme" and acl view
  by unfold_locales (rule worker_step_ok)

end
