(* ===== verification/Loadgen.thy ===== *)
theory Loadgen
  imports Rust_Text Wire_Names
begin

text \<open>
  The load generator \<open>backend/examples/loadgen.rs\<close>: the query it sends, its workers, each a
  loop that ends with the clock, and the totals. Sockets and clocks are a script of what each
  attempt meets; the histogram of the crate \<open>hdrhistogram\<close> is a parameter. The printed report
  is not modelled.
\<close>

section \<open>The query\<close>

definition load_header :: bytes where
  "load_header = u16_to_be_bytes 0x1234 @ [0x01, 0x00] @ [0x00, 0x01] @ [0x00, 0x00, 0x00, 0x00, 0x00, 0x00]"

definition build_query :: "string \<Rightarrow> bytes" where
  "build_query domain =
     load_header @
     concat (map (\<lambda>label. of_nat (length label) # map byte_of_char label) (split_on CHR ''.'' domain)) @
     [0x00] @ [0x00, 0x01] @ [0x00, 0x01]"

text \<open>The datagrams of \<open>warmup\<close>; what comes back is not looked at.\<close>

definition warmup :: "bool \<Rightarrow> bool \<Rightarrow> bytes \<Rightarrow> bytes list" where
  "warmup bound connected query = (if bound \<and> connected then [query, query, query] else [])"

section \<open>Workers and totals\<close>

record 'h hist_libs =
  hist_with_bounds :: "u64 \<Rightarrow> u64 \<Rightarrow> nat \<Rightarrow> 'h option"
  hist_record :: "'h \<Rightarrow> u64 \<Rightarrow> 'h option"
  hist_add :: "'h \<Rightarrow> 'h \<Rightarrow> 'h option"

record 'h load_stats =
  ld_completed :: u64
  ld_errors :: u64
  ld_hist :: 'h

definition new_hist :: "('h, 'z) hist_libs_scheme \<Rightarrow> 'h option" where
  "new_hist L = hist_with_bounds L 1 10000000 3"

text \<open>
  One turn of the loop as the worker meets it: the clock at the test of the deadline, whether
  the datagram is sent, whether a reply comes within the timeout, and after how long.
\<close>

record attempt =
  at_now :: nat
  at_sent :: bool
  at_answered :: bool
  at_elapsed_us :: u64

definition load_step :: "('h, 'z) hist_libs_scheme \<Rightarrow> attempt \<Rightarrow> 'h load_stats \<Rightarrow> 'h load_stats" where
  "load_step L a st =
     (if \<not> at_sent a then st\<lparr>ld_errors := ld_errors st + 1\<rparr>
      else if at_answered a then
        st\<lparr>ld_completed := ld_completed st + 1,
           ld_hist := (case hist_record L (ld_hist st) (at_elapsed_us a) of Some h \<Rightarrow> h | None \<Rightarrow> ld_hist st)\<rparr>
      else st\<lparr>ld_errors := ld_errors st + 1\<rparr>)"

text \<open>The loop need not end when the clock stands still, and then there is no result.\<close>

partial_function (option) load_loop ::
  "('h, 'z) hist_libs_scheme \<Rightarrow> (nat \<Rightarrow> attempt) \<Rightarrow> nat \<Rightarrow> nat \<Rightarrow> 'h load_stats \<Rightarrow> 'h load_stats option" where
  "load_loop L net deadline i st =
     (if at_now (net i) < deadline then load_loop L net deadline (i + 1) (load_step L (net i) st)
      else Some st)"

text \<open>What a spawned worker meets; a panic of a worker is the left side of its result.\<close>

record load_env =
  le_bound :: bool
  le_connected :: bool
  le_net :: "nat \<Rightarrow> attempt"

definition load_worker ::
  "('h, 'z) hist_libs_scheme \<Rightarrow> nat \<Rightarrow> load_env \<Rightarrow> (unit + 'h load_stats) option" where
  "load_worker L deadline e =
     (case new_hist L of
        None \<Rightarrow> Some (Inl ())
      | Some h \<Rightarrow>
          let st = \<lparr>ld_completed = 0, ld_errors = 0, ld_hist = h\<rparr>
          in if \<not> le_bound e then Some (Inr st)
             else if \<not> le_connected e then Some (Inr st)
             else map_option Inr (load_loop L (le_net e) deadline 0 st))"

definition load_add ::
  "('h, 'z) hist_libs_scheme \<Rightarrow> unit + 'h load_stats \<Rightarrow> 'h load_stats \<Rightarrow> 'h load_stats" where
  "load_add L res st =
     (case res of
        Inl _ \<Rightarrow> st
      | Inr s \<Rightarrow>
          st\<lparr>ld_completed := ld_completed st + ld_completed s, ld_errors := ld_errors st + ld_errors s,
             ld_hist := (case hist_add L (ld_hist st) (ld_hist s) of Some h \<Rightarrow> h | None \<Rightarrow> ld_hist st)\<rparr>)"

text \<open>The test as a whole: the workers are listed in the order in which they finish.\<close>

definition load_main ::
  "('h, 'z) hist_libs_scheme \<Rightarrow> nat \<Rightarrow> load_env list \<Rightarrow> (unit + 'h load_stats) option" where
  "load_main L deadline es =
     (case new_hist L of
        None \<Rightarrow> Some (Inl ())
      | Some h \<Rightarrow>
          (case those (map (load_worker L deadline) es) of
             None \<Rightarrow> None
           | Some results \<Rightarrow>
               Some (Inr (fold (load_add L) results \<lparr>ld_completed = 0, ld_errors = 0, ld_hist = h\<rparr>))))"

text \<open>
  The options with their defaults, and what \<open>main\<close> does with them: the query of the domain, three
  datagrams to warm up, and as many workers as asked for, up to a deadline in nanoseconds.
  \<open>envs i\<close> is what the worker meets that ends as number \<open>i\<close>.
\<close>

record load_args =
  la_server :: socket_addr
  la_duration :: u64
  la_concurrency :: nat
  la_domain :: string
  la_timeout_ms :: u64

definition default_load_args :: load_args where
  "default_load_args = \<lparr>la_server = SocketV4 0x7F000001 5356, la_duration = 10, la_concurrency = 200,
     la_domain = ''example.com'', la_timeout_ms = 2000\<rparr>"

record 'h load_test =
  lt_warmup :: "bytes list"
  lt_query :: bytes
  lt_result :: "(unit + 'h load_stats) option"

definition load_run ::
  "('h, 'z) hist_libs_scheme \<Rightarrow> load_args \<Rightarrow> bool \<Rightarrow> bool \<Rightarrow> nat \<Rightarrow> (nat \<Rightarrow> load_env) \<Rightarrow> 'h load_test" where
  "load_run L args bound connected now envs =
     (let q = build_query (la_domain args) in
      \<lparr>lt_warmup = warmup bound connected q, lt_query = q,
       lt_result = load_main L (now + unat (la_duration args) * 1000000000) (map envs [0..<la_concurrency args])\<rparr>)"

section \<open>The query is one the server parses\<close>

definition labels_of :: "string \<Rightarrow> bytes list" where
  "labels_of domain = map (map byte_of_char) (split_on CHR ''.'' domain)"

lemma byte_of_dot: "byte_of_char CHR ''.'' = 46" by code_simp

lemma dotted_map: "dotted (map (map byte_of_char) ls) = map byte_of_char (join_with CHR ''.'' ls)"
  by (induction ls) (auto simp: dotted_Cons join_with_Cons byte_of_dot)

lemma dotted_labels_of: "dotted (labels_of domain) = map byte_of_char domain"
  by (simp add: labels_of_def dotted_map join_split)

lemma length_load_header: "length load_header = HEADER"
  by (simp add: load_header_def HEADER_def)

lemma build_query_packet: "build_query domain = question_packet load_header (labels_of domain) 1 [0, 1]"
proof -
  have "concat (map (\<lambda>label. of_nat (length label) # map byte_of_char label) ls)
      = encode_labels (map (map byte_of_char) ls)" for ls
    by (induction ls) simp_all
  moreover have "u16_to_be_bytes 1 = [0, 1]" by code_simp
  ultimately show ?thesis
    by (simp add: build_query_def question_packet_def encode_name_def labels_of_def)
qed

lemma parse_build_query:
  assumes "\<forall>l \<in> set (labels_of domain). label_ok l" and "length (encode_labels (labels_of domain)) \<le> MAX_NAME"
  shows "parse_udp L (build_query domain) =
    Inr \<lparr>q_name = from_utf8_lossy (lowered (map byte_of_char domain)), q_type = rt_from_u16 L 1,
      q_raw = build_query domain, q_answer_offset = length (build_query domain)\<rparr>"
proof -
  have "length (build_query domain) = HEADER + length (encode_name (labels_of domain)) + 4"
    by (simp add: build_query_packet question_packet_def length_load_header)
  with parse_udp_question_packet [OF length_load_header assms(1), of L 1 "[0, 1]"] assms(2)
  show ?thesis
    by (simp add: build_query_packet dotted_labels_of)
qed

text \<open>
  A domain written with a dot at its end is encoded with a second zero octet, which the server
  reads as part of the type: it is asked for type 0 and not for addresses.
\<close>

lemma build_query_root:
  "build_query (domain @ ''.'') =
    load_header @ encode_labels (labels_of domain) @ [0, 0, 0, 1, 0, 1]"
proof -
  have "split_on CHR ''.'' (domain @ ''.'') = split_on CHR ''.'' domain @ [[]]"
    using split_on_append_sep [of "CHR ''.''" domain "[]"] by simp
  moreover have "encode_labels (ls @ [[]]) = encode_labels ls @ [0]" for ls
    by (induction ls) simp_all
  moreover have "u16_to_be_bytes 1 = [0, 1]" by code_simp
  ultimately show ?thesis
    by (simp add: build_query_packet labels_of_def question_packet_def encode_name_def)
qed

lemma parse_build_query_root:
  assumes "\<forall>l \<in> set (labels_of domain). label_ok l" and "length (encode_labels (labels_of domain)) \<le> MAX_NAME"
  shows "\<exists>q. parse_udp L (build_query (domain @ ''.'')) = Inr q \<and> q_type q = rt_from_u16 L 0 \<and>
    q_name q = from_utf8_lossy (lowered (map byte_of_char domain))"
proof -
  have "u16_to_be_bytes 0 = [0, 0]" by code_simp
  then have "build_query (domain @ ''.'') = question_packet load_header (labels_of domain) 0 [1, 0, 1]"
    by (simp add: build_query_root question_packet_def encode_name_def)
  with parse_udp_question_packet [OF length_load_header assms(1), of L 0 "[1, 0, 1]"] assms(2)
  show ?thesis by (simp add: dotted_labels_of)
qed

section \<open>Every attempt is counted once\<close>

definition load_ends :: "nat \<Rightarrow> load_env \<Rightarrow> bool" where
  "load_ends deadline e \<longleftrightarrow> (le_bound e \<and> le_connected e \<longrightarrow> (\<exists>i. deadline \<le> at_now (le_net e i)))"

definition load_tried :: "nat \<Rightarrow> load_env \<Rightarrow> attempt list" where
  "load_tried deadline e =
     (if le_bound e \<and> le_connected e
      then map (le_net e) [0..<LEAST i. deadline \<le> at_now (le_net e i)] else [])"

definition attempt_ok :: "attempt \<Rightarrow> bool" where
  "attempt_ok a \<longleftrightarrow> at_sent a \<and> at_answered a"

text \<open>\<open>counted\<close>: the two counters, which wrap, against the attempts they count.\<close>

definition counted :: "'h load_stats \<Rightarrow> attempt list \<Rightarrow> bool" where
  "counted st as \<longleftrightarrow> ld_completed st = of_nat (length (filter attempt_ok as)) \<and>
     ld_errors st = of_nat (length (filter (Not \<circ> attempt_ok) as))"

lemma counted_step: "counted st as \<Longrightarrow> counted (load_step L a st) (as @ [a])"
  by (auto simp: counted_def load_step_def attempt_ok_def)

lemma load_loop_ends:
  assumes "deadline \<le> at_now (net n)" and "\<forall>k < n. at_now (net k) < deadline" and "i \<le> n"
  shows "load_loop L net deadline i st = Some (fold (load_step L) (map net [i..<n]) st)"
  using assms(3)
proof (induction "n - i" arbitrary: i st)
  case 0
  with assms(1) show ?case by (simp add: load_loop.simps)
next
  case (Suc k)
  then have "i < n" and "at_now (net i) < deadline" using assms(2) by auto
  with Suc show ?case by (subst load_loop.simps) (simp add: upt_conv_Cons)
qed

lemma load_loop_needs_deadline:
  "load_loop L net deadline i st = Some r \<Longrightarrow> \<exists>n. deadline \<le> at_now (net n)"
proof (rule load_loop.raw_induct [where P = "\<lambda>L net deadline i st r. \<exists>n. deadline \<le> at_now (net n)"])
  fix f :: "('a, 'b) hist_libs_scheme \<Rightarrow> (nat \<Rightarrow> attempt) \<Rightarrow> nat \<Rightarrow> nat \<Rightarrow> 'a load_stats \<Rightarrow> 'a load_stats option"
    and L net deadline i st r
  assume "\<And>L net deadline i st r. f L net deadline i st = Some r \<Longrightarrow> \<exists>n. deadline \<le> at_now (net n)"
    and "(if at_now (net i) < deadline then f L net deadline (i + 1) (load_step L (net i) st) else Some st) = Some r"
  then show "\<exists>n. deadline \<le> at_now (net n)"
    by (cases "at_now (net i) < deadline") (auto simp: not_less)
qed

lemma counted_fold: "counted st as \<Longrightarrow> counted (fold (load_step L) bs st) (as @ bs)"
proof (induction bs arbitrary: st as)
  case (Cons b bs)
  from Cons.IH [OF counted_step [OF Cons.prems]] show ?case by simp
qed simp

lemma load_worker_result:
  assumes "new_hist L = Some h"
  shows "if load_ends deadline e
    then \<exists>s. load_worker L deadline e = Some (Inr s) \<and> counted s (load_tried deadline e)
    else load_worker L deadline e = None"
proof (cases "le_bound e \<and> le_connected e")
  case False
  then show ?thesis
    by (auto simp: load_worker_def assms load_ends_def load_tried_def counted_def Let_def)
next
  case True
  let ?P = "\<lambda>i. deadline \<le> at_now (le_net e i)" and ?st = "\<lparr>ld_completed = 0, ld_errors = 0, ld_hist = h\<rparr>"
  have worker: "load_worker L deadline e = map_option Inr (load_loop L (le_net e) deadline 0 ?st)"
    using True by (simp add: load_worker_def assms)
  show ?thesis
  proof (cases "\<exists>i. ?P i")
    case ends: True
    then have "?P (LEAST i. ?P i)" by (rule LeastI_ex)
    moreover have "\<forall>k < (LEAST i. ?P i). at_now (le_net e k) < deadline"
      by (auto dest: not_less_Least simp: not_le)
    ultimately have "load_loop L (le_net e) deadline 0 ?st = Some (fold (load_step L) (load_tried deadline e) ?st)"
      using load_loop_ends [of deadline "le_net e" "LEAST i. ?P i" 0 L] True by (simp add: load_tried_def)
    moreover have "counted (fold (load_step L) (load_tried deadline e) ?st) (load_tried deadline e)"
      using counted_fold [of ?st "[]"] by (simp add: counted_def)
    ultimately show ?thesis using ends by (simp add: worker load_ends_def)
  next
    case False
    with load_loop_needs_deadline [of L "le_net e" deadline 0 ?st]
    have "load_loop L (le_net e) deadline 0 ?st = None" by (cases "load_loop L (le_net e) deadline 0 ?st") blast+
    with False True show ?thesis by (simp add: worker load_ends_def)
  qed
qed

lemma load_workers_result:
  assumes "new_hist L = Some h" and "counted st as"
  shows "if \<forall>e \<in> set es. load_ends deadline e
    then \<exists>rs. those (map (load_worker L deadline) es) = Some rs \<and>
      counted (fold (load_add L) rs st) (as @ concat (map (load_tried deadline) es))
    else those (map (load_worker L deadline) es) = None"
  using assms(2)
proof (induction es arbitrary: st as)
  case (Cons e es)
  show ?case
  proof (cases "load_ends deadline e")
    case True
    with load_worker_result [OF assms(1), of deadline e] obtain s where
      s: "load_worker L deadline e = Some (Inr s)" "counted s (load_tried deadline e)" by auto
    then have "counted (load_add L (Inr s) st) (as @ load_tried deadline e)"
      using Cons.prems by (simp add: counted_def load_add_def)
    from Cons.IH [OF this] s(1) True show ?thesis by (auto split: if_splits)
  next
    case False
    with load_worker_result [OF assms(1), of deadline e] show ?thesis by simp
  qed
qed simp

lemma counted_all: "counted st as \<Longrightarrow> ld_completed st + ld_errors st = of_nat (length as)"
  using sum_length_filter_compl [of attempt_ok as] by (simp add: counted_def comp_def flip: of_nat_add)

lemma load_main_result:
  assumes "new_hist L = Some h"
  shows "if \<forall>e \<in> set es. load_ends deadline e
    then \<exists>st. load_main L deadline es = Some (Inr st) \<and> counted st (concat (map (load_tried deadline) es))
    else load_main L deadline es = None"
  using load_workers_result [OF assms, of "\<lparr>ld_completed = 0, ld_errors = 0, ld_hist = h\<rparr>" "[]" es deadline]
  by (auto simp: load_main_def assms counted_def split: if_splits)

text \<open>The default test asks for \<open>example.com\<close>, and the server parses what it sends.\<close>

lemma default_query_parses:
  "parse_udp L (lt_query (load_run H default_load_args bound connected now envs)) =
     Inr \<lparr>q_name = ''example.com'', q_type = rt_from_u16 L 1,
       q_raw = build_query ''example.com'', q_answer_offset = length (build_query ''example.com'')\<rparr>"
proof -
  have labels: "labels_of ''example.com'' = [[101, 120, 97, 109, 112, 108, 101], [99, 111, 109]]" by code_simp
  have name: "from_utf8_lossy (lowered (map byte_of_char ''example.com'')) = ''example.com''" by code_simp
  have ok: "\<forall>l \<in> set (labels_of ''example.com''). label_ok l"
      "length (encode_labels (labels_of ''example.com'')) \<le> MAX_NAME"
    unfolding labels by (simp_all add: label_ok_def MAX_LABEL_def MAX_NAME_def)
  have query: "lt_query (load_run H default_load_args bound connected now envs) = build_query ''example.com''"
    by (simp add: load_run_def default_load_args_def Let_def)
  show ?thesis unfolding query parse_build_query [OF ok] name ..
qed

lemma load_run_workers:
  assumes "new_hist L = Some h"
  shows "lt_result (load_run L args bound connected now envs) =
    map_option (\<lambda>results. Inr (fold (load_add L) results \<lparr>ld_completed = 0, ld_errors = 0, ld_hist = h\<rparr>))
      (those (map (\<lambda>i. load_worker L (now + unat (la_duration args) * 1000000000) (envs i)) [0..<la_concurrency args]))"
  using assms by (simp add: load_run_def load_main_def Let_def comp_def split: option.split)

end
