(* ===== verification/Auth.thy ===== *)
theory Auth
  imports Config
begin

text \<open>
  \<open>backend/src/api/auth.rs\<close>: users with hashed passwords, sessions in memory, API tokens in
  the database, and the guard of the management routes. Password hashing, SHA-256, the
  statements and the decoding of a header are parameters; what a request draws from outside
  (clocks, salt, random bytes) is an argument of the operation.
\<close>

section \<open>Data\<close>

record user_info =
  ui_username :: string
  ui_created_at :: i64
  ui_last_login :: "i64 option"

record token_info =
  ti_id :: i64
  ti_name :: string
  ti_created_at :: i64
  ti_last_used :: "i64 option"
  ti_expires_at :: "i64 option"

text \<open>\<open>SESSION_TTL\<close>, in seconds; instants are in nanoseconds.\<close>

definition SESSION_TTL :: nat where "SESSION_TTL = 86400"

definition session_ns :: nat where "session_ns = SESSION_TTL * 1000000000"

record ('ph, 'db) auth_libs =
  argon_hash :: "string \<Rightarrow> string \<Rightarrow> string"
  phc_parse :: "string \<Rightarrow> 'ph option"
  argon_verify :: "string \<Rightarrow> 'ph \<Rightarrow> bool"
  sha256 :: "string \<Rightarrow> bytes"
  header_str :: "bytes \<Rightarrow> string option"
  sql_create_auth :: "('db, unit) sql"
  sql_count_users :: "('db, i64) sql"
  sql_insert_user :: "string \<Rightarrow> string \<Rightarrow> i64 \<Rightarrow> ('db, unit) sql"
  sql_user_by_name :: "string \<Rightarrow> ('db, (i64 \<times> string) option) sql"
  sql_touch_user :: "i64 \<Rightarrow> i64 \<Rightarrow> ('db, unit) sql"
  sql_valid_token :: "string \<Rightarrow> i64 \<Rightarrow> ('db, i64 option) sql"
  sql_touch_token :: "i64 \<Rightarrow> i64 \<Rightarrow> ('db, unit) sql"
  sql_list_users :: "('db, (string \<times> i64 \<times> i64 option) list) sql"
  sql_update_password :: "string \<Rightarrow> string \<Rightarrow> ('db, nat) sql"
  sql_delete_user :: "string \<Rightarrow> ('db, nat) sql"
  sql_insert_token :: "string \<Rightarrow> string \<Rightarrow> i64 \<Rightarrow> i64 option \<Rightarrow> ('db, unit) sql"
  sql_list_tokens :: "('db, (i64 \<times> string \<times> i64 \<times> i64 option \<times> i64 option) list) sql"
  sql_delete_token :: "i64 \<Rightarrow> ('db, nat) sql"

text \<open>\<open>Auth\<close>: the pool and the sessions, a map from tokens to the instant they end.\<close>

record 'db auth =
  au_db :: 'db
  au_sessions :: "string \<Rightarrow> nat option"

text \<open>What one request reads from its surroundings.\<close>

record auth_env =
  ae_unix :: i64
  ae_instant :: nat
  ae_salt :: string
  ae_random :: bytes

section \<open>Helpers\<close>

definition hex_digit :: "nat \<Rightarrow> char" where
  "hex_digit n = (if n < 10 then char_of (48 + n) else char_of (87 + n))"

definition hex_byte :: "u8 \<Rightarrow> string" where
  "hex_byte b = [hex_digit (unat b div 16), hex_digit (unat b mod 16)]"

definition hex_text :: "bytes \<Rightarrow> string" where
  "hex_text bs = concat (map hex_byte bs)"

definition sha256_hex :: "('ph, 'db, 'x) auth_libs_scheme \<Rightarrow> string \<Rightarrow> string" where
  "sha256_hex A input = hex_text (sha256 A input)"

definition random_token :: "auth_env \<Rightarrow> string" where
  "random_token env = hex_text (ae_random env)"

definition hash_password :: "('ph, 'db, 'x) auth_libs_scheme \<Rightarrow> auth_env \<Rightarrow> string \<Rightarrow> string" where
  "hash_password A env password = argon_hash A (ae_salt env) password"

definition verify :: "('ph, 'db, 'x) auth_libs_scheme \<Rightarrow> string \<Rightarrow> string \<Rightarrow> bool" where
  "verify A password phc =
     (case phc_parse A phc of Some parsed \<Rightarrow> argon_verify A password parsed | None \<Rightarrow> False)"

text \<open>A statement on the pool of an \<open>Auth\<close>.\<close>

definition on_pool :: "('db, 'r) sql \<Rightarrow> 'db auth \<Rightarrow> (sql_error + 'r) \<times> 'db auth" where
  "on_pool stmt a = (case stmt (au_db a) of (r, db) \<Rightarrow> (r, a\<lparr>au_db := db\<rparr>))"

section \<open>Operations\<close>

definition auth_new ::
  "('ph, 'db, 'x) auth_libs_scheme \<Rightarrow> auth_env \<Rightarrow> 'db \<Rightarrow> (sql_error + 'db auth) \<times> 'db" where
  "auth_new A env db =
     (case sql_create_auth A db of
        (Inl e, db1) \<Rightarrow> (Inl e, db1)
      | (Inr _, db1) \<Rightarrow>
          (case sql_count_users A db1 of
             (Inl e, db2) \<Rightarrow> (Inl e, db2)
           | (Inr users, db2) \<Rightarrow>
               (if users = 0 then
                  (case sql_insert_user A ''admin'' (hash_password A env ''admin'') (ae_unix env) db2 of
                     (Inl e, db3) \<Rightarrow> (Inl e, db3)
                   | (Inr _, db3) \<Rightarrow> (Inr \<lparr>au_db = db3, au_sessions = Map.empty\<rparr>, db3))
                else (Inr \<lparr>au_db = db2, au_sessions = Map.empty\<rparr>, db2))))"

definition login ::
  "('ph, 'db, 'x) auth_libs_scheme \<Rightarrow> auth_env \<Rightarrow> string \<Rightarrow> string \<Rightarrow> 'db auth \<Rightarrow>
     (string \<times> u64) option \<times> 'db auth" where
  "login A env user pass a =
     (case on_pool (sql_user_by_name A user) a of
        (Inl _, a1) \<Rightarrow> (None, a1)
      | (Inr None, a1) \<Rightarrow> (None, a1)
      | (Inr (Some (uid, hash)), a1) \<Rightarrow>
          (if \<not> verify A pass hash then (None, a1)
           else
             let a2 = snd (on_pool (sql_touch_user A (ae_unix env) uid) a1);
                 token = random_token env
             in (Some (token, of_nat SESSION_TTL),
                 a2\<lparr>au_sessions := (au_sessions a2)(token \<mapsto> ae_instant env + session_ns)\<rparr>)))"

definition validate ::
  "('ph, 'db, 'x) auth_libs_scheme \<Rightarrow> auth_env \<Rightarrow> string \<Rightarrow> 'db auth \<Rightarrow> bool \<times> 'db auth" where
  "validate A env token a =
     (let live = (case au_sessions a token of Some end_at \<Rightarrow> ae_instant env < end_at | None \<Rightarrow> False) in
      if live then (True, a)
      else
        let a1 = a\<lparr>au_sessions := (au_sessions a)(token := None)\<rparr> in
        case on_pool (sql_valid_token A (sha256_hex A token) (ae_unix env)) a1 of
          (Inr (Some tid), a2) \<Rightarrow> (True, snd (on_pool (sql_touch_token A (ae_unix env) tid) a2))
        | (_, a2) \<Rightarrow> (False, a2))"

definition list_users ::
  "('ph, 'db, 'x) auth_libs_scheme \<Rightarrow> 'db auth \<Rightarrow> (sql_error + user_info list) \<times> 'db auth" where
  "list_users A a =
     (case on_pool (sql_list_users A) a of
        (Inl e, a1) \<Rightarrow> (Inl e, a1)
      | (Inr rows, a1) \<Rightarrow>
          (Inr (map (\<lambda>(u, c, l). \<lparr>ui_username = u, ui_created_at = c, ui_last_login = l\<rparr>) rows), a1))"

definition create_user ::
  "('ph, 'db, 'x) auth_libs_scheme \<Rightarrow> auth_env \<Rightarrow> string \<Rightarrow> string \<Rightarrow> 'db auth \<Rightarrow>
     (sql_error + unit) \<times> 'db auth" where
  "create_user A env user pass a =
     on_pool (sql_insert_user A user (hash_password A env pass) (ae_unix env)) a"

definition rows_changed :: "(sql_error + nat) \<times> 'db auth \<Rightarrow> (sql_error + bool) \<times> 'db auth" where
  "rows_changed r = (case r of (Inl e, a) \<Rightarrow> (Inl e, a) | (Inr n, a) \<Rightarrow> (Inr (0 < n), a))"

definition set_password ::
  "('ph, 'db, 'x) auth_libs_scheme \<Rightarrow> auth_env \<Rightarrow> string \<Rightarrow> string \<Rightarrow> 'db auth \<Rightarrow>
     (sql_error + bool) \<times> 'db auth" where
  "set_password A env user pass a =
     rows_changed (on_pool (sql_update_password A (hash_password A env pass) user) a)"

definition delete_user ::
  "('ph, 'db, 'x) auth_libs_scheme \<Rightarrow> string \<Rightarrow> 'db auth \<Rightarrow> (sql_error + bool) \<times> 'db auth" where
  "delete_user A user a = rows_changed (on_pool (sql_delete_user A user) a)"

text \<open>
  \<open>now_unix() + t\<close> on \<open>i64\<close> wraps around in a release build; a debug build would panic.
\<close>

definition token_expiry :: "auth_env \<Rightarrow> i64 option \<Rightarrow> i64 option" where
  "token_expiry env ttl_secs = map_option (\<lambda>t. ae_unix env + t) ttl_secs"

definition create_token ::
  "('ph, 'db, 'x) auth_libs_scheme \<Rightarrow> auth_env \<Rightarrow> string \<Rightarrow> i64 option \<Rightarrow> 'db auth \<Rightarrow>
     (sql_error + string) \<times> 'db auth" where
  "create_token A env name ttl_secs a =
     (let token = random_token env;
          hash = sha256_hex A token
      in case on_pool (sql_insert_token A name hash (ae_unix env) (token_expiry env ttl_secs)) a of
           (Inl e, a1) \<Rightarrow> (Inl e, a1)
         | (Inr _, a1) \<Rightarrow> (Inr token, a1))"

definition list_tokens ::
  "('ph, 'db, 'x) auth_libs_scheme \<Rightarrow> 'db auth \<Rightarrow> (sql_error + token_info list) \<times> 'db auth" where
  "list_tokens A a =
     (case on_pool (sql_list_tokens A) a of
        (Inl e, a1) \<Rightarrow> (Inl e, a1)
      | (Inr rows, a1) \<Rightarrow>
          (Inr (map (\<lambda>(i, n, c, l, e). \<lparr>ti_id = i, ti_name = n, ti_created_at = c, ti_last_used = l,
             ti_expires_at = e\<rparr>) rows), a1))"

definition revoke_token ::
  "('ph, 'db, 'x) auth_libs_scheme \<Rightarrow> i64 \<Rightarrow> 'db auth \<Rightarrow> (sql_error + bool) \<times> 'db auth" where
  "revoke_token A i a = rows_changed (on_pool (sql_delete_token A i) a)"

text \<open>The token of an \<open>Authorization\<close> header, and the decision of \<open>require_auth\<close>.\<close>

definition strip_prefix :: "string \<Rightarrow> string \<Rightarrow> string option" where
  "strip_prefix p s = (if take (length p) s = p then Some (drop (length p) s) else None)"

definition bearer_token :: "('ph, 'db, 'x) auth_libs_scheme \<Rightarrow> bytes option \<Rightarrow> string option" where
  "bearer_token A header =
     Option.bind (Option.bind header (header_str A)) (strip_prefix ''Bearer '')"

definition require_auth ::
  "('ph, 'db, 'x) auth_libs_scheme \<Rightarrow> auth_env \<Rightarrow> bytes option \<Rightarrow> 'db auth \<Rightarrow> bool \<times> 'db auth" where
  "require_auth A env header a =
     (case bearer_token A header of
        Some t \<Rightarrow> validate A env t a
      | None \<Rightarrow> (False, a))"

section \<open>Hexadecimal text\<close>

lemma hex_digit_inj: "m < 16 \<Longrightarrow> n < 16 \<Longrightarrow> hex_digit m = hex_digit n \<longleftrightarrow> m = n"
  by (auto simp: hex_digit_def char_of_eq_iff take_bit_eq_mod split: if_splits)

lemma hex_byte_inj [simp]: "hex_byte a = hex_byte b \<longleftrightarrow> a = b"
proof
  assume eq: "hex_byte a = hex_byte b"
  have "unat a div 16 < 16" "unat b div 16 < 16"
    using unat_byte_less [of a] unat_byte_less [of b] by simp_all
  with eq have "unat a div 16 = unat b div 16" "unat a mod 16 = unat b mod 16"
    by (simp_all add: hex_byte_def hex_digit_inj)
  then have "unat a = unat b" by (metis div_mult_mod_eq)
  then show "a = b" by (rule unsigned_word_eqI)
qed simp

lemma length_hex_text [simp]: "length (hex_text bs) = 2 * length bs"
  by (induction bs) (simp_all add: hex_text_def hex_byte_def)

lemma hex_text_inj: "hex_text as = hex_text bs \<longleftrightarrow> as = bs"
proof (induction as arbitrary: bs)
  case Nil
  then show ?case by (cases bs) (simp_all add: hex_text_def hex_byte_def)
next
  case (Cons a as)
  show ?case
  proof (cases bs)
    case Nil
    then show ?thesis by (simp add: hex_text_def hex_byte_def)
  next
    case bs: (Cons b bs')
    have "hex_text (a # as) = hex_text (b # bs') \<longleftrightarrow> hex_byte a = hex_byte b \<and> hex_text as = hex_text bs'"
      by (auto simp: hex_text_def hex_byte_def)
    with Cons.IH bs show ?thesis by simp
  qed
qed

section \<open>What the tables hold\<close>

text \<open>
  What the statements do, with \<open>users\<close> reading the id and the password hash stored for a name
  and \<open>tokens\<close> the rows of the token table. Looking up and touching change neither; a changing
  statement that succeeds changes what it says; \<open>username\<close> and \<open>token_hash\<close> are unique.
\<close>

type_synonym token_row = "i64 \<times> string \<times> i64 option"

definition unexpired :: "i64 option \<Rightarrow> i64 \<Rightarrow> bool" where
  "unexpired expires now = (case expires of None \<Rightarrow> True | Some e \<Rightarrow> sint now < sint e)"

definition reads_users ::
  "('ph, 'db, 'x) auth_libs_scheme \<Rightarrow> ('db \<Rightarrow> string \<Rightarrow> (i64 \<times> string) option) \<Rightarrow>
     ('db \<Rightarrow> token_row set) \<Rightarrow> bool" where
  "reads_users A users tokens \<longleftrightarrow>
     (\<forall>u db r db'. sql_user_by_name A u db = (r, db') \<longrightarrow>
        users db' = users db \<and> tokens db' = tokens db \<and> (\<forall>v. r = Inr v \<longrightarrow> v = users db u))"

definition reads_tokens ::
  "('ph, 'db, 'x) auth_libs_scheme \<Rightarrow> ('db \<Rightarrow> string \<Rightarrow> (i64 \<times> string) option) \<Rightarrow>
     ('db \<Rightarrow> token_row set) \<Rightarrow> bool" where
  "reads_tokens A users tokens \<longleftrightarrow>
     (\<forall>h now db r db'. sql_valid_token A h now db = (r, db') \<longrightarrow>
        users db' = users db \<and> tokens db' = tokens db \<and>
        (\<forall>v. r = Inr v \<longrightarrow>
           (\<forall>i. v = Some i \<longrightarrow> (\<exists>e. (i, h, e) \<in> tokens db \<and> unexpired e now)) \<and>
           (v = None \<longrightarrow> (\<forall>i e. (i, h, e) \<in> tokens db \<longrightarrow> \<not> unexpired e now))))"

definition touches ::
  "('ph, 'db, 'x) auth_libs_scheme \<Rightarrow> ('db \<Rightarrow> string \<Rightarrow> (i64 \<times> string) option) \<Rightarrow>
     ('db \<Rightarrow> token_row set) \<Rightarrow> bool" where
  "touches A users tokens \<longleftrightarrow>
     (\<forall>now i db. users (snd (sql_touch_user A now i db)) = users db \<and>
        tokens (snd (sql_touch_user A now i db)) = tokens db \<and>
        users (snd (sql_touch_token A now i db)) = users db \<and>
        tokens (snd (sql_touch_token A now i db)) = tokens db)"

definition changes_users ::
  "('ph, 'db, 'x) auth_libs_scheme \<Rightarrow> ('db \<Rightarrow> string \<Rightarrow> (i64 \<times> string) option) \<Rightarrow>
     ('db \<Rightarrow> token_row set) \<Rightarrow> bool" where
  "changes_users A users tokens \<longleftrightarrow>
     (\<forall>u h c db db'. sql_insert_user A u h c db = (Inr (), db') \<longrightarrow>
        tokens db' = tokens db \<and> users db u = None \<and> (\<exists>i. users db' = (users db)(u \<mapsto> (i, h)))) \<and>
     (\<forall>u h db n db'. sql_update_password A h u db = (Inr n, db') \<longrightarrow>
        tokens db' = tokens db \<and> (0 < n \<longleftrightarrow> users db u \<noteq> None) \<and>
        users db' = (users db)(u := map_option (\<lambda>(i, _). (i, h)) (users db u))) \<and>
     (\<forall>u db n db'. sql_delete_user A u db = (Inr n, db') \<longrightarrow>
        tokens db' = tokens db \<and> (0 < n \<longleftrightarrow> users db u \<noteq> None) \<and> users db' = (users db)(u := None))"

definition changes_tokens ::
  "('ph, 'db, 'x) auth_libs_scheme \<Rightarrow> ('db \<Rightarrow> string \<Rightarrow> (i64 \<times> string) option) \<Rightarrow>
     ('db \<Rightarrow> token_row set) \<Rightarrow> bool" where
  "changes_tokens A users tokens \<longleftrightarrow>
     (\<forall>m h c e db db'. sql_insert_token A m h c e db = (Inr (), db') \<longrightarrow>
        users db' = users db \<and> (\<exists>i. tokens db' = insert (i, h, e) (tokens db)) \<and>
        (\<forall>i e'. (i, h, e') \<notin> tokens db)) \<and>
     (\<forall>i db n db'. sql_delete_token A i db = (Inr n, db') \<longrightarrow>
        users db' = users db \<and> (0 < n \<longleftrightarrow> i \<in> fst ` tokens db) \<and>
        tokens db' = {t \<in> tokens db. fst t \<noteq> i})"

definition auth_law ::
  "('ph, 'db, 'x) auth_libs_scheme \<Rightarrow> ('db \<Rightarrow> string \<Rightarrow> (i64 \<times> string) option) \<Rightarrow>
     ('db \<Rightarrow> token_row set) \<Rightarrow> bool" where
  "auth_law A users tokens \<longleftrightarrow> reads_users A users tokens \<and> reads_tokens A users tokens \<and>
     touches A users tokens \<and> changes_users A users tokens \<and> changes_tokens A users tokens"

section \<open>Sessions\<close>

lemma on_pool_sessions [simp]: "au_sessions (snd (on_pool stmt a)) = au_sessions a"
  by (simp add: on_pool_def split: prod.split)

lemma on_pool_db: "on_pool stmt a = (r, a') \<Longrightarrow> stmt (au_db a) = (r, au_db a') \<and> au_sessions a' = au_sessions a"
  by (auto simp: on_pool_def split: prod.splits)

lemma rows_changed_sessions [simp]: "au_sessions (snd (rows_changed r)) = au_sessions (snd r)"
  by (auto simp: rows_changed_def split: prod.split sum.split)

lemma account_operations_sessions [simp]:
  "au_sessions (snd (list_users A a)) = au_sessions a"
  "au_sessions (snd (create_user A env user pass a)) = au_sessions a"
  "au_sessions (snd (set_password A env user pass a)) = au_sessions a"
  "au_sessions (snd (delete_user A user a)) = au_sessions a"
  "au_sessions (snd (create_token A env nm ttl a)) = au_sessions a"
  "au_sessions (snd (list_tokens A a)) = au_sessions a"
  "au_sessions (snd (revoke_token A i a)) = au_sessions a"
  by (auto simp: list_users_def create_user_def set_password_def delete_user_def create_token_def
      list_tokens_def revoke_token_def Let_def dest: on_pool_db split: prod.splits sum.splits)

text \<open>A login that succeeds adds one session, for the token it returns; a failed one adds none.\<close>

lemma login_cases:
  assumes "login A env user pass a = (r, a')"
  obtains (refused) "r = None" "au_sessions a' = au_sessions a"
  | (accepted) uid hash a1 where "on_pool (sql_user_by_name A user) a = (Inr (Some (uid, hash)), a1)"
      "verify A pass hash" "r = Some (random_token env, of_nat SESSION_TTL)"
      "au_sessions a' = (au_sessions a)(random_token env \<mapsto> ae_instant env + session_ns)"
      "au_db a' = snd (sql_touch_user A (ae_unix env) uid (au_db a1))"
  using assms
  by (auto simp: login_def Let_def on_pool_def split: prod.splits sum.splits option.splits if_splits)

lemma validate_sessions:
  assumes "validate A env token a = (ok, a')" and "au_sessions a' t = Some end_at"
  shows "au_sessions a t = Some end_at"
  using assms
  by (auto simp: validate_def Let_def on_pool_def split: prod.splits sum.splits option.splits if_splits)

text \<open>The two ways a token is valid.\<close>

lemma validate_True:
  assumes law: "auth_law A users tokens" and run: "validate A env token a = (True, a')"
  shows "(\<exists>end_at. au_sessions a token = Some end_at \<and> ae_instant env < end_at) \<or>
    (\<exists>i e. (i, sha256_hex A token, e) \<in> tokens (au_db a) \<and> unexpired e (ae_unix env))"
proof (cases "\<exists>end_at. au_sessions a token = Some end_at \<and> ae_instant env < end_at")
  case False
  let ?a1 = "a\<lparr>au_sessions := (au_sessions a)(token := None)\<rparr>"
  from False run obtain tid a2 where
    "on_pool (sql_valid_token A (sha256_hex A token) (ae_unix env)) ?a1 = (Inr (Some tid), a2)"
    by (auto simp: validate_def Let_def split: prod.splits sum.splits option.splits if_splits)
  from on_pool_db [OF this] have
    "sql_valid_token A (sha256_hex A token) (ae_unix env) (au_db a) = (Inr (Some tid), au_db a2)" by simp
  moreover from law have "reads_tokens A users tokens" by (simp add: auth_law_def)
  ultimately have "\<exists>e. (tid, sha256_hex A token, e) \<in> tokens (au_db a) \<and> unexpired e (ae_unix env)"
    unfolding reads_tokens_def by blast
  then show ?thesis by blast
qed simp

text \<open>
  The sessions over their history: for each login that succeeded, the database it saw, what it
  drew from outside, and the name and password it was given. Anything else the database goes
  through leaves the sessions alone.
\<close>

type_synonym 'db login_history = "('db \<times> auth_env \<times> string \<times> string) list"

inductive auth_step ::
  "('ph, 'db, 'x) auth_libs_scheme \<Rightarrow> 'db login_history \<times> 'db auth \<Rightarrow> 'db login_history \<times> 'db auth \<Rightarrow> bool"
  for A where
  logged_in: "login A env user pass a = (Some (token, ttl), a') \<Longrightarrow>
     auth_step A (h, a) ((au_db a, env, user, pass) # h, a')"
| not_logged_in: "login A env user pass a = (None, a') \<Longrightarrow> auth_step A (h, a) (h, a')"
| validated: "auth_step A (h, a) (h, snd (validate A env token a))"
| managed: "au_sessions a' = au_sessions a \<Longrightarrow> auth_step A (h, a) (h, a')"

definition credentials_ok ::
  "('ph, 'db, 'x) auth_libs_scheme \<Rightarrow> (string \<Rightarrow> (i64 \<times> string) option) \<Rightarrow> string \<Rightarrow> string \<Rightarrow> bool" where
  "credentials_ok A accounts user pass \<longleftrightarrow> (\<exists>uid hash. accounts user = Some (uid, hash) \<and> verify A pass hash)"

definition backed_session ::
  "('ph, 'db, 'x) auth_libs_scheme \<Rightarrow> ('db \<Rightarrow> string \<Rightarrow> (i64 \<times> string) option) \<Rightarrow> 'db login_history \<Rightarrow>
     string \<Rightarrow> nat \<Rightarrow> bool" where
  "backed_session A users h token end_at \<longleftrightarrow>
     (\<exists>(db, env, user, pass) \<in> set h. token = random_token env \<and>
        end_at = ae_instant env + session_ns \<and> credentials_ok A (users db) user pass)"

definition sessions_ok ::
  "('ph, 'db, 'x) auth_libs_scheme \<Rightarrow> ('db \<Rightarrow> string \<Rightarrow> (i64 \<times> string) option) \<Rightarrow>
     ('db \<Rightarrow> token_row set) \<Rightarrow> 'db login_history \<times> 'db auth \<Rightarrow> bool" where
  "sessions_ok A users tokens s \<longleftrightarrow> auth_law A users tokens \<and>
     (\<forall>token end_at. au_sessions (snd s) token = Some end_at \<longrightarrow>
        backed_session A users (fst s) token end_at)"

lemma sessions_ok_mono:
  assumes "sessions_ok A users tokens (h, a)" and "set h \<subseteq> set h'"
    and "\<And>token end_at. au_sessions a' token = Some end_at \<Longrightarrow> au_sessions a token = Some end_at"
  shows "sessions_ok A users tokens (h', a')"
  using assms unfolding sessions_ok_def backed_session_def fst_conv snd_conv by blast

lemma login_credentials:
  assumes law: "auth_law A users tokens" and run: "login A env user pass a = (Some r, a')"
  shows "credentials_ok A (users (au_db a)) user pass"
  using run
proof (cases rule: login_cases)
  case (accepted uid hash a1)
  from on_pool_db [OF accepted(1)]
  have "sql_user_by_name A user (au_db a) = (Inr (Some (uid, hash)), au_db a1)" by simp
  moreover from law have "reads_users A users tokens" by (simp add: auth_law_def)
  ultimately have "users (au_db a) user = Some (uid, hash)" by (simp add: reads_users_def)
  with accepted(2) show ?thesis by (auto simp: credentials_ok_def)
qed simp

lemma auth_step_sessions_ok:
  assumes "auth_step A s s'" and "sessions_ok A users tokens s"
  shows "sessions_ok A users tokens s'"
  using assms
proof (cases rule: auth_step.cases)
  case (logged_in env user pass a token ttl a' h)
  from assms(2) logged_in(1) have law: "auth_law A users tokens"
    and old: "\<And>t e. au_sessions a t = Some e \<Longrightarrow> backed_session A users h t e"
    by (simp_all add: sessions_ok_def)
  have "backed_session A users ((au_db a, env, user, pass) # h) t e" if "au_sessions a' t = Some e" for t e
  proof (cases "t = random_token env \<and> e = ae_instant env + session_ns")
    case True
    then show ?thesis
      using login_credentials [OF law logged_in(3)] by (auto simp: backed_session_def)
  next
    case False
    from logged_in(3) have "au_sessions a' = (au_sessions a)(random_token env \<mapsto> ae_instant env + session_ns)"
      by (cases rule: login_cases) auto
    with False that have "au_sessions a t = Some e" by (auto split: if_splits)
    from old [OF this] show ?thesis by (auto simp: backed_session_def)
  qed
  with law logged_in(2) show ?thesis by (simp add: sessions_ok_def)
next
  case (not_logged_in env user pass a a' h)
  from not_logged_in(3) have "au_sessions a' = au_sessions a" by (cases rule: login_cases) auto
  with not_logged_in(1,2) assms(2) show ?thesis by (auto intro: sessions_ok_mono)
next
  case (validated h a env token)
  obtain ok a' where run: "validate A env token a = (ok, a')" by fastforce
  from sessions_ok_mono [of A users tokens h a h a'] validate_sessions [OF run] validated assms(2) run
  show ?thesis by auto
next
  case (managed a' a h)
  with assms(2) show ?thesis by (auto intro: sessions_ok_mono)
qed

interpretation auth_sessions: step_invariant "auth_step A" "sessions_ok A users tokens"
  for A :: "('ph, 'db, 'x) auth_libs_scheme" and users tokens
  by unfold_locales (rule auth_step_sessions_ok)

text \<open>A valid token is a session less than a day old, or a row that has not expired.\<close>

definition login_backed ::
  "('ph, 'db, 'x) auth_libs_scheme \<Rightarrow> ('db \<Rightarrow> string \<Rightarrow> (i64 \<times> string) option) \<Rightarrow> 'db login_history \<Rightarrow>
     auth_env \<Rightarrow> string \<Rightarrow> bool" where
  "login_backed A users h env token \<longleftrightarrow>
     (\<exists>(db, e, user, pass) \<in> set h. token = random_token e \<and> credentials_ok A (users db) user pass \<and>
        ae_instant env < ae_instant e + session_ns)"

definition token_backed ::
  "('ph, 'db, 'x) auth_libs_scheme \<Rightarrow> ('db \<Rightarrow> token_row set) \<Rightarrow> 'db \<Rightarrow> auth_env \<Rightarrow> string \<Rightarrow> bool" where
  "token_backed A tokens db env token \<longleftrightarrow>
     (\<exists>i e. (i, sha256_hex A token, e) \<in> tokens db \<and> unexpired e (ae_unix env))"

lemma valid_token_backed:
  assumes ok: "sessions_ok A users tokens (h, a)" and run: "validate A env token a = (True, a')"
  shows "login_backed A users h env token \<or> token_backed A tokens (au_db a) env token"
proof -
  from ok have law: "auth_law A users tokens" by (simp add: sessions_ok_def)
  from validate_True [OF law run] show ?thesis
  proof
    assume "\<exists>end_at. au_sessions a token = Some end_at \<and> ae_instant env < end_at"
    then obtain end_at where "au_sessions a token = Some end_at" and lt: "ae_instant env < end_at" by blast
    with ok have "backed_session A users h token end_at" by (simp add: sessions_ok_def)
    with lt have "login_backed A users h env token"
      unfolding backed_session_def login_backed_def by blast
    then show ?thesis ..
  qed (simp add: token_backed_def)
qed

section \<open>API tokens\<close>

lemma validate_fresh_token:
  assumes law: "auth_law A users tokens"
    and new: "create_token A env nm ttl a = (Inr token, a1)"
    and none: "au_sessions a token = None"
    and ok: "sql_valid_token A (sha256_hex A token) (ae_unix env') (au_db a1) = (Inr v, db2)"
  shows "fst (validate A env' token a1) \<longleftrightarrow> unexpired (token_expiry env ttl) (ae_unix env')"
proof -
  let ?h = "sha256_hex A token"
  from new have token: "token = random_token env"
    and ins: "sql_insert_token A nm ?h (ae_unix env) (token_expiry env ttl) (au_db a) = (Inr (), au_db a1)"
    and s: "au_sessions a1 = au_sessions a"
    by (auto simp: create_token_def Let_def dest!: on_pool_db split: prod.splits sum.splits)
  from law have "changes_tokens A users tokens" by (simp add: auth_law_def)
  with ins obtain i where toks: "tokens (au_db a1) = insert (i, ?h, token_expiry env ttl) (tokens (au_db a))"
    and fresh: "\<forall>i e. (i, ?h, e) \<notin> tokens (au_db a)"
    using changes_tokens_def [THEN iffD1, THEN conjunct1, rule_format, OF _ ins] by metis
  from law have "reads_tokens A users tokens" by (simp add: auth_law_def)
  with ok have v: "\<forall>i. v = Some i \<longrightarrow> (\<exists>e. (i, ?h, e) \<in> tokens (au_db a1) \<and> unexpired e (ae_unix env'))"
    "v = None \<longrightarrow> (\<forall>i e. (i, ?h, e) \<in> tokens (au_db a1) \<longrightarrow> \<not> unexpired e (ae_unix env'))"
    unfolding reads_tokens_def by blast+
  have "fst (validate A env' token a1) \<longleftrightarrow> v \<noteq> None"
    using ok none by (cases v) (simp_all add: validate_def s Let_def on_pool_def)
  also have "\<dots> \<longleftrightarrow> unexpired (token_expiry env ttl) (ae_unix env')"
    using v toks fresh by (cases v) auto
  finally show ?thesis .
qed

end
