(* ===== verification/Analytics.thy ===== *)
theory Analytics
  imports Handler "HOL-Library.Sublist"
begin

text \<open>
  \<open>backend/src/analytics/\<close>: the counters (\<open>metrics.rs\<close>), the bounded channel from the query
  path to one draining task (\<open>producer.rs\<close>), the task that batches events from Kafka into
  ClickHouse (\<open>consumer.rs\<close>), and the reading of the backlog (\<open>stats.rs\<close>). Kafka, ClickHouse
  and the encodings are parameters or scripts of what they answer.
\<close>

section \<open>Counters\<close>

text \<open>
  The counter vector by its three labels, the latencies observed (in microseconds; the
  histogram gets them in seconds), and the gauges.
\<close>

record metrics =
  mt_blocked :: nat
  mt_hit :: nat
  mt_miss :: nat
  mt_latencies :: "u64 list"
  mt_block_size :: i64
  mt_allow_size :: i64
  mt_l1_entries :: i64

definition metrics_new :: metrics where
  "metrics_new = \<lparr>mt_blocked = 0, mt_hit = 0, mt_miss = 0, mt_latencies = [], mt_block_size = 0,
     mt_allow_size = 0, mt_l1_entries = 0\<rparr>"

definition record_event :: "dns_query_event \<Rightarrow> metrics \<Rightarrow> metrics" where
  "record_event ev m =
     (let m' = (if ev_blocked ev then m\<lparr>mt_blocked := mt_blocked m + 1\<rparr>
                else if ev_cache_hit ev then m\<lparr>mt_hit := mt_hit m + 1\<rparr>
                else m\<lparr>mt_miss := mt_miss m + 1\<rparr>)
      in m'\<lparr>mt_latencies := mt_latencies m' @ [ev_latency_us ev]\<rparr>)"

text \<open>\<open>render\<close>: the gauges are set and the registry is written as text, empty when not UTF-8.\<close>

definition render :: "(metrics \<Rightarrow> string option) \<Rightarrow> nat \<Rightarrow> nat \<Rightarrow> u64 \<Rightarrow> metrics \<Rightarrow> string \<times> metrics" where
  "render encode block_size allow_size l1_entries m =
     (let m' = m\<lparr>mt_block_size := of_nat block_size, mt_allow_size := of_nat allow_size,
                 mt_l1_entries := l1_entries\<rparr>
      in (unwrap_or (encode m') '''', m'))"

section \<open>The producer\<close>

definition CHANNEL_CAPACITY :: nat where "CHANNEL_CAPACITY = 10000"

text \<open>
  The sender, the queue of the channel, and what the draining task has: the counters, when
  there are any, and the Kafka records it has handed over, when there is a broker.
\<close>

record producer =
  pr_open :: bool
  pr_queue :: "dns_query_event list"
  pr_metrics :: "metrics option"
  pr_kafka :: "(string \<times> string) list option"

definition producer_disabled :: producer where
  "producer_disabled = \<lparr>pr_open = False, pr_queue = [], pr_metrics = None, pr_kafka = None\<rparr>"

definition producer_spawn :: "bool \<Rightarrow> metrics option \<Rightarrow> string option \<Rightarrow> producer" where
  "producer_spawn analytics_feature m kafka_brokers =
     (if m = None \<and> kafka_brokers = None then producer_disabled
      else \<lparr>pr_open = True, pr_queue = [], pr_metrics = m,
        pr_kafka = (if analytics_feature then map_option (\<lambda>_. []) kafka_brokers else None)\<rparr>)"

text \<open>\<open>try_send\<close> fails on a full channel, and \<open>send\<close> ignores it.\<close>

definition send :: "dns_query_event \<Rightarrow> producer \<Rightarrow> producer" where
  "send ev p =
     (if pr_open p \<and> length (pr_queue p) < CHANNEL_CAPACITY
      then p\<lparr>pr_queue := pr_queue p @ [ev]\<rparr> else p)"

definition send_kafka ::
  "(dns_query_event \<Rightarrow> string option) \<Rightarrow> dns_query_event \<Rightarrow> (string \<times> string) list \<Rightarrow> (string \<times> string) list" where
  "send_kafka payload_of ev log =
     (case payload_of ev of None \<Rightarrow> log | Some payload \<Rightarrow> log @ [(ev_domain ev, payload)])"

text \<open>One turn of the draining task.\<close>

definition process ::
  "(dns_query_event \<Rightarrow> string option) \<Rightarrow> dns_query_event \<Rightarrow> producer \<Rightarrow> producer" where
  "process payload_of ev p =
     p\<lparr>pr_metrics := map_option (record_event ev) (pr_metrics p),
       pr_kafka := map_option (send_kafka payload_of ev) (pr_kafka p)\<rparr>"

text \<open>
  The channel as a step relation, beside the events handed to \<open>send\<close> and those processed.
\<close>

record channel_state =
  cs_producer :: producer
  cs_submitted :: "dns_query_event list"
  cs_processed :: "dns_query_event list"

definition channel_start :: "producer \<Rightarrow> channel_state" where
  "channel_start p = \<lparr>cs_producer = p, cs_submitted = [], cs_processed = []\<rparr>"

inductive producer_step ::
  "(dns_query_event \<Rightarrow> string option) \<Rightarrow> channel_state \<Rightarrow> channel_state \<Rightarrow> bool" for payload_of where
  submit: "producer_step payload_of s
     (s\<lparr>cs_producer := send ev (cs_producer s), cs_submitted := cs_submitted s @ [ev]\<rparr>)"
| drain: "pr_queue (cs_producer s) = ev # rest \<Longrightarrow> producer_step payload_of s
     (s\<lparr>cs_producer := process payload_of ev ((cs_producer s)\<lparr>pr_queue := rest\<rparr>),
        cs_processed := cs_processed s @ [ev]\<rparr>)"

section \<open>The consumer\<close>

definition BATCH_SIZE :: nat where "BATCH_SIZE = 1000"

record dns_query_row =
  row_timestamp_ms :: u64
  row_domain :: string
  row_query_type :: string
  row_response_code :: string
  row_cache_hit :: u8
  row_blocked :: u8
  row_latency_us :: u64

record 'rt analytics_libs = "'rt dns_libs" +
  rc_from_display :: "u8 \<Rightarrow> u8 \<Rightarrow> string"
  event_from_json :: "bytes \<Rightarrow> dns_query_event option"

definition row_of_event :: "('rt, 'x) analytics_libs_scheme \<Rightarrow> dns_query_event \<Rightarrow> dns_query_row" where
  "row_of_event L e =
     \<lparr>row_timestamp_ms = ev_timestamp_ms e, row_domain = ev_domain e,
      row_query_type = rt_display L (rt_from_u16 L (ev_query_type e)),
      row_response_code = rc_from_display L (ucast (drop_bit 4 (ev_response_code e)))
        (ucast (ev_response_code e AND 0x0F)),
      row_cache_hit = (if ev_cache_hit e then 1 else 0), row_blocked = (if ev_blocked e then 1 else 0),
      row_latency_us = ev_latency_us e\<rparr>"

text \<open>
  What ClickHouse does with one insertion: whether it can be opened, which rows are written,
  whether it ends well, and whether the rows written arrive when it does not.
\<close>

record insert_script =
  is_open :: bool
  is_write :: "nat \<Rightarrow> bool"
  is_end :: bool
  is_arrives :: bool

record message =
  ms_offset :: nat
  ms_payload :: "bytes option"

text \<open>The batch, the rows handed to insertions so far, those that arrived, the last commit.\<close>

record consumer =
  co_batch :: "dns_query_row list"
  co_attempted :: "dns_query_row list"
  co_stored :: "dns_query_row list"
  co_committed :: "nat option"

definition written :: "insert_script \<Rightarrow> 'a list \<Rightarrow> 'a list" where
  "written i rows = map snd (filter (\<lambda>(n, _). is_write i n) (enumerate 0 rows))"

definition flush_batch :: "insert_script \<Rightarrow> consumer \<Rightarrow> consumer" where
  "flush_batch i c =
     (let stored = (if is_open i \<and> (is_end i \<or> is_arrives i) then co_stored c @ written i (co_batch c)
                    else co_stored c)
      in c\<lparr>co_attempted := co_attempted c @ co_batch c, co_stored := stored, co_batch := []\<rparr>)"

text \<open>The two branches of the loop. \<open>commit_message\<close> is ignored when it fails.\<close>

definition on_message ::
  "('rt, 'x) analytics_libs_scheme \<Rightarrow> insert_script \<Rightarrow> bool \<Rightarrow> message \<Rightarrow> consumer \<Rightarrow> consumer" where
  "on_message L i commit_ok m c =
     (case Option.bind (ms_payload m) (event_from_json L) of
        None \<Rightarrow> c
      | Some event \<Rightarrow>
          (let c1 = c\<lparr>co_batch := co_batch c @ [row_of_event L event]\<rparr> in
           if BATCH_SIZE \<le> length (co_batch c1) then
             (let c2 = flush_batch i c1 in
              if commit_ok then c2\<lparr>co_committed := Some (ms_offset m)\<rparr> else c2)
           else c1))"

definition on_tick :: "insert_script \<Rightarrow> consumer \<Rightarrow> consumer" where
  "on_tick i c = (if co_batch c \<noteq> [] then flush_batch i c else c)"

text \<open>The loop as a step relation, beside the messages received; an error of Kafka is only logged.\<close>

record consumer_state =
  cn_consumer :: consumer
  cn_received :: "message list"

definition consumer_start :: consumer_state where
  "consumer_start = \<lparr>cn_consumer = \<lparr>co_batch = [], co_attempted = [], co_stored = [],
     co_committed = None\<rparr>, cn_received = []\<rparr>"

inductive consumer_step ::
  "('rt, 'x) analytics_libs_scheme \<Rightarrow> consumer_state \<Rightarrow> consumer_state \<Rightarrow> bool" for L where
  received: "consumer_step L s (s\<lparr>cn_consumer := on_message L i commit_ok m (cn_consumer s),
     cn_received := cn_received s @ [m]\<rparr>)"
| receive_failed: "consumer_step L s s"
| ticked: "consumer_step L s (s\<lparr>cn_consumer := on_tick i (cn_consumer s)\<rparr>)"

text \<open>
  The loop before that: attempt after attempt to create the table, with the waits between them
  in seconds. \<open>created n\<close> tells whether attempt \<open>n\<close> succeeds; the loop need not end.
\<close>

definition next_backoff :: "nat \<Rightarrow> nat" where "next_backoff b = min (b * 2) 30"

partial_function (option) table_loop :: "(nat \<Rightarrow> bool) \<Rightarrow> nat \<Rightarrow> nat \<Rightarrow> nat list \<Rightarrow> nat list option" where
  "table_loop created n backoff waits =
     (if created n then Some waits
      else table_loop created (n + 1) (next_backoff backoff) (waits @ [backoff]))"

definition ensure_table_waits :: "(nat \<Rightarrow> bool) \<Rightarrow> nat list option" where
  "ensure_table_waits created = table_loop created 0 1 []"

section \<open>The backlog\<close>

definition TOPIC :: string where "TOPIC = ''dns-queries''"

record kafka_stats =
  ks_topic :: string
  ks_partitions :: "32 word"
  ks_total_messages :: i64
  ks_consumer_lag :: i64

text \<open>
  What the broker answers: the client, the metadata with the partitions of the topic (if the
  topic is there), the committed offsets (none when the call fails), and the watermarks.
\<close>

record broker =
  br_client :: bool
  br_metadata :: "(i64 list) option option"
  br_committed :: "(i64 \<times> i64 option) list"
  br_watermarks :: "i64 \<Rightarrow> (i64 \<times> i64) option"

definition i64_max :: "i64 \<Rightarrow> i64 \<Rightarrow> i64" where
  "i64_max x y = (if sint x < sint y then y else x)"

definition committed_offset :: "broker \<Rightarrow> i64 \<Rightarrow> i64 \<Rightarrow> i64" where
  "committed_offset b pid low =
     unwrap_or (Option.bind (List.find (\<lambda>e. fst e = pid) (br_committed b)) snd) (i64_max low 0)"

definition add_partition :: "broker \<Rightarrow> i64 \<Rightarrow> kafka_stats \<Rightarrow> kafka_stats" where
  "add_partition b pid s =
     (case br_watermarks b pid of
        None \<Rightarrow> s
      | Some (low, high) \<Rightarrow>
          s\<lparr>ks_total_messages := ks_total_messages s + i64_max (high - low) 0,
            ks_consumer_lag := ks_consumer_lag s + i64_max (high - committed_offset b pid low) 0\<rparr>)"

definition fetch_kafka_stats_sync :: "broker \<Rightarrow> kafka_stats" where
  "fetch_kafka_stats_sync b =
     (if \<not> br_client b then \<lparr>ks_topic = TOPIC, ks_partitions = 0, ks_total_messages = -1, ks_consumer_lag = -1\<rparr>
      else case br_metadata b of
        None \<Rightarrow> \<lparr>ks_topic = TOPIC, ks_partitions = 0, ks_total_messages = -1, ks_consumer_lag = -1\<rparr>
      | Some None \<Rightarrow> \<lparr>ks_topic = TOPIC, ks_partitions = 0, ks_total_messages = 0, ks_consumer_lag = 0\<rparr>
      | Some (Some pids) \<Rightarrow>
          fold (add_partition b) pids
            \<lparr>ks_topic = TOPIC, ks_partitions = of_nat (length pids), ks_total_messages = 0, ks_consumer_lag = 0\<rparr>)"

text \<open>The ClickHouse helpers: a failed query counts as zero, a broken list ends at the break.\<close>

definition u64_query :: "(string + u64) \<Rightarrow> u64" where
  "u64_query r = (case r of Inl _ \<Rightarrow> 0 | Inr v \<Rightarrow> v)"

fun multi_query :: "(string + 'a) list \<Rightarrow> 'a list" where
  "multi_query [] = []"
| "multi_query (Inl _ # _) = []"
| "multi_query (Inr row # rest) = row # multi_query rest"

text \<open>
  \<open>clickhouse_stats\<close>: the answers to the eight queries, floating-point numbers abstract; a
  value that is not finite counts as zero too.
\<close>

record 'f clickhouse_answers =
  ca_total :: "string + u64"
  ca_hit_rate :: "string + 'f"
  ca_blocked :: "string + u64"
  ca_avg_latency :: "string + 'f"
  ca_last_hour :: "string + u64"
  ca_last_24h :: "string + u64"
  ca_domains :: "(string + string \<times> u64) list"
  ca_codes :: "(string + string \<times> u64) list"

record 'f clickhouse_stats =
  ch_total_queries :: u64
  ch_cache_hit_rate_pct :: 'f
  ch_blocked_count :: u64
  ch_avg_latency_us :: 'f
  ch_queries_last_hour :: u64
  ch_queries_last_24h :: u64
  ch_top_domains :: "(string \<times> u64) list"
  ch_response_codes :: "(string \<times> u64) list"

definition f64_query :: "('f \<Rightarrow> bool) \<Rightarrow> 'f \<Rightarrow> (string + 'f) \<Rightarrow> 'f" where
  "f64_query is_finite zero r = (case r of Inl _ \<Rightarrow> zero | Inr v \<Rightarrow> if is_finite v then v else zero)"

definition clickhouse_stats_of :: "('f \<Rightarrow> bool) \<Rightarrow> 'f \<Rightarrow> 'f clickhouse_answers \<Rightarrow> 'f clickhouse_stats" where
  "clickhouse_stats_of is_finite zero a =
     \<lparr>ch_total_queries = u64_query (ca_total a),
      ch_cache_hit_rate_pct = f64_query is_finite zero (ca_hit_rate a),
      ch_blocked_count = u64_query (ca_blocked a),
      ch_avg_latency_us = f64_query is_finite zero (ca_avg_latency a),
      ch_queries_last_hour = u64_query (ca_last_hour a),
      ch_queries_last_24h = u64_query (ca_last_24h a),
      ch_top_domains = multi_query (ca_domains a),
      ch_response_codes = multi_query (ca_codes a)\<rparr>"

text \<open>\<open>get_stats\<close>: when the blocking task that reads the backlog dies, the backlog is unknown.\<close>

definition get_stats ::
  "('f \<Rightarrow> bool) \<Rightarrow> 'f \<Rightarrow> bool \<Rightarrow> broker \<Rightarrow> 'f clickhouse_answers \<Rightarrow> kafka_stats \<times> 'f clickhouse_stats" where
  "get_stats is_finite zero joined b a =
     (if joined then fetch_kafka_stats_sync b
      else \<lparr>ks_topic = TOPIC, ks_partitions = 0, ks_total_messages = -1, ks_consumer_lag = -1\<rparr>,
      clickhouse_stats_of is_finite zero a)"

section \<open>Nothing is invented between the query path and the counters\<close>

definition count_ok :: "metrics \<Rightarrow> dns_query_event list \<Rightarrow> bool" where
  "count_ok m evs \<longleftrightarrow>
     mt_blocked m = length (filter ev_blocked evs) \<and>
     mt_hit m = length (filter (\<lambda>e. \<not> ev_blocked e \<and> ev_cache_hit e) evs) \<and>
     mt_miss m = length (filter (\<lambda>e. \<not> ev_blocked e \<and> \<not> ev_cache_hit e) evs) \<and>
     mt_latencies m = map ev_latency_us evs"

definition channel_ok :: "(dns_query_event \<Rightarrow> string option) \<Rightarrow> channel_state \<Rightarrow> bool" where
  "channel_ok payload_of s \<longleftrightarrow>
     length (pr_queue (cs_producer s)) \<le> CHANNEL_CAPACITY \<and>
     subseq (cs_processed s @ pr_queue (cs_producer s)) (cs_submitted s) \<and>
     (pr_open (cs_producer s) \<longrightarrow> length (cs_submitted s) \<le> CHANNEL_CAPACITY \<longrightarrow>
        cs_processed s @ pr_queue (cs_producer s) = cs_submitted s) \<and>
     (\<forall>m. pr_metrics (cs_producer s) = Some m \<longrightarrow> count_ok m (cs_processed s)) \<and>
     (\<forall>log. pr_kafka (cs_producer s) = Some log \<longrightarrow>
        log = concat (map (\<lambda>ev. send_kafka payload_of ev []) (cs_processed s)))"

lemma count_ok_record: "count_ok m evs \<Longrightarrow> count_ok (record_event ev m) (evs @ [ev])"
  by (auto simp: count_ok_def record_event_def Let_def)

lemma count_ok_total: "count_ok m evs \<Longrightarrow> mt_blocked m + mt_hit m + mt_miss m = length evs"
proof -
  have "length (filter ev_blocked evs) + length (filter (\<lambda>e. \<not> ev_blocked e \<and> ev_cache_hit e) evs) +
      length (filter (\<lambda>e. \<not> ev_blocked e \<and> \<not> ev_cache_hit e) evs) = length evs"
    by (induction evs) auto
  then show "count_ok m evs \<Longrightarrow> mt_blocked m + mt_hit m + mt_miss m = length evs"
    by (simp add: count_ok_def)
qed

lemma send_kafka_append: "send_kafka payload_of ev log = log @ send_kafka payload_of ev []"
  by (simp add: send_kafka_def split: option.split)

lemma send_ok:
  assumes "channel_ok payload_of s"
  shows "channel_ok payload_of
    (s\<lparr>cs_producer := send ev (cs_producer s), cs_submitted := cs_submitted s @ [ev]\<rparr>)"
proof -
  let ?p = "cs_producer s" and ?done = "cs_processed s"
  from assms have sub: "subseq (?done @ pr_queue ?p) (cs_submitted s)"
    and full: "pr_open ?p \<Longrightarrow> length (cs_submitted s) \<le> CHANNEL_CAPACITY \<Longrightarrow> ?done @ pr_queue ?p = cs_submitted s"
    by (simp_all add: channel_ok_def)
  have "subseq ((?done @ pr_queue ?p) @ [ev]) (cs_submitted s @ [ev])"
    "subseq (?done @ pr_queue ?p) (cs_submitted s @ [ev])"
    using sub by (rule list_emb_append_mono, simp) (use sub in \<open>rule subseq_rev_drop_many\<close>)
  moreover have "?done @ pr_queue (send ev ?p) = cs_submitted s @ [ev]"
    if "pr_open ?p" and "length (cs_submitted s @ [ev]) \<le> CHANNEL_CAPACITY"
  proof -
    from that full have eq: "?done @ pr_queue ?p = cs_submitted s" by simp
    then have "length (pr_queue ?p) \<le> length (cs_submitted s)" by (metis length_append le_add2)
    with that have "length (pr_queue ?p) < CHANNEL_CAPACITY" by simp
    with that(1) eq show ?thesis by (simp add: send_def flip: append_assoc)
  qed
  ultimately show ?thesis
    using assms by (auto simp: channel_ok_def send_def)
qed

lemma process_ok:
  assumes "channel_ok payload_of s" and "pr_queue (cs_producer s) = ev # rest"
  shows "channel_ok payload_of
    (s\<lparr>cs_producer := process payload_of ev ((cs_producer s)\<lparr>pr_queue := rest\<rparr>),
       cs_processed := cs_processed s @ [ev]\<rparr>)"
  using assms count_ok_record by (auto simp: channel_ok_def process_def intro: send_kafka_append)

lemma producer_step_ok:
  assumes "producer_step payload_of s s'" and "channel_ok payload_of s"
  shows "channel_ok payload_of s'"
  using assms by cases (auto intro: send_ok process_ok)

interpretation events: step_invariant "producer_step payload_of" "channel_ok payload_of" for payload_of
  by unfold_locales (rule producer_step_ok)

lemma channel_ok_start:
  "m \<in> {None, Some metrics_new} \<Longrightarrow> channel_ok payload_of (channel_start (producer_spawn f m k))"
  by (auto simp: channel_ok_def channel_start_def producer_spawn_def producer_disabled_def metrics_new_def
      count_ok_def split: if_splits)

section \<open>Each event is written at most once\<close>

definition message_rows :: "('rt, 'x) analytics_libs_scheme \<Rightarrow> message \<Rightarrow> dns_query_row list" where
  "message_rows L m =
     (case Option.bind (ms_payload m) (event_from_json L) of None \<Rightarrow> [] | Some e \<Rightarrow> [row_of_event L e])"

definition received_rows :: "('rt, 'x) analytics_libs_scheme \<Rightarrow> message list \<Rightarrow> dns_query_row list" where
  "received_rows L ms = concat (map (message_rows L) ms)"

text \<open>A commit names a message up to which every row was handed over.\<close>

definition commit_covered ::
  "('rt, 'x) analytics_libs_scheme \<Rightarrow> message list \<Rightarrow> dns_query_row list \<Rightarrow> nat \<Rightarrow> bool" where
  "commit_covered L received att off \<longleftrightarrow>
     (\<exists>ms m rest. received = ms @ m # rest \<and> ms_offset m = off \<and> prefix (received_rows L (ms @ [m])) att)"

text \<open>
  Rows handed over and rows waiting are those received, in order; those that arrived are among
  the ones handed over.
\<close>

definition consumer_ok :: "('rt, 'x) analytics_libs_scheme \<Rightarrow> consumer_state \<Rightarrow> bool" where
  "consumer_ok L s \<longleftrightarrow>
     length (co_batch (cn_consumer s)) < BATCH_SIZE \<and>
     co_attempted (cn_consumer s) @ co_batch (cn_consumer s) = received_rows L (cn_received s) \<and>
     subseq (co_stored (cn_consumer s)) (co_attempted (cn_consumer s)) \<and>
     (\<forall>off. co_committed (cn_consumer s) = Some off \<longrightarrow>
        commit_covered L (cn_received s) (co_attempted (cn_consumer s)) off)"

lemma received_rows_snoc: "received_rows L (ms @ [m]) = received_rows L ms @ message_rows L m"
  by (simp add: received_rows_def)

lemma subseq_written: "subseq (written i rows) rows"
proof -
  have "subseq (map snd (filter P (enumerate n rows))) (map snd (enumerate n rows))" for P n
    by (intro subseq_map subseq_filter_left)
  then show ?thesis by (simp add: written_def)
qed

lemma flush_batch_simps [simp]:
  "co_batch (flush_batch i c) = []" "co_attempted (flush_batch i c) = co_attempted c @ co_batch c"
  "co_committed (flush_batch i c) = co_committed c"
  by (simp_all add: flush_batch_def Let_def)

lemma flush_batch_stored:
  "subseq (co_stored c) (co_attempted c) \<Longrightarrow> subseq (co_stored (flush_batch i c)) (co_attempted c @ co_batch c)"
  using subseq_written [of i "co_batch c"]
  by (auto simp: flush_batch_def Let_def list_emb_append_mono intro: subseq_rev_drop_many)

text \<open>What a commit said stays true when more is received and handed over.\<close>

lemma commit_covered_mono:
  assumes "commit_covered L received att off"
  shows "commit_covered L (received @ ms') (att @ rows) off"
proof -
  from assms obtain ms m rest where "received = ms @ m # rest" "ms_offset m = off"
    and "prefix (received_rows L (ms @ [m])) att" by (auto simp: commit_covered_def)
  then have "received @ ms' = ms @ m # rest @ ms'" "ms_offset m = off"
    "prefix (received_rows L (ms @ [m])) (att @ rows)" by simp_all
  then show ?thesis unfolding commit_covered_def by blast
qed

lemmas commit_covered_received = commit_covered_mono [where rows = "[]", simplified]
lemmas commit_covered_rows = commit_covered_mono [where ms' = "[]", simplified]

lemma commit_covered_now: "commit_covered L (ms @ [m]) (received_rows L (ms @ [m])) (ms_offset m)"
  unfolding commit_covered_def by blast

lemma on_message_ok:
  assumes ok: "consumer_ok L s"
  shows "consumer_ok L (s\<lparr>cn_consumer := on_message L i commit_ok m (cn_consumer s),
    cn_received := cn_received s @ [m]\<rparr>)"
proof (cases "Option.bind (ms_payload m) (event_from_json L)")
  case None
  with ok show ?thesis
    by (auto simp: consumer_ok_def on_message_def received_rows_snoc message_rows_def commit_covered_received)
next
  case (Some e)
  define c where "c = (cn_consumer s)\<lparr>co_batch := co_batch (cn_consumer s) @ [row_of_event L e]\<rparr>"
  have rows: "co_attempted c @ co_batch c = received_rows L (cn_received s @ [m])"
    using ok Some by (simp add: c_def consumer_ok_def received_rows_snoc message_rows_def flip: append_assoc)
  have stored: "subseq (co_stored c) (co_attempted c)"
    and old: "\<forall>off. co_committed c = Some off \<longrightarrow> commit_covered L (cn_received s) (co_attempted c) off"
    using ok by (simp_all add: c_def consumer_ok_def)
  show ?thesis
  proof (cases "BATCH_SIZE \<le> length (co_batch c)")
    case True
    then have run: "on_message L i commit_ok m (cn_consumer s) =
        (if commit_ok then (flush_batch i c)\<lparr>co_committed := Some (ms_offset m)\<rparr> else flush_batch i c)"
      using Some by (simp add: on_message_def c_def Let_def)
    have "commit_covered L (cn_received s @ [m]) (co_attempted c @ co_batch c) off"
      if "co_committed c = Some off" for off
      using old that by (blast intro: commit_covered_mono)
    with commit_covered_now [of L "cn_received s" m] flush_batch_stored [OF stored, of i] rows run
    show ?thesis by (simp add: consumer_ok_def BATCH_SIZE_def)
  next
    case False
    then have "on_message L i commit_ok m (cn_consumer s) = c"
      using Some by (simp add: on_message_def c_def Let_def)
    with False rows stored old show ?thesis
      by (simp add: consumer_ok_def commit_covered_received)
  qed
qed

lemma on_tick_ok:
  assumes ok: "consumer_ok L s"
  shows "consumer_ok L (s\<lparr>cn_consumer := on_tick i (cn_consumer s)\<rparr>)"
proof (cases "co_batch (cn_consumer s) = []")
  case True
  with ok show ?thesis by (simp add: on_tick_def)
next
  case False
  let ?c = "cn_consumer s"
  have stored: "subseq (co_stored ?c) (co_attempted ?c)"
    and rows: "co_attempted ?c @ co_batch ?c = received_rows L (cn_received s)"
    and old: "\<forall>off. co_committed ?c = Some off \<longrightarrow> commit_covered L (cn_received s) (co_attempted ?c) off"
    using ok by (simp_all add: consumer_ok_def)
  have "commit_covered L (cn_received s) (co_attempted ?c @ co_batch ?c) off" if "co_committed ?c = Some off" for off
    using old that by (blast intro: commit_covered_rows)
  with rows flush_batch_stored [OF stored, of i] False show ?thesis
    by (simp add: consumer_ok_def on_tick_def BATCH_SIZE_def)
qed

lemma consumer_step_ok:
  assumes "consumer_step L s s'" and "consumer_ok L s"
  shows "consumer_ok L s'"
  using assms by cases (auto intro: on_message_ok on_tick_ok)

interpretation batches: step_invariant "consumer_step L" "consumer_ok L"
  for L :: "('rt, 'x) analytics_libs_scheme"
  by unfold_locales (rule consumer_step_ok)

lemma consumer_ok_start: "consumer_ok L consumer_start"
  by (simp add: consumer_ok_def consumer_start_def received_rows_def BATCH_SIZE_def)

section \<open>Waiting for the table\<close>

definition table_wait :: "nat \<Rightarrow> nat" where "table_wait i = min (2 ^ i) 30"

lemma next_table_wait: "next_backoff (table_wait i) = table_wait (Suc i)"
proof (cases "2 ^ i \<le> (30 :: nat)")
  case True
  then show ?thesis by (simp add: next_backoff_def table_wait_def)
next
  case False
  then show ?thesis by (simp add: next_backoff_def table_wait_def min_def)
qed

lemma table_loop_returns:
  assumes "created m" and "\<forall>k < m. \<not> created k" and "n \<le> m"
  shows "table_loop created n (table_wait n) ws = Some (ws @ map table_wait [n..<m])"
  using assms(3)
proof (induction "m - n" arbitrary: n ws)
  case 0
  with assms(1) show ?case by (simp add: table_loop.simps)
next
  case (Suc k)
  then have "n < m" and "\<not> created n" using assms(2) by auto
  with Suc show ?case
    by (subst table_loop.simps) (simp add: next_table_wait upt_conv_Cons)
qed

lemma table_loop_found: "table_loop created n b ws = Some r \<Longrightarrow> \<exists>m. created m"
proof (rule table_loop.raw_induct [where P = "\<lambda>created n b ws r. \<exists>m. created m"])
  fix f :: "(nat \<Rightarrow> bool) \<Rightarrow> nat \<Rightarrow> nat \<Rightarrow> nat list \<Rightarrow> nat list option" and created n b ws r
  assume "\<And>created n b ws r. f created n b ws = Some r \<Longrightarrow> \<exists>m. created m"
    and "(if created n then Some ws else f created (n + 1) (next_backoff b) (ws @ [b])) = Some r"
  then show "\<exists>m. created m" by (cases "created n") auto
qed

lemma ensure_table_waits_eq:
  "ensure_table_waits created =
     (if \<exists>m. created m then Some (map table_wait [0..<(LEAST m. created m)]) else None)"
proof (cases "\<exists>m. created m")
  case True
  then have "created (LEAST m. created m)" by (rule LeastI_ex)
  moreover have "\<forall>k < (LEAST m. created m). \<not> created k" by (auto dest: not_less_Least)
  ultimately have "table_loop created 0 (table_wait 0) [] = Some ([] @ map table_wait [0..<(LEAST m. created m)])"
    by (rule table_loop_returns) simp
  moreover have "table_wait 0 = 1" by (simp add: table_wait_def)
  ultimately show ?thesis using True by (simp only: ensure_table_waits_def if_True append_Nil)
next
  case False
  with table_loop_found [of created 0 1 "[]"] have "table_loop created 0 1 [] = None"
    by (cases "table_loop created 0 1 []") blast+
  with False show ?thesis by (simp only: ensure_table_waits_def if_False)
qed

end
