(* ===== verification/Api.thy ===== *)
theory Api
  imports Cache_Correct Auth Analytics
begin

text \<open>
  \<open>backend/src/api/mod.rs\<close> and the handlers of \<open>backend/src/api/auth.rs\<close>: the management API.
  A request is a value of a datatype with one constructor per route; the router guards the
  protected ones with \<open>require_auth\<close> and runs the handler on the shared state. Matching paths
  and decoding bodies are axum's; what arrives here is the decoded request.
\<close>

section \<open>Data\<close>

record pagination =
  pg_limit :: "u64 option"
  pg_offset :: "u64 option"

definition DEFAULT_LIMIT :: u64 where "DEFAULT_LIMIT = 100"
definition MAX_LIMIT :: u64 where "MAX_LIMIT = 1000"

definition resolve_page :: "pagination \<Rightarrow> u64 \<times> u64" where
  "resolve_page p =
     (max 1 (min (unwrap_or (pg_limit p) DEFAULT_LIMIT) MAX_LIMIT), unwrap_or (pg_offset p) 0)"

record page =
  pa_items :: "string list"
  pa_total :: i64
  pa_limit :: u64
  pa_offset :: u64

record add_result =
  ar_added :: nat
  ar_skipped :: nat
  ar_invalid :: nat

record bulk_result =
  br_added :: nat
  br_skipped :: nat
  br_errors :: "string list"

text \<open>
  \<open>AddResult::from_outcome\<close> subtracts without a check: \<^const>\<open>None\<close> is the underflow.
\<close>

definition checked_sub :: "nat \<Rightarrow> nat \<Rightarrow> nat option" where
  "checked_sub a b = (if b \<le> a then Some (a - b) else None)"

definition from_outcome :: "add_outcome \<Rightarrow> nat \<Rightarrow> add_result option" where
  "from_outcome outcome total_input =
     (case checked_sub (considered outcome) (added outcome) of
        None \<Rightarrow> None
      | Some skipped \<Rightarrow>
          (case checked_sub total_input (considered outcome) of
             None \<Rightarrow> None
           | Some invalid \<Rightarrow>
               Some \<lparr>ar_added = added outcome, ar_skipped = skipped, ar_invalid = invalid\<rparr>))"

record health_data =
  hd_status :: string
  hd_block_list_size :: nat
  hd_allow_list_size :: nat
  hd_l1_cache_entries :: u64

datatype 'f body =
    Health_Body health_data
  | Config_Body runtime_config
  | Page_Body page
  | Added_Body add_result
  | Bulk_Body bulk_result
  | Removed_Body bool
  | Login_Body string u64
  | Users_Body "user_info list"
  | Changed_Body bool
  | Token_Body string
  | Tokens_Body "token_info list"
  | Stats_Body kafka_stats "'f clickhouse_stats"

text \<open>
  A response: the JSON envelope with data, plain text, the envelope with an error, or the
  end of the request by a panic.
\<close>

datatype 'f response =
    Ok_Json "'f body"
  | Ok_Text string
  | Plain_Error nat string
  | Api_Error nat string
  | Panicked

datatype api_request =
    Get_Health
  | Get_Metrics
  | Post_Login string string
  | Get_Blocklist pagination
  | Post_Blocklist string
  | Post_Blocklist_Bulk "string list"
  | Post_Blocklist_Url string "string option"
  | Post_Blocklist_Bulk_Remove "string list"
  | Delete_Blocklist string
  | Get_Allowlist pagination
  | Post_Allowlist string
  | Post_Allowlist_Bulk "string list"
  | Get_Config
  | Patch_Config runtime_config_patch
  | Get_Users
  | Post_Users string string
  | Delete_Users string
  | Patch_Users_Password string string
  | Get_Tokens
  | Post_Tokens string "i64 option"
  | Delete_Tokens i64
  | Get_Stats

text \<open>
  \<open>ApiState\<close>: every part that talks to the database shares the pool of the cache. The record
  of libraries gathers those of the parts; \<open>api_env\<close> adds what one request gets from outside.
\<close>

record ('m, 'r, 'db) api_state =
  ap_cache :: "('m, 'r, 'db) cache"
  ap_stats :: bool
  ap_metrics :: "metrics option"
  ap_config :: runtime_config
  ap_sessions :: "string \<Rightarrow> nat option"

record ('rt, 'm, 'r, 'db, 'ph, 'f) api_libs =
  ax_cache :: "('rt, 'm, 'r, 'db) cache_libs"
  ax_settings :: "'db settings_libs"
  ax_auth :: "('ph, 'db) auth_libs"
  ax_encode :: "metrics \<Rightarrow> string option"
  ax_is_finite :: "'f \<Rightarrow> bool"
  ax_zero :: 'f

record 'f api_env =
  ev_auth :: auth_env
  ev_http :: "string \<Rightarrow> string + string"
  ev_joined :: bool
  ev_broker :: broker
  ev_answers :: "'f clickhouse_answers"

definition INTERNAL :: nat where "INTERNAL = 500"
definition BAD_REQUEST :: nat where "BAD_REQUEST = 400"
definition UNAUTHORIZED :: nat where "UNAUTHORIZED = 401"
definition NOT_FOUND :: nat where "NOT_FOUND = 404"
definition UNAVAILABLE :: nat where "UNAVAILABLE = 503"

fun cache_error_text :: "cache_error \<Rightarrow> string" where
  "cache_error_text (Redis e) = ''cache redis: '' @ e"
| "cache_error_text (Sql e) = ''cache sql: '' @ e"

definition db_error_text :: "sql_error \<Rightarrow> string" where
  "db_error_text e = ''database: '' @ e"

section \<open>Acting on the parts of the state\<close>

definition on_cache ::
  "(('m, 'r, 'db) cache \<Rightarrow> 'a \<times> ('m, 'r, 'db) cache) \<Rightarrow> ('m, 'r, 'db) api_state \<Rightarrow>
     'a \<times> ('m, 'r, 'db) api_state" where
  "on_cache f s = (case f (ap_cache s) of (r, c) \<Rightarrow> (r, s\<lparr>ap_cache := c\<rparr>))"

definition auth_of :: "('m, 'r, 'db) api_state \<Rightarrow> 'db auth" where
  "auth_of s = \<lparr>au_db = c_db (ap_cache s), au_sessions = ap_sessions s\<rparr>"

definition put_auth :: "'db auth \<Rightarrow> ('m, 'r, 'db) api_state \<Rightarrow> ('m, 'r, 'db) api_state" where
  "put_auth a s = s\<lparr>ap_cache := (ap_cache s)\<lparr>c_db := au_db a\<rparr>, ap_sessions := au_sessions a\<rparr>"

definition on_auth ::
  "('db auth \<Rightarrow> 'a \<times> 'db auth) \<Rightarrow> ('m, 'r, 'db) api_state \<Rightarrow> 'a \<times> ('m, 'r, 'db) api_state" where
  "on_auth f s = (case f (auth_of s) of (r, a) \<Rightarrow> (r, put_auth a s))"

text \<open>The envelopes of a fallible result.\<close>

definition reply_cache ::
  "('a \<Rightarrow> 'f response) \<Rightarrow> (cache_error + 'a) \<times> 's \<Rightarrow> 'f response \<times> 's" where
  "reply_cache f r =
     (case r of (Inl e, s) \<Rightarrow> (Api_Error INTERNAL (cache_error_text e), s) | (Inr x, s) \<Rightarrow> (f x, s))"

definition reply_db :: "('a \<Rightarrow> 'f response) \<Rightarrow> (sql_error + 'a) \<times> 's \<Rightarrow> 'f response \<times> 's" where
  "reply_db f r =
     (case r of (Inl e, s) \<Rightarrow> (Api_Error INTERNAL (db_error_text e), s) | (Inr x, s) \<Rightarrow> (f x, s))"

definition changed_or :: "string \<Rightarrow> bool \<Rightarrow> 'f response" where
  "changed_or missing ok = (if ok then Ok_Json (Changed_Body True) else Api_Error NOT_FOUND missing)"

definition added_response :: "nat \<Rightarrow> add_outcome \<Rightarrow> 'f response" where
  "added_response total_input outcome =
     (case from_outcome outcome total_input of None \<Rightarrow> Panicked | Some r \<Rightarrow> Ok_Json (Added_Body r))"

section \<open>Handlers\<close>

definition health ::
  "('rt, 'm, 'r, 'db, 'ph, 'f) api_libs \<Rightarrow> ('m, 'r, 'db) api_state \<Rightarrow> 'f response" where
  "health X s =
     (let st = stats (ax_cache X) (ap_cache s) in
      Ok_Json (Health_Body \<lparr>hd_status = ''ok'', hd_block_list_size = block_list_size st,
        hd_allow_list_size = allow_list_size st, hd_l1_cache_entries = l1_entry_count st\<rparr>))"

definition metrics_page ::
  "('rt, 'm, 'r, 'db, 'ph, 'f) api_libs \<Rightarrow> ('m, 'r, 'db) api_state \<Rightarrow>
     'f response \<times> ('m, 'r, 'db) api_state" where
  "metrics_page X s =
     (case ap_metrics s of
        None \<Rightarrow> (Plain_Error UNAVAILABLE ''prometheus disabled'', s)
      | Some m \<Rightarrow>
          (let st = stats (ax_cache X) (ap_cache s) in
           case render (ax_encode X) (block_list_size st) (allow_list_size st) (l1_entry_count st) m of
             (body, m') \<Rightarrow> (Ok_Text body, s\<lparr>ap_metrics := Some m'\<rparr>)))"

definition list_page ::
  "('rt, 'm, 'r, 'db, 'ph, 'f) api_libs \<Rightarrow> domain_table \<Rightarrow> pagination \<Rightarrow> ('m, 'r, 'db) api_state \<Rightarrow>
     'f response \<times> ('m, 'r, 'db) api_state" where
  "list_page X tbl p s =
     (case resolve_page p of (limit, offset) \<Rightarrow>
        (case on_cache (list_domains (ax_cache X) tbl limit offset) s of
           (Inl e, s1) \<Rightarrow> (Api_Error INTERNAL (cache_error_text e), s1)
         | (Inr items, s1) \<Rightarrow>
             reply_cache (\<lambda>count. Ok_Json (Page_Body
                 \<lparr>pa_items = items, pa_total = count, pa_limit = limit, pa_offset = offset\<rparr>))
               (on_cache (count_domains (ax_cache X) tbl) s1)))"

definition list_blocked ::
  "('rt, 'm, 'r, 'db, 'ph, 'f) api_libs \<Rightarrow> pagination \<Rightarrow> ('m, 'r, 'db) api_state \<Rightarrow>
     'f response \<times> ('m, 'r, 'db) api_state" where
  "list_blocked X p s = list_page X Blocked_Table p s"

definition list_allowed ::
  "('rt, 'm, 'r, 'db, 'ph, 'f) api_libs \<Rightarrow> pagination \<Rightarrow> ('m, 'r, 'db) api_state \<Rightarrow>
     'f response \<times> ('m, 'r, 'db) api_state" where
  "list_allowed X p s = list_page X Allowed_Table p s"

definition block_add_one ::
  "('rt, 'm, 'r, 'db, 'ph, 'f) api_libs \<Rightarrow> string \<Rightarrow> ('m, 'r, 'db) api_state \<Rightarrow>
     'f response \<times> ('m, 'r, 'db) api_state" where
  "block_add_one X domain s =
     reply_cache (added_response 1) (on_cache (add_block_domain (ax_cache X) ''custom'' domain) s)"

definition block_add_bulk ::
  "('rt, 'm, 'r, 'db, 'ph, 'f) api_libs \<Rightarrow> string list \<Rightarrow> ('m, 'r, 'db) api_state \<Rightarrow>
     'f response \<times> ('m, 'r, 'db) api_state" where
  "block_add_bulk X domains s =
     reply_cache (added_response (length domains))
       (on_cache (add_block_domains (ax_cache X) ''custom'' domains) s)"

definition block_add_url ::
  "('rt, 'm, 'r, 'db, 'ph, 'f) api_libs \<Rightarrow> 'f api_env \<Rightarrow> string \<Rightarrow> string option \<Rightarrow>
     ('m, 'r, 'db) api_state \<Rightarrow> 'f response \<times> ('m, 'r, 'db) api_state" where
  "block_add_url X env url list s =
     (case ev_http env url of
        Inl e \<Rightarrow> (Api_Error BAD_REQUEST e, s)
      | Inr content \<Rightarrow>
          (let domains = parse_domain_list (ax_cache X) content in
           reply_cache (added_response (length domains))
             (on_cache (add_block_domains (ax_cache X) (unwrap_or list url) domains) s)))"

definition allow_add_one ::
  "('rt, 'm, 'r, 'db, 'ph, 'f) api_libs \<Rightarrow> string \<Rightarrow> ('m, 'r, 'db) api_state \<Rightarrow>
     'f response \<times> ('m, 'r, 'db) api_state" where
  "allow_add_one X domain s =
     reply_cache (added_response 1) (on_cache (add_allow_domain (ax_cache X) domain) s)"

definition allow_add_bulk ::
  "('rt, 'm, 'r, 'db, 'ph, 'f) api_libs \<Rightarrow> string list \<Rightarrow> ('m, 'r, 'db) api_state \<Rightarrow>
     'f response \<times> ('m, 'r, 'db) api_state" where
  "allow_add_bulk X domains s =
     reply_cache (added_response (length domains))
       (on_cache (add_allow_domains (ax_cache X) domains) s)"

fun remove_loop ::
  "('rt, 'm, 'r, 'db, 'ph, 'f) api_libs \<Rightarrow> string list \<Rightarrow> bulk_result \<Rightarrow> ('m, 'r, 'db) api_state \<Rightarrow>
     bulk_result \<times> ('m, 'r, 'db) api_state" where
  "remove_loop X [] acc s = (acc, s)"
| "remove_loop X (domain # ds) acc s =
     (case on_cache (remove_block_domain (ax_cache X) domain) s of
        (Inr True, s1) \<Rightarrow> remove_loop X ds (acc\<lparr>br_added := br_added acc + 1\<rparr>) s1
      | (Inr False, s1) \<Rightarrow> remove_loop X ds (acc\<lparr>br_skipped := br_skipped acc + 1\<rparr>) s1
      | (Inl e, s1) \<Rightarrow>
          remove_loop X ds
            (acc\<lparr>br_errors := br_errors acc @ [domain @ '': '' @ cache_error_text e]\<rparr>) s1)"

definition remove_bulk ::
  "('rt, 'm, 'r, 'db, 'ph, 'f) api_libs \<Rightarrow> string list \<Rightarrow> ('m, 'r, 'db) api_state \<Rightarrow>
     'f response \<times> ('m, 'r, 'db) api_state" where
  "remove_bulk X domains s =
     (case remove_loop X domains \<lparr>br_added = 0, br_skipped = 0, br_errors = []\<rparr> s of
        (r, s') \<Rightarrow> (Ok_Json (Bulk_Body r), s'))"

definition remove_one ::
  "('rt, 'm, 'r, 'db, 'ph, 'f) api_libs \<Rightarrow> string \<Rightarrow> ('m, 'r, 'db) api_state \<Rightarrow>
     'f response \<times> ('m, 'r, 'db) api_state" where
  "remove_one X domain s =
     reply_cache
       (\<lambda>removed. if removed then Ok_Json (Removed_Body True)
                  else Api_Error NOT_FOUND (domain @ '' not found in blocklist''))
       (on_cache (remove_block_domain (ax_cache X) domain) s)"

definition patch_config ::
  "('rt, 'm, 'r, 'db, 'ph, 'f) api_libs \<Rightarrow> runtime_config_patch \<Rightarrow> ('m, 'r, 'db) api_state \<Rightarrow>
     'f response \<times> ('m, 'r, 'db) api_state" where
  "patch_config X p s =
     (let merged = apply_to p (ap_config s) in
      case persist (ax_settings X) merged (c_db (ap_cache s)) of
        (Inl e, db) \<Rightarrow>
          (Api_Error INTERNAL (db_error_text e), s\<lparr>ap_cache := (ap_cache s)\<lparr>c_db := db\<rparr>\<rparr>)
      | (Inr _, db) \<Rightarrow>
          (Ok_Json (Config_Body merged),
           s\<lparr>ap_cache := (ap_cache s)\<lparr>c_db := db\<rparr>, ap_config := merged\<rparr>))"

definition login_handler ::
  "('rt, 'm, 'r, 'db, 'ph, 'f) api_libs \<Rightarrow> 'f api_env \<Rightarrow> string \<Rightarrow> string \<Rightarrow> ('m, 'r, 'db) api_state \<Rightarrow>
     'f response \<times> ('m, 'r, 'db) api_state" where
  "login_handler X env user pass s =
     (case on_auth (login (ax_auth X) (ev_auth env) user pass) s of
        (Some (token, expires_in), s') \<Rightarrow> (Ok_Json (Login_Body token expires_in), s')
      | (None, s') \<Rightarrow> (Api_Error UNAUTHORIZED ''invalid credentials'', s'))"

definition list_users_handler ::
  "('rt, 'm, 'r, 'db, 'ph, 'f) api_libs \<Rightarrow> ('m, 'r, 'db) api_state \<Rightarrow>
     'f response \<times> ('m, 'r, 'db) api_state" where
  "list_users_handler X s =
     reply_db (\<lambda>us. Ok_Json (Users_Body us)) (on_auth (list_users (ax_auth X)) s)"

definition create_user_handler ::
  "('rt, 'm, 'r, 'db, 'ph, 'f) api_libs \<Rightarrow> 'f api_env \<Rightarrow> string \<Rightarrow> string \<Rightarrow> ('m, 'r, 'db) api_state \<Rightarrow>
     'f response \<times> ('m, 'r, 'db) api_state" where
  "create_user_handler X env user pass s =
     reply_db (\<lambda>_. Ok_Json (Changed_Body True))
       (on_auth (create_user (ax_auth X) (ev_auth env) user pass) s)"

definition set_password_handler ::
  "('rt, 'm, 'r, 'db, 'ph, 'f) api_libs \<Rightarrow> 'f api_env \<Rightarrow> string \<Rightarrow> string \<Rightarrow> ('m, 'r, 'db) api_state \<Rightarrow>
     'f response \<times> ('m, 'r, 'db) api_state" where
  "set_password_handler X env user pass s =
     reply_db (changed_or ''user not found'')
       (on_auth (set_password (ax_auth X) (ev_auth env) user pass) s)"

definition delete_user_handler ::
  "('rt, 'm, 'r, 'db, 'ph, 'f) api_libs \<Rightarrow> string \<Rightarrow> ('m, 'r, 'db) api_state \<Rightarrow>
     'f response \<times> ('m, 'r, 'db) api_state" where
  "delete_user_handler X user s =
     reply_db (changed_or ''user not found'') (on_auth (delete_user (ax_auth X) user) s)"

definition create_token_handler ::
  "('rt, 'm, 'r, 'db, 'ph, 'f) api_libs \<Rightarrow> 'f api_env \<Rightarrow> string \<Rightarrow> i64 option \<Rightarrow> ('m, 'r, 'db) api_state \<Rightarrow>
     'f response \<times> ('m, 'r, 'db) api_state" where
  "create_token_handler X env nm ttl s =
     reply_db (\<lambda>t. Ok_Json (Token_Body t)) (on_auth (create_token (ax_auth X) (ev_auth env) nm ttl) s)"

definition list_tokens_handler ::
  "('rt, 'm, 'r, 'db, 'ph, 'f) api_libs \<Rightarrow> ('m, 'r, 'db) api_state \<Rightarrow>
     'f response \<times> ('m, 'r, 'db) api_state" where
  "list_tokens_handler X s =
     reply_db (\<lambda>ts. Ok_Json (Tokens_Body ts)) (on_auth (list_tokens (ax_auth X)) s)"

definition revoke_token_handler ::
  "('rt, 'm, 'r, 'db, 'ph, 'f) api_libs \<Rightarrow> i64 \<Rightarrow> ('m, 'r, 'db) api_state \<Rightarrow>
     'f response \<times> ('m, 'r, 'db) api_state" where
  "revoke_token_handler X i s =
     reply_db (changed_or ''token not found'') (on_auth (revoke_token (ax_auth X) i) s)"

definition stats_page ::
  "('rt, 'm, 'r, 'db, 'ph, 'f) api_libs \<Rightarrow> 'f api_env \<Rightarrow> ('m, 'r, 'db) api_state \<Rightarrow> 'f response" where
  "stats_page X env s =
     (if ap_stats s then
        (case get_stats (ax_is_finite X) (ax_zero X) (ev_joined env) (ev_broker env) (ev_answers env) of
           (kafka, clickhouse) \<Rightarrow> Ok_Json (Stats_Body kafka clickhouse))
      else Api_Error UNAVAILABLE ''analytics disabled'')"

text \<open>The handler of each route.\<close>

fun route ::
  "('rt, 'm, 'r, 'db, 'ph, 'f) api_libs \<Rightarrow> 'f api_env \<Rightarrow> api_request \<Rightarrow> ('m, 'r, 'db) api_state \<Rightarrow>
     'f response \<times> ('m, 'r, 'db) api_state" where
  "route X env Get_Health s = (health X s, s)"
| "route X env Get_Metrics s = metrics_page X s"
| "route X env (Post_Login user pass) s = login_handler X env user pass s"
| "route X env (Get_Blocklist p) s = list_blocked X p s"
| "route X env (Post_Blocklist d) s = block_add_one X d s"
| "route X env (Post_Blocklist_Bulk ds) s = block_add_bulk X ds s"
| "route X env (Post_Blocklist_Url url list) s = block_add_url X env url list s"
| "route X env (Post_Blocklist_Bulk_Remove ds) s = remove_bulk X ds s"
| "route X env (Delete_Blocklist d) s = remove_one X d s"
| "route X env (Get_Allowlist p) s = list_allowed X p s"
| "route X env (Post_Allowlist d) s = allow_add_one X d s"
| "route X env (Post_Allowlist_Bulk ds) s = allow_add_bulk X ds s"
| "route X env Get_Config s = (Ok_Json (Config_Body (ap_config s)), s)"
| "route X env (Patch_Config p) s = patch_config X p s"
| "route X env Get_Users s = list_users_handler X s"
| "route X env (Post_Users user pass) s = create_user_handler X env user pass s"
| "route X env (Delete_Users user) s = delete_user_handler X user s"
| "route X env (Patch_Users_Password user pass) s = set_password_handler X env user pass s"
| "route X env Get_Tokens s = list_tokens_handler X s"
| "route X env (Post_Tokens nm ttl) s = create_token_handler X env nm ttl s"
| "route X env (Delete_Tokens i) s = revoke_token_handler X i s"
| "route X env Get_Stats s = (stats_page X env s, s)"

fun public :: "api_request \<Rightarrow> bool" where
  "public Get_Health = True"
| "public Get_Metrics = True"
| "public (Post_Login _ _) = True"
| "public _ = False"

definition router ::
  "('rt, 'm, 'r, 'db, 'ph, 'f) api_libs \<Rightarrow> 'f api_env \<Rightarrow> bytes option \<Rightarrow> api_request \<Rightarrow>
     ('m, 'r, 'db) api_state \<Rightarrow> 'f response \<times> ('m, 'r, 'db) api_state" where
  "router X env header req s =
     (if public req then route X env req s
      else
        (case on_auth (require_auth (ax_auth X) (ev_auth env) header) s of
           (True, s1) \<Rightarrow> route X env req s1
         | (False, s1) \<Rightarrow> (Api_Error UNAUTHORIZED ''unauthorized'', s1)))"

end
