(* ===== verification/Api_Correct.thy ===== *)
theory Api_Correct
  imports Api
begin

text \<open>
  Facts about the management API: what a request may do to the sessions, what a request that
  is not authorised leaves alone, and the accounting of the list operations.
\<close>

section \<open>Frames of the handlers\<close>

lemma auth_of_put_auth [simp]: "auth_of (put_auth a s) = a"
  by (simp add: auth_of_def put_auth_def)

lemma put_auth_frame [simp]:
  "ap_config (put_auth a s) = ap_config s" "ap_metrics (put_auth a s) = ap_metrics s"
  "ap_stats (put_auth a s) = ap_stats s" "ap_sessions (put_auth a s) = au_sessions a"
  "c_block (ap_cache (put_auth a s)) = c_block (ap_cache s)"
  "c_allow (ap_cache (put_auth a s)) = c_allow (ap_cache s)"
  "c_db (ap_cache (put_auth a s)) = au_db a"
  by (simp_all add: put_auth_def)

lemma on_cache_frame [simp]:
  "ap_sessions (snd (on_cache f s)) = ap_sessions s" "ap_config (snd (on_cache f s)) = ap_config s"
  "ap_cache (snd (on_cache f s)) = snd (f (ap_cache s))" "fst (on_cache f s) = fst (f (ap_cache s))"
  by (simp_all add: on_cache_def split: prod.split)

lemma on_auth_run [simp]:
  "auth_of (snd (on_auth f s)) = snd (f (auth_of s))" "fst (on_auth f s) = fst (f (auth_of s))"
  "ap_sessions (snd (on_auth f s)) = au_sessions (snd (f (auth_of s)))"
  "ap_config (snd (on_auth f s)) = ap_config s"
  "c_block (ap_cache (snd (on_auth f s))) = c_block (ap_cache s)"
  "c_allow (ap_cache (snd (on_auth f s))) = c_allow (ap_cache s)"
  by (simp_all add: on_auth_def split: prod.split)

lemma auth_of_sessions [simp]: "au_sessions (auth_of s) = ap_sessions s" "au_db (auth_of s) = c_db (ap_cache s)"
  by (simp_all add: auth_of_def)

lemma reply_snd [simp]: "snd (reply_cache f r) = snd r" "snd (reply_db g q) = snd q"
  by (simp_all add: reply_cache_def reply_db_def split: prod.split sum.split)

lemma remove_loop_frame [simp]:
  "ap_sessions (snd (remove_loop X ds acc s)) = ap_sessions s"
  "ap_config (snd (remove_loop X ds acc s)) = ap_config s"
proof -
  have "ap_sessions (snd (remove_loop X ds acc s)) = ap_sessions s \<and>
    ap_config (snd (remove_loop X ds acc s)) = ap_config s"
  proof (induction ds arbitrary: acc s)
    case (Cons d ds)
    obtain r s1 where run: "on_cache (remove_block_domain (ax_cache X) d) s = (r, s1)" by fastforce
    with on_cache_frame [of "remove_block_domain (ax_cache X) d" s]
    have "ap_sessions s1 = ap_sessions s" "ap_config s1 = ap_config s" by simp_all
    with Cons.IH run show ?case by (simp split: sum.split bool.split)
  qed simp
  then show "ap_sessions (snd (remove_loop X ds acc s)) = ap_sessions s"
    and "ap_config (snd (remove_loop X ds acc s)) = ap_config s" by simp_all
qed

lemma snd_case_prod: "snd (case p of (a, b) \<Rightarrow> (f a, b)) = snd p"
  by (cases p) simp

lemma list_page_frame [simp]:
  "ap_sessions (snd (list_page X tbl p s)) = ap_sessions s"
  "ap_config (snd (list_page X tbl p s)) = ap_config s"
proof -
  obtain limit offset where page: "resolve_page p = (limit, offset)" by fastforce
  obtain r s1 where run: "on_cache (list_domains (ax_cache X) tbl limit offset) s = (r, s1)" by fastforce
  with on_cache_frame(1,2) [of "list_domains (ax_cache X) tbl limit offset" s]
  have "ap_sessions s1 = ap_sessions s" "ap_config s1 = ap_config s" by simp_all
  then show "ap_sessions (snd (list_page X tbl p s)) = ap_sessions s"
    and "ap_config (snd (list_page X tbl p s)) = ap_config s"
    by (simp_all add: list_page_def page run split: sum.split)
qed

lemma patch_config_frame [simp]: "ap_sessions (snd (patch_config X p s)) = ap_sessions s"
  by (simp add: patch_config_def Let_def split: prod.split sum.split)

lemma metrics_page_frame [simp]:
  "ap_sessions (snd (metrics_page X s)) = ap_sessions s" "ap_config (snd (metrics_page X s)) = ap_config s"
  by (simp_all add: metrics_page_def Let_def split: prod.split option.split)

lemmas list_handlers = block_add_one_def block_add_bulk_def block_add_url_def allow_add_one_def
  allow_add_bulk_def remove_bulk_def remove_one_def list_blocked_def list_allowed_def

lemmas account_handlers = list_users_handler_def create_user_handler_def set_password_handler_def
  delete_user_handler_def create_token_handler_def list_tokens_handler_def revoke_token_handler_def

text \<open>Only a login adds a session, and only a patch changes the configuration.\<close>

lemma route_sessions:
  assumes "\<And>user pass. req \<noteq> Post_Login user pass"
  shows "ap_sessions (snd (route X env req s)) = ap_sessions s"
proof (cases req)
  case (Post_Login user pass)
  with assms show ?thesis by blast
qed (simp_all add: list_handlers account_handlers Let_def snd_case_prod split: sum.split)

lemma route_config:
  assumes "\<And>p. req \<noteq> Patch_Config p"
  shows "ap_config (snd (route X env req s)) = ap_config s"
proof (cases req)
  case (Post_Login user pass)
  then show ?thesis
    using on_auth_run(4) [of "login (ax_auth X) (ev_auth env) user pass" s]
    by (cases "on_auth (login (ax_auth X) (ev_auth env) user pass) s")
      (simp add: login_handler_def split: option.split)
qed (use assms in \<open>simp_all add: list_handlers account_handlers Let_def snd_case_prod split: sum.split\<close>)

section \<open>Requests over time\<close>

text \<open>The logins that have succeeded, after one more request.\<close>

definition logins_after ::
  "'f api_env \<Rightarrow> api_request \<Rightarrow> 'f response \<Rightarrow> ('m, 'r, 'db) api_state \<Rightarrow> 'db login_history \<Rightarrow> 'db login_history" where
  "logins_after env req resp s h =
     (case req of
        Post_Login user pass \<Rightarrow>
          (case resp of Ok_Json _ \<Rightarrow> (c_db (ap_cache s), ev_auth env, user, pass) # h | _ \<Rightarrow> h)
      | _ \<Rightarrow> h)"

lemma logins_after_simps [simp]:
  "logins_after env (Post_Login user pass) (Ok_Json b) s h = (c_db (ap_cache s), ev_auth env, user, pass) # h"
  "logins_after env req (Api_Error n e) s h = h"
  by (simp_all add: logins_after_def split: api_request.split)

lemma logins_after_other:
  "(\<And>user pass. req \<noteq> Post_Login user pass) \<Longrightarrow> logins_after env req resp s h = h"
  by (simp add: logins_after_def split: api_request.split)

inductive api_step ::
  "('rt, 'm, 'r, 'db, 'ph, 'f) api_libs \<Rightarrow> 'db login_history \<times> ('m, 'r, 'db) api_state \<Rightarrow>
     'db login_history \<times> ('m, 'r, 'db) api_state \<Rightarrow> bool" for X where
  served: "router X env header req s = (resp, s') \<Longrightarrow>
     api_step X (h, s) (logins_after env req resp s h, s')"

definition api_sessions_ok ::
  "('rt, 'm, 'r, 'db, 'ph, 'f) api_libs \<Rightarrow> ('db \<Rightarrow> string \<Rightarrow> (i64 \<times> string) option) \<Rightarrow>
     ('db \<Rightarrow> token_row set) \<Rightarrow> 'db login_history \<times> ('m, 'r, 'db) api_state \<Rightarrow> bool" where
  "api_sessions_ok X users tokens s \<longleftrightarrow> sessions_ok (ax_auth X) users tokens (fst s, auth_of (snd s))"

text \<open>A request is a few steps of the sessions: the check of its token, then its handler.\<close>

lemma login_handler_steps:
  assumes "login_handler X env user pass s = (resp, s')"
  shows "auth_step (ax_auth X) (h, auth_of s) (logins_after env (Post_Login user pass) resp s h, auth_of s')"
proof -
  obtain r a where run: "login (ax_auth X) (ev_auth env) user pass (auth_of s) = (r, a)" by fastforce
  then have handler: "on_auth (login (ax_auth X) (ev_auth env) user pass) s = (r, put_auth a s)"
    by (simp add: on_auth_def)
  show ?thesis
  proof (cases r)
    case None
    with assms handler run show ?thesis
      by (auto simp: login_handler_def intro: auth_step.not_logged_in)
  next
    case (Some p)
    obtain token ttl where "p = (token, ttl)" by fastforce
    with Some run have "login (ax_auth X) (ev_auth env) user pass (auth_of s) = (Some (token, ttl), a)" by simp
    from auth_step.logged_in [OF this, of h] assms handler Some \<open>p = (token, ttl)\<close>
    show ?thesis by (auto simp: login_handler_def)
  qed
qed

lemma route_steps:
  assumes "route X env req s = (resp, s')"
  shows "auth_step (ax_auth X) (h, auth_of s) (logins_after env req resp s h, auth_of s')"
proof (cases "\<exists>user pass. req = Post_Login user pass")
  case True
  with assms login_handler_steps show ?thesis by fastforce
next
  case False
  then have "logins_after env req resp s h = h" by (intro logins_after_other) blast
  moreover from False route_sessions [of req X env s] assms have "ap_sessions s' = ap_sessions s" by simp
  ultimately show ?thesis by (simp add: auth_step.managed)
qed

lemma router_cases:
  assumes "router X env header req s = (resp, s')"
  obtains (open_route) "public req" "route X env req s = (resp, s')"
  | (refused) "\<not> public req" "on_auth (require_auth (ax_auth X) (ev_auth env) header) s = (False, s')"
      "resp = Api_Error UNAUTHORIZED ''unauthorized''"
  | (admitted) s1 where "\<not> public req"
      "on_auth (require_auth (ax_auth X) (ev_auth env) header) s = (True, s1)"
      "route X env req s1 = (resp, s')"
proof (cases "public req")
  case True
  with assms show thesis by (intro open_route) (simp_all add: router_def)
next
  case False
  obtain ok s1 where auth: "on_auth (require_auth (ax_auth X) (ev_auth env) header) s = (ok, s1)"
    by fastforce
  show thesis
  proof (cases ok)
    case True
    with assms False auth show thesis by (intro admitted [of s1]) (simp_all add: router_def)
  next
    case False
    with assms \<open>\<not> public req\<close> auth show thesis by (intro refused) (simp_all add: router_def)
  qed
qed

lemma require_auth_steps:
  assumes "on_auth (require_auth A env header) s = (ok, s1)"
  shows "auth_step A (h, auth_of s) (h, auth_of s1)"
proof (cases "bearer_token A header")
  case None
  then have "auth_of s1 = auth_of s"
    using assms on_auth_run(1) [of "require_auth A env header" s] by (simp add: require_auth_def)
  then show ?thesis by (simp add: auth_step.managed)
next
  case (Some t)
  then have "auth_of s1 = snd (validate A env t (auth_of s))"
    using assms on_auth_run(1) [of "require_auth A env header" s] by (simp add: require_auth_def)
  then show ?thesis by (simp add: auth_step.validated)
qed

lemma api_step_sessions_ok:
  assumes "api_step X p q" and ok: "api_sessions_ok X users tokens p"
  shows "api_sessions_ok X users tokens q"
  using assms(1)
proof cases
  case (served env header req s resp s' h)
  from served(3) have "(auth_step (ax_auth X))\<^sup>*\<^sup>* (h, auth_of s) (logins_after env req resp s h, auth_of s')"
  proof (cases rule: router_cases)
    case open_route
    from route_steps [OF this(2)] show ?thesis by (rule r_into_rtranclp)
  next
    case refused
    have "logins_after env req resp s h = h" using refused(3) by simp
    with require_auth_steps [OF refused(2)] show ?thesis by (simp add: r_into_rtranclp)
  next
    case (admitted s1)
    have none: "req \<noteq> Post_Login user pass" for user pass
      using admitted(1) by (auto simp del: logins_after_simps)
    have "logins_after env req resp s h = logins_after env req resp s1 h"
      by (simp add: logins_after_other [OF none])
    from r_into_rtranclp [where r = "auth_step (ax_auth X)", OF require_auth_steps [OF admitted(2)]]
      route_steps [OF admitted(3)]
    show ?thesis unfolding \<open>logins_after env req resp s h = logins_after env req resp s1 h\<close>
      by (rule rtranclp.rtrancl_into_rtrancl)
  qed
  from auth_sessions.reach_inv [OF this] ok served(1,2) show ?thesis
    by (simp add: api_sessions_ok_def)
qed

interpretation api: step_invariant "api_step X" "api_sessions_ok X users tokens"
  for X :: "('rt, 'm, 'r, 'db, 'ph, 'f) api_libs" and users tokens
  by unfold_locales (rule api_step_sessions_ok)

section \<open>Requests that are not authorised\<close>

lemma require_auth_True:
  assumes ok: "sessions_ok A users tokens (h, auth_of s)"
    and run: "on_auth (require_auth A env header) s = (True, s1)"
  shows "\<exists>token. bearer_token A header = Some token \<and>
    (login_backed A users h env token \<or> token_backed A tokens (c_db (ap_cache s)) env token)"
proof (cases "bearer_token A header")
  case None
  with run on_auth_run(2) [of "require_auth A env header" s] show ?thesis by (simp add: require_auth_def)
next
  case (Some t)
  with run on_auth_run(2) [of "require_auth A env header" s]
  have "fst (validate A env t (auth_of s))" by (simp add: require_auth_def)
  then obtain a' where "validate A env t (auth_of s) = (True, a')" by (metis prod.collapse)
  from valid_token_backed [OF ok this] Some show ?thesis by simp
qed

lemma validate_False_db:
  assumes law: "auth_law A users tokens" and run: "validate A env token a = (False, a')"
  shows "users (au_db a') = users (au_db a) \<and> tokens (au_db a') = tokens (au_db a)"
proof -
  let ?a1 = "a\<lparr>au_sessions := (au_sessions a)(token := None)\<rparr>"
  from run obtain r where
    "on_pool (sql_valid_token A (sha256_hex A token) (ae_unix env)) ?a1 = (r, a')"
    by (auto simp: validate_def Let_def split: prod.splits sum.splits option.splits if_splits)
  from on_pool_db [OF this] have "sql_valid_token A (sha256_hex A token) (ae_unix env) (au_db a) = (r, au_db a')"
    by simp
  moreover from law have "reads_tokens A users tokens" by (simp add: auth_law_def)
  ultimately show ?thesis unfolding reads_tokens_def by blast
qed

lemma refused_frame:
  assumes law: "auth_law A users tokens"
    and run: "on_auth (require_auth A env header) s = (False, s')"
  shows "users (c_db (ap_cache s')) = users (c_db (ap_cache s)) \<and>
    tokens (c_db (ap_cache s')) = tokens (c_db (ap_cache s)) \<and>
    ap_sessions s' \<subseteq>\<^sub>m ap_sessions s"
proof (cases "bearer_token A header")
  case None
  then have "auth_of s' = auth_of s"
    using run on_auth_run(1) [of "require_auth A env header" s] by (simp add: require_auth_def)
  then show ?thesis by (simp add: auth_of_def)
next
  case (Some t)
  obtain a' where v: "validate A env t (auth_of s) = (False, a')"
    using run on_auth_run(2) [of "require_auth A env header" s] Some
    by (cases "validate A env t (auth_of s)") (simp add: require_auth_def)
  have "auth_of s' = a'"
    using run on_auth_run(1) [of "require_auth A env header" s] Some v by (simp add: require_auth_def)
  then have "c_db (ap_cache s') = au_db a'" "ap_sessions s' = au_sessions a'"
    by (auto simp: auth_of_def)
  moreover have "au_sessions a' \<subseteq>\<^sub>m ap_sessions s"
    using validate_sessions [OF v] by (auto simp: map_le_def domIff)
  ultimately show ?thesis
    using validate_False_db [OF law v] by simp
qed

section \<open>Accounting\<close>

text \<open>How many domains a request offers.\<close>

fun offered :: "('rt, 'm, 'r, 'db, 'ph, 'f) api_libs \<Rightarrow> 'f api_env \<Rightarrow> api_request \<Rightarrow> nat option" where
  "offered X env (Post_Blocklist d) = Some 1"
| "offered X env (Post_Allowlist d) = Some 1"
| "offered X env (Post_Blocklist_Bulk ds) = Some (length ds)"
| "offered X env (Post_Allowlist_Bulk ds) = Some (length ds)"
| "offered X env (Post_Blocklist_Bulk_Remove ds) = Some (length ds)"
| "offered X env (Post_Blocklist_Url url list) =
     (case ev_http env url of Inl _ \<Rightarrow> None | Inr content \<Rightarrow> Some (length (parse_domain_list (ax_cache X) content)))"
| "offered X env _ = None"

text \<open>What a response may say, given how many domains were offered.\<close>

fun body_accounted :: "nat option \<Rightarrow> 'f body \<Rightarrow> bool" where
  "body_accounted k (Added_Body r) = (k = Some (ar_added r + ar_skipped r + ar_invalid r))"
| "body_accounted k (Bulk_Body r) = (k = Some (br_added r + br_skipped r + length (br_errors r)))"
| "body_accounted k (Page_Body p) = (1 \<le> pa_limit p \<and> pa_limit p \<le> MAX_LIMIT)"
| "body_accounted k _ = True"

fun accounted :: "nat option \<Rightarrow> 'f response \<Rightarrow> bool" where
  "accounted k (Ok_Json b) = body_accounted k b"
| "accounted k Panicked = False"
| "accounted k _ = True"

lemma added_response_eq:
  "added out \<le> considered out \<Longrightarrow> considered out \<le> n \<Longrightarrow>
     added_response n out = Ok_Json (Added_Body \<lparr>ar_added = added out,
       ar_skipped = considered out - added out, ar_invalid = n - considered out\<rparr>)"
  by (simp add: added_response_def from_outcome_def checked_sub_def)

text \<open>Any operation whose counts are in order is reported without an underflow.\<close>

lemma addition_accounted:
  assumes "\<And>out c'. f (ap_cache s) = (Inr out, c') \<Longrightarrow> added out \<le> considered out \<and> considered out \<le> n"
  shows "accounted (Some n) (fst (reply_cache (added_response n) (on_cache f s)))"
proof -
  obtain r c where run: "f (ap_cache s) = (r, c)" by fastforce
  show ?thesis
  proof (cases r)
    case (Inl e)
    with run show ?thesis by (simp add: reply_cache_def on_cache_def)
  next
    case (Inr out)
    with run assms [of out c] show ?thesis by (simp add: reply_cache_def on_cache_def added_response_eq)
  qed
qed

lemma add_block_domains_counts:
  assumes law: "sql_law L rows" and run: "add_block_domains L list ds c = (Inr out, c')"
  shows "added out \<le> considered out \<and> considered out \<le> length ds"
  using add_block_domains_Ok(1,2) [OF law run] length_distinct_bound length_normalize_domains [of L ds]
  by simp

lemma add_allow_domains_counts:
  assumes law: "sql_law L rows" and run: "add_allow_domains L ds c = (Inr out, c')"
  shows "added out \<le> considered out \<and> considered out \<le> length ds"
  using add_allow_domains_Ok [OF law run] length_distinct_bound length_normalize_domains [of L ds]
  by simp

lemma remove_loop_counts:
  "remove_loop X ds acc s = (r, s') \<Longrightarrow>
     br_added r + br_skipped r + length (br_errors r) =
     br_added acc + br_skipped acc + length (br_errors acc) + length ds"
proof (induction ds arbitrary: acc s)
  case (Cons d ds)
  obtain res s1 where run: "on_cache (remove_block_domain (ax_cache X) d) s = (res, s1)" by fastforce
  from Cons.prems run show ?case
    by (auto dest!: Cons.IH split: sum.splits bool.splits)
qed simp

lemma page_limit: "resolve_page p = (limit, offset) \<Longrightarrow> 1 \<le> limit \<and> limit \<le> MAX_LIMIT"
  by (auto simp: resolve_page_def MAX_LIMIT_def)

lemma list_page_accounted: "accounted k (fst (list_page X tbl p s))"
proof -
  obtain limit offset where page: "resolve_page p = (limit, offset)" by fastforce
  with page_limit [OF page] show ?thesis
    by (simp add: list_page_def reply_cache_def split: prod.split sum.split)
qed

lemma accounted_db: "(\<And>x. accounted k (f x)) \<Longrightarrow> accounted k (fst (reply_db f r))"
  by (simp add: reply_db_def split: prod.split sum.split)

lemma additions_accounted:
  assumes law: "sql_law (ax_cache X) rows"
  shows "accounted (Some (length ds)) (fst (reply_cache (added_response (length ds))
      (on_cache (add_block_domains (ax_cache X) list ds) s)))"
    and "accounted (Some (length ds)) (fst (reply_cache (added_response (length ds))
      (on_cache (add_allow_domains (ax_cache X) ds) s)))"
  by (rule addition_accounted, erule add_block_domains_counts [OF law] add_allow_domains_counts [OF law])+

lemma url_accounted:
  assumes law: "sql_law (ax_cache X) rows"
  shows "accounted (offered X env (Post_Blocklist_Url url list)) (fst (block_add_url X env url list s))"
  using additions_accounted(1) [OF law]
  by (cases "ev_http env url") (simp_all add: block_add_url_def Let_def)

lemma single_accounted:
  assumes law: "sql_law (ax_cache X) rows"
  shows "accounted (Some 1) (fst (block_add_one X d s))" and "accounted (Some 1) (fst (allow_add_one X d s))"
  using additions_accounted(1) [OF law, of "[d]" "''custom''" s] additions_accounted(2) [OF law, of "[d]" s]
  by (simp_all add: block_add_one_def allow_add_one_def add_block_domain_def [abs_def] add_allow_domain_def [abs_def])

lemma remove_bulk_accounted: "accounted (Some (length ds)) (fst (remove_bulk X ds s))"
proof -
  obtain r s' where run: "remove_loop X ds \<lparr>br_added = 0, br_skipped = 0, br_errors = []\<rparr> s = (r, s')"
    by fastforce
  with remove_loop_counts [OF run] show ?thesis by (simp add: remove_bulk_def)
qed

lemma pages_accounted:
  "accounted k (fst (metrics_page X s))" "accounted k (fst (login_handler X env user pass s))"
  "accounted k (fst (patch_config X p s))" "accounted k (stats_page X env s)" "accounted k (health X s)"
  "accounted k (fst (remove_one X d s))"
  by (simp_all add: metrics_page_def login_handler_def patch_config_def stats_page_def health_def
      remove_one_def reply_cache_def Let_def split: prod.split sum.split option.split)

lemma route_accounted:
  assumes law: "sql_law (ax_cache X) rows"
  shows "accounted (offered X env req) (fst (route X env req s))"
proof (cases req)
  case (Post_Blocklist_Url url list)
  with url_accounted [OF law] show ?thesis by (simp only: route.simps)
qed (simp_all add: additions_accounted [OF law] single_accounted [OF law, simplified] remove_bulk_accounted
    block_add_bulk_def allow_add_bulk_def pages_accounted list_page_accounted accounted_db changed_or_def
    account_handlers list_blocked_def list_allowed_def)

text \<open>A downloaded list holds valid domains only, so none of it is reported as invalid.\<close>

lemma url_import_valid:
  fixes X :: "('rt, 'm, 'r, 'db, 'ph, 'f) api_libs"
  assumes low: "lowercase_law (ax_cache X)" and law: "sql_law (ax_cache X) rows"
    and run: "block_add_url X env url list s = (Ok_Json (Added_Body r), s')"
  shows "ar_invalid r = 0"
proof -
  from run obtain content where content: "ev_http env url = Inr content"
    by (cases "ev_http env url") (simp_all add: block_add_url_def)
  let ?ds = "parse_domain_list (ax_cache X) content"
  obtain res c where add: "add_block_domains (ax_cache X) (unwrap_or list url) ?ds (ap_cache s) = (res, c)"
    by fastforce
  with run content obtain out where res: "res = Inr out"
    and reply: "added_response (length ?ds) out = (Ok_Json (Added_Body r) :: 'f response)"
    by (cases res) (auto simp: block_add_url_def Let_def on_cache_def reply_cache_def)
  note ok = add [unfolded res]
  from add_block_domains_Ok(2) [OF law ok] normalize_parsed_list [OF low, of content]
  have "considered out = length ?ds" by simp
  with reply add_block_domains_counts [OF law ok] show ?thesis by (auto simp: added_response_eq)
qed

section \<open>Patches\<close>

lemma patch_config_cases:
  assumes "patch_config X p s = (resp, s')"
  obtains (failed) e db where "persist (ax_settings X) (apply_to p (ap_config s)) (c_db (ap_cache s)) = (Inl e, db)"
      "resp = Api_Error INTERNAL (db_error_text e)" "s' = s\<lparr>ap_cache := (ap_cache s)\<lparr>c_db := db\<rparr>\<rparr>"
  | (stored) db where "persist (ax_settings X) (apply_to p (ap_config s)) (c_db (ap_cache s)) = (Inr (), db)"
      "resp = Ok_Json (Config_Body (apply_to p (ap_config s)))"
      "s' = s\<lparr>ap_cache := (ap_cache s)\<lparr>c_db := db\<rparr>, ap_config := apply_to p (ap_config s)\<rparr>"
  using assms by (auto simp: patch_config_def Let_def split: prod.splits sum.splits)

end
