(* ===== verification/Startup.thy ===== *)
theory Startup
  imports Api Acl Server
begin

text \<open>
  \<open>backend/src/cli.rs\<close> and \<open>backend/src/main.rs\<close>: the options with their defaults, how many
  threads each part gets and on which core each runs, and the order in which \<open>run\<close> builds
  the parts of the server. Parsing of arguments, thread creation and sockets are not modelled.
\<close>

section \<open>Options\<close>

record analytics_args =
  an_clickhouse :: bool
  an_prometheus :: bool

record dns_args =
  dn_bind :: socket_addr
  dn_runtime :: runtime
  dn_workers :: "nat option"
  dn_other_workers :: nat

record api_args =
  aa_bind :: socket_addr

record upstream_args =
  up_servers :: "socket_addr list"
  up_timeout_ms :: u64

record redis_args =
  rd_url :: string
  rd_cache_capacity :: u64

record database_args =
  da_url :: string
  da_max_connections :: u32

record kafka_args =
  ka_brokers :: string

record clickhouse_args =
  cl_url :: string
  cl_user :: string
  cl_password :: string

record cli =
  cli_dns :: dns_args
  cli_api :: api_args
  cli_upstream :: upstream_args
  cli_redis :: redis_args
  cli_database :: database_args
  cli_kafka :: kafka_args
  cli_clickhouse :: clickhouse_args
  cli_analytics :: analytics_args
  cli_verbose :: u8

text \<open>The value of each option that is given neither on the command line nor in the environment.\<close>

definition default_cli :: cli where
  "default_cli = \<lparr>
     cli_dns = \<lparr>dn_bind = SocketV4 0 53, dn_runtime = Monoio, dn_workers = None, dn_other_workers = 2\<rparr>,
     cli_api = \<lparr>aa_bind = SocketV4 0 8080\<rparr>,
     cli_upstream = \<lparr>up_servers = [SocketV4 0x09090909 53, SocketV4 0x01010101 53], up_timeout_ms = 5000\<rparr>,
     cli_redis = \<lparr>rd_url = ''redis://localhost:6379'', rd_cache_capacity = 10000\<rparr>,
     cli_database = \<lparr>da_url = ''sqlite://denis.db'', da_max_connections = 16\<rparr>,
     cli_kafka = \<lparr>ka_brokers = ''localhost:9092''\<rparr>,
     cli_clickhouse = \<lparr>cl_url = ''http://localhost:8123'', cl_user = ''default'', cl_password = ''clickhouse''\<rparr>,
     cli_analytics = \<lparr>an_clickhouse = True, an_prometheus = True\<rparr>,
     cli_verbose = 0\<rparr>"

datatype log_level = Level_Info | Level_Debug | Level_Trace

definition log_level_of :: "u8 \<Rightarrow> log_level" where
  "log_level_of verbose = (if verbose = 0 then Level_Info else if verbose = 1 then Level_Debug else Level_Trace)"

section \<open>Threads and cores\<close>

text \<open>
  \<open>cores\<close> is what \<open>core_affinity::get_core_ids\<close> gives, \<open>parallelism\<close> what the standard library
  knows when it gives nothing.
\<close>

definition total_cores :: "'c list option \<Rightarrow> nat option \<Rightarrow> nat" where
  "total_cores cores parallelism =
     (case cores of Some c \<Rightarrow> length c | None \<Rightarrow> unwrap_or parallelism 1)"

definition tokio_workers :: "dns_args \<Rightarrow> nat" where
  "tokio_workers d = max (dn_other_workers d) 1"

definition datapath_workers :: "dns_args \<Rightarrow> nat \<Rightarrow> nat" where
  "datapath_workers d n = max (unwrap_or (dn_workers d) (max (n - tokio_workers d) 1)) 1"

text \<open>\<open>c[i % c.len()]\<close> divides by zero on an empty list of cores: \<^const>\<open>None\<close> is that panic.\<close>

definition pin_at :: "'c list option \<Rightarrow> nat \<Rightarrow> 'c option option" where
  "pin_at cores i =
     (case cores of
        None \<Rightarrow> Some None
      | Some c \<Rightarrow> (if c = [] then None else Some (Some (c ! (i mod length c)))))"

fun collect_pins :: "'c option option list \<Rightarrow> 'c option list option" where
  "collect_pins [] = Some []"
| "collect_pins (p # ps) = Option.bind p (\<lambda>x. map_option ((#) x) (collect_pins ps))"

definition dp_pins :: "'c list option \<Rightarrow> dns_args \<Rightarrow> nat \<Rightarrow> 'c option list option" where
  "dp_pins cores d n = collect_pins (map (pin_at cores) [0..<datapath_workers d n])"

definition tk_pins :: "'c list option \<Rightarrow> dns_args \<Rightarrow> nat \<Rightarrow> 'c option list option" where
  "tk_pins cores d n =
     collect_pins (map (\<lambda>i. pin_at cores (datapath_workers d n + i)) [0..<tokio_workers d])"

text \<open>\<open>on_thread_start\<close>: the core of the \<open>i\<close>-th thread of the runtime that starts.\<close>

definition thread_core :: "'c option list \<Rightarrow> nat \<Rightarrow> 'c option" where
  "thread_core pins i = Option.bind (slice_get pins (i mod length pins)) id"

text \<open>
  What \<open>main\<close> sets up: the pins of the datapath, and for the Monoio runtime the number of Tokio
  threads with their pins; the Tokio runtime takes its own default and pins nothing.
\<close>

record 'c start_plan =
  pl_level :: log_level
  pl_datapath :: "'c option list"
  pl_tokio :: "(nat \<times> 'c option list) option"

definition start_plan_of :: "'c list option \<Rightarrow> nat option \<Rightarrow> cli \<Rightarrow> 'c start_plan option" where
  "start_plan_of cores parallelism o1 =
     (let n = total_cores cores parallelism; d = cli_dns o1 in
      Option.bind (dp_pins cores d n) (\<lambda>dp.
        (case dn_runtime d of
           Monoio \<Rightarrow> Option.bind (tk_pins cores d n) (\<lambda>tk.
             Some \<lparr>pl_level = log_level_of (cli_verbose o1), pl_datapath = dp,
               pl_tokio = Some (tokio_workers d, tk)\<rparr>)
         | Tokio \<Rightarrow>
             Some \<lparr>pl_level = log_level_of (cli_verbose o1), pl_datapath = dp, pl_tokio = None\<rparr>)))"

section \<open>Building the server\<close>

text \<open>A step that must succeed: its failure ends the program with a message.\<close>

definition expect :: "string \<Rightarrow> (sql_error + 'a) \<times> 'db \<Rightarrow> (string + 'a) \<times> 'db" where
  "expect message r = (case r of (Inl e, db) \<Rightarrow> (Inl (message @ '': '' @ db_error_text e), db) | (Inr x, db) \<Rightarrow> (Inr x, db))"

definition and_then ::
  "(string + 'a) \<times> 'db \<Rightarrow> ('a \<Rightarrow> 'db \<Rightarrow> (string + 'b) \<times> 'db) \<Rightarrow> (string + 'b) \<times> 'db" where
  "and_then r f = (case r of (Inl e, db) \<Rightarrow> (Inl e, db) | (Inr x, db) \<Rightarrow> f x db)"

lemma and_then_InrE:
  assumes "and_then r f = (Inr y, db')"
  obtains x db where "r = (Inr x, db)" "f x db = (Inr y, db')"
  using assms by (cases r; cases "fst r") (auto simp: and_then_def)

lemma expect_Inr [simp]: "expect message r = (Inr x, db) \<longleftrightarrow> r = (Inr x, db)"
  by (cases r; cases "fst r") (auto simp: expect_def)

text \<open>
  What \<open>run\<close> needs beside the libraries of the parts: the creation of the list tables, an empty
  L1 of a capacity, the feature flag, and what the surroundings answer (the Redis connection, the
  sockets bound for the pool, what seeding the first account draws).
\<close>

record ('m, 'r, 'db, 'sock) boot_env =
  be_ensure_tables :: "('db, unit) sql"
  be_moka_new :: "u64 \<Rightarrow> 'm"
  be_analytics_feature :: bool
  be_redis :: "string + 'r"
  be_binds :: "(io_error + 'sock) list"
  be_auth :: auth_env

record ('m, 'r, 'db, 'q, 'net) started =
  st_acl :: "'net acl_entry list"
  st_producer :: producer
  st_consumer :: bool
  st_sockets :: 'q
  st_api :: "('m, 'r, 'db) api_state"

definition cache_new :: "('m, 'r, 'db, 'sock) boot_env \<Rightarrow> 'r \<Rightarrow> 'db \<Rightarrow> u64 \<Rightarrow> ('m, 'r, 'db) cache" where
  "cache_new env rds db capacity =
     \<lparr>c_l1 = be_moka_new env capacity, c_allow = {}, c_block = {}, c_rds = rds, c_db = db\<rparr>"

definition clickhouse_on :: "('m, 'r, 'db, 'sock) boot_env \<Rightarrow> cli \<Rightarrow> bool" where
  "clickhouse_on env o1 \<longleftrightarrow> an_clickhouse (cli_analytics o1) \<and> be_analytics_feature env"

definition boot ::
  "('rt, 'm, 'r, 'db, 'ph, 'f) api_libs \<Rightarrow> ('net, 'db) acl_libs \<Rightarrow> ('sock, 'q) queue_libs \<Rightarrow>
     ('m, 'r, 'db, 'sock) boot_env \<Rightarrow> cli \<Rightarrow> 'db \<Rightarrow> (string + ('m, 'r, 'db, 'q, 'net) started) \<times> 'db" where
  "boot X N Q env o1 db =
     and_then (expect ''failed to create blocklist/allowlist tables'' (be_ensure_tables env db)) (\<lambda>_ db1.
     and_then (expect ''failed to load access control list'' (load N db1)) (\<lambda>acl db2.
     and_then (be_redis env, db2) (\<lambda>rds db3.
     and_then (expect ''failed to load runtime config''
       (load_or_init (ax_settings X) (from_cli (up_servers (cli_upstream o1)) (up_timeout_ms (cli_upstream o1))) db3))
       (\<lambda>cfg db4.
     (let metrics = (if an_prometheus (cli_analytics o1) then Some metrics_new else None);
          brokers = (if clickhouse_on env o1 then Some (ka_brokers (cli_kafka o1)) else None);
          prod = producer_spawn (be_analytics_feature env) metrics brokers;
          c0 = cache_new env rds db4 (rd_cache_capacity (cli_redis o1));
          c1 = read_allowlist_db_memory (ax_cache X) (read_blocklist_db_memory (ax_cache X) c0);
          sockets = new_pool Q (be_binds env)
      in and_then (expect ''failed to init auth'' (auth_new (ax_auth X) (be_auth env) (c_db c1))) (\<lambda>a db5.
        (Inr \<lparr>st_acl = acl, st_producer = prod, st_consumer = clickhouse_on env o1, st_sockets = sockets,
           st_api = \<lparr>ap_cache = c1\<lparr>c_db := db5\<rparr>, ap_stats = clickhouse_on env o1, ap_metrics = metrics,
             ap_config = cfg, ap_sessions = au_sessions a\<rparr>\<rparr>, db5)))))))"

section \<open>Where the threads run\<close>

lemma workers_positive: "1 \<le> tokio_workers d" "1 \<le> datapath_workers d n"
  by (simp_all add: tokio_workers_def datapath_workers_def)

lemma collect_pins_Some: "\<forall>i \<in> set is. f i \<noteq> None \<Longrightarrow> collect_pins (map f is) = Some (map (the \<circ> f) is)"
  by (induction "is") auto

lemma pins_of_cores:
  assumes "c \<noteq> []"
  shows "dp_pins (Some c) d n = Some (map (\<lambda>i. Some (c ! (i mod length c))) [0..<datapath_workers d n])"
    and "tk_pins (Some c) d n =
      Some (map (\<lambda>i. Some (c ! ((datapath_workers d n + i) mod length c))) [0..<tokio_workers d])"
  using assms by (simp_all add: dp_pins_def tk_pins_def pin_at_def collect_pins_Some comp_def)

lemma collect_pins_replicate [simp]: "collect_pins (replicate k (Some x)) = Some (replicate k x)"
  by (induction k) simp_all

lemma pin_at_None [simp]: "pin_at None = (\<lambda>_. Some None)"
  by (simp add: pin_at_def fun_eq_iff)

lemma pins_without_cores:
  "dp_pins None d n = Some (replicate (datapath_workers d n) None)"
  "tk_pins None d n = Some (replicate (tokio_workers d) None)"
  by (simp_all add: dp_pins_def tk_pins_def map_replicate_const)

lemma pins_of_no_core: "dp_pins (Some []) d n = None"
proof -
  have "[0..<datapath_workers d n] = 0 # [1..<datapath_workers d n]"
    using workers_positive(2) [of d n] by (simp add: upt_conv_Cons)
  then show ?thesis by (simp add: dp_pins_def pin_at_def)
qed

lemma default_split:
  assumes "dn_workers d = None" and "1 \<le> dn_other_workers d" and "dn_other_workers d < n"
  shows "datapath_workers d n + tokio_workers d = n"
  using assms by (simp add: datapath_workers_def tokio_workers_def)

section \<open>What a start leaves behind\<close>

text \<open>The statements on the accounts do not touch what \<open>view\<close> reads.\<close>

definition accounts_leave :: "('ph, 'db, 'x) auth_libs_scheme \<Rightarrow> ('db \<Rightarrow> 'v) \<Rightarrow> bool" where
  "accounts_leave A view \<longleftrightarrow>
     (\<forall>db. view (snd (sql_create_auth A db)) = view db \<and> view (snd (sql_count_users A db)) = view db) \<and>
     (\<forall>u h c db. view (snd (sql_insert_user A u h c db)) = view db)"

lemma auth_new_leaves:
  assumes "accounts_leave A view" and "auth_new A env db = (r, db')"
  shows "view db' = view db"
proof -
  note leave = assms(1) [unfolded accounts_leave_def]
  obtain r1 db1 where 1: "sql_create_auth A db = (r1, db1)" by fastforce
  obtain r2 db2 where 2: "sql_count_users A db1 = (r2, db2)" by fastforce
  obtain r3 db3 where 3: "sql_insert_user A ''admin'' (hash_password A env ''admin'') (ae_unix env) db2 = (r3, db3)"
    by fastforce
  have "view db1 = view db" "view db2 = view db1" "view db3 = view db2"
    using leave 1 2 3 by (metis snd_conv)+
  moreover have "db' \<in> {db1, db2, db3}"
    using assms(2) 1 2 3 by (auto simp: auth_new_def split: sum.splits if_splits)
  ultimately show ?thesis by auto
qed

lemma auth_new_sessions: "auth_new A env db = (Inr a, db') \<Longrightarrow> au_sessions a = Map.empty \<and> au_db a = db'"
  by (auto simp: auth_new_def split: prod.splits sum.splits if_splits)

lemma boot_InrE:
  assumes "boot X N Q env o1 db = (Inr st, db')"
  obtains db2 db3 db4 acl rds cfg a where
    "load N db2 = (Inr acl, db3)"
    "load_or_init (ax_settings X) (from_cli (up_servers (cli_upstream o1)) (up_timeout_ms (cli_upstream o1))) db3 =
       (Inr cfg, db4)"
    "auth_new (ax_auth X) (be_auth env) db4 = (Inr a, db')"
    "st_acl st = acl" "ap_config (st_api st) = cfg" "ap_sessions (st_api st) = au_sessions a"
    "ap_cache (st_api st) = (read_allowlist_db_memory (ax_cache X) (read_blocklist_db_memory (ax_cache X)
       (cache_new env rds db4 (rd_cache_capacity (cli_redis o1)))))\<lparr>c_db := db'\<rparr>"
    "ap_metrics (st_api st) = (if an_prometheus (cli_analytics o1) then Some metrics_new else None)"
    "st_producer st = producer_spawn (be_analytics_feature env) (ap_metrics (st_api st))
       (if clickhouse_on env o1 then Some (ka_brokers (cli_kafka o1)) else None)"
    "st_consumer st = clickhouse_on env o1" "ap_stats (st_api st) = clickhouse_on env o1"
    "be_ensure_tables env db = (Inr (), db2)"
proof -
  from assms obtain db2 acl db3 rds db3' cfg db4 a db5 where
    steps: "be_ensure_tables env db = (Inr (), db2)" "load N db2 = (Inr acl, db3)" "be_redis env = Inr rds" "db3' = db3"
      "load_or_init (ax_settings X) (from_cli (up_servers (cli_upstream o1)) (up_timeout_ms (cli_upstream o1)))
         db3 = (Inr cfg, db4)"
      "auth_new (ax_auth X) (be_auth env) db4 = (Inr a, db5)" "db5 = db'"
    and st: "st = \<lparr>st_acl = acl, st_producer = producer_spawn (be_analytics_feature env)
         (if an_prometheus (cli_analytics o1) then Some metrics_new else None)
         (if clickhouse_on env o1 then Some (ka_brokers (cli_kafka o1)) else None),
       st_consumer = clickhouse_on env o1, st_sockets = new_pool Q (be_binds env),
       st_api = \<lparr>ap_cache = (read_allowlist_db_memory (ax_cache X) (read_blocklist_db_memory (ax_cache X)
           (cache_new env rds db4 (rd_cache_capacity (cli_redis o1)))))\<lparr>c_db := db5\<rparr>,
         ap_stats = clickhouse_on env o1,
         ap_metrics = (if an_prometheus (cli_analytics o1) then Some metrics_new else None),
         ap_config = cfg, ap_sessions = au_sessions a\<rparr>\<rparr>"
    unfolding boot_def Let_def
    by (elim and_then_InrE)
      (simp add: cache_new_def read_allowlist_db_memory_def read_blocklist_db_memory_def)
  show thesis
    by (rule that [of db2 acl db3 cfg db4 a rds]) (use steps st in simp_all)
qed

end
