(* ===== verification/Concurrency.thy ===== *)
theory Concurrency
  imports Cache_Correct
begin

text \<open>
  Requests that run at the same time. An update of the lists of \<open>repo/cache.rs\<close> takes
  \<open>write_lock\<close>, copies the current set, stores the changed copy, drops the lock and only then
  runs its statements; a patch of the configuration (\<open>api/mod.rs\<close>) loads, persists and stores
  without a lock. Each of these is a step of its own here, interleaved in any order.
\<close>

section \<open>Updates of the lists, step by step\<close>

datatype list_job =
    Add_Block string "string list"
  | Add_Allow "string list"
  | Remove_Block string

datatype list_statement =
    Insert_Blocked string "string list"
  | Insert_Allowed "string list"
  | Delete_Blocked string

text \<open>
  Where a request is: not running, before the lock, with the lock, with its changed copy, after
  the store but before the lock is dropped, and with the statements it still has to run.
\<close>

datatype list_phase =
    Not_Running
  | Waiting list_job
  | Holding list_job
  | Copied list_job domain_set
  | Stored list_job
  | Sql_Phase "list_statement list"

record 'db list_state =
  ls_block :: domain_set
  ls_allow :: domain_set
  ls_lock :: "nat option"
  ls_db :: 'db
  ls_phase :: "nat \<Rightarrow> list_phase"
  ls_submitted :: "nat \<Rightarrow> list_job list"
  ls_history :: "(nat \<times> list_job) list"

definition list_start :: "('m, 'r, 'db) cache \<Rightarrow> 'db list_state" where
  "list_start c = \<lparr>ls_block = c_block c, ls_allow = c_allow c, ls_lock = None, ls_db = c_db c,
     ls_phase = (\<lambda>_. Not_Running), ls_submitted = (\<lambda>_. []), ls_history = []\<rparr>"

text \<open>An addition without a valid domain returns before the lock.\<close>

fun needs_lock :: "('rt, 'x) dns_libs_scheme \<Rightarrow> list_job \<Rightarrow> bool" where
  "needs_lock L (Add_Block list ds) = (normalize_domains L ds \<noteq> [])"
| "needs_lock L (Add_Allow ds) = (normalize_domains L ds \<noteq> [])"
| "needs_lock L (Remove_Block d) = True"

text \<open>The changed copy of the set a job is about.\<close>

fun changed_copy :: "('rt, 'x) dns_libs_scheme \<Rightarrow> list_job \<Rightarrow> 'db list_state \<Rightarrow> domain_set" where
  "changed_copy L (Add_Block list ds) s = cow_insert (ls_block s) (normalize_domains L ds)"
| "changed_copy L (Add_Allow ds) s = cow_insert (ls_allow s) (normalize_domains L ds)"
| "changed_copy L (Remove_Block d) s = ls_block s - {to_lowercase L d}"

fun store_copy :: "list_job \<Rightarrow> domain_set \<Rightarrow> 'db list_state \<Rightarrow> 'db list_state" where
  "store_copy (Add_Block list ds) D s = s\<lparr>ls_block := D\<rparr>"
| "store_copy (Add_Allow ds) D s = s\<lparr>ls_allow := D\<rparr>"
| "store_copy (Remove_Block d) D s = s\<lparr>ls_block := D\<rparr>"

fun statements :: "('rt, 'x) dns_libs_scheme \<Rightarrow> list_job \<Rightarrow> list_statement list" where
  "statements L (Add_Block list ds) =
     map (Insert_Blocked list) (chunks MAX_INSERT_CHUNK (normalize_domains L ds))"
| "statements L (Add_Allow ds) = map Insert_Allowed (chunks MAX_INSERT_CHUNK (normalize_domains L ds))"
| "statements L (Remove_Block d) = [Delete_Blocked (to_lowercase L d)]"

text \<open>Running one statement: whether it succeeded, and the database after it.\<close>

fun run_statement ::
  "('rt, 'm, 'r, 'db, 'x) cache_libs_scheme \<Rightarrow> list_statement \<Rightarrow> 'db \<Rightarrow> bool \<times> 'db" where
  "run_statement L (Insert_Blocked list ds) db = map_prod (\<lambda>r. \<not> isl r) id (sql_insert_blocked L list ds db)"
| "run_statement L (Insert_Allowed ds) db = map_prod (\<lambda>r. \<not> isl r) id (sql_insert_allowed L ds db)"
| "run_statement L (Delete_Blocked d) db = map_prod (\<lambda>r. \<not> isl r) id (sql_delete_blocked L d db)"

definition set_phase :: "nat \<Rightarrow> list_phase \<Rightarrow> 'db list_state \<Rightarrow> 'db list_state" where
  "set_phase i p s = s\<lparr>ls_phase := (ls_phase s)(i := p)\<rparr>"

inductive list_step ::
  "('rt, 'm, 'r, 'db, 'x) cache_libs_scheme \<Rightarrow> 'db list_state \<Rightarrow> 'db list_state \<Rightarrow> bool" for L where
  submit: "ls_phase s i = Not_Running \<Longrightarrow> needs_lock L j \<Longrightarrow>
     list_step L s (set_phase i (Waiting j)
       (s\<lparr>ls_submitted := (ls_submitted s)(i := ls_submitted s i @ [j])\<rparr>))"
| acquire: "ls_phase s i = Waiting j \<Longrightarrow> ls_lock s = None \<Longrightarrow>
     list_step L s (set_phase i (Holding j) (s\<lparr>ls_lock := Some i\<rparr>))"
| copy: "ls_phase s i = Holding j \<Longrightarrow> list_step L s (set_phase i (Copied j (changed_copy L j s)) s)"
| store: "ls_phase s i = Copied j D \<Longrightarrow>
     list_step L s (set_phase i (Stored j) ((store_copy j D s)\<lparr>ls_history := ls_history s @ [(i, j)]\<rparr>))"
| release: "ls_phase s i = Stored j \<Longrightarrow>
     list_step L s (set_phase i (Sql_Phase (statements L j)) (s\<lparr>ls_lock := None\<rparr>))"
| statement: "ls_phase s i = Sql_Phase (st # sts) \<Longrightarrow> run_statement L st (ls_db s) = (True, db) \<Longrightarrow>
     list_step L s (set_phase i (Sql_Phase sts) (s\<lparr>ls_db := db\<rparr>))"
| failed: "ls_phase s i = Sql_Phase (st # sts) \<Longrightarrow> run_statement L st (ls_db s) = (False, db) \<Longrightarrow>
     list_step L s (set_phase i Not_Running (s\<lparr>ls_db := db\<rparr>))"
| finished: "ls_phase s i = Sql_Phase [] \<Longrightarrow> list_step L s (set_phase i Not_Running s)"

section \<open>The specification: one request after the other\<close>

fun run_job ::
  "('rt, 'm, 'r, 'db, 'x) cache_libs_scheme \<Rightarrow> list_job \<Rightarrow> ('m, 'r, 'db) cache \<Rightarrow> ('m, 'r, 'db) cache" where
  "run_job L (Add_Block list ds) c = snd (add_block_domains L list ds c)"
| "run_job L (Add_Allow ds) c = snd (add_allow_domains L ds c)"
| "run_job L (Remove_Block d) c = snd (remove_block_domain L d c)"

definition run_jobs ::
  "('rt, 'm, 'r, 'db, 'x) cache_libs_scheme \<Rightarrow> list_job list \<Rightarrow> ('m, 'r, 'db) cache \<Rightarrow> ('m, 'r, 'db) cache" where
  "run_jobs L js c = fold (run_job L) js c"

fun in_section :: "list_phase \<Rightarrow> bool" where
  "in_section (Holding _) = True"
| "in_section (Copied _ _) = True"
| "in_section (Stored _) = True"
| "in_section _ = False"

fun not_yet_stored :: "list_phase \<Rightarrow> list_job list" where
  "not_yet_stored (Waiting j) = [j]"
| "not_yet_stored (Holding j) = [j]"
| "not_yet_stored (Copied j _) = [j]"
| "not_yet_stored _ = []"

definition jobs_of :: "nat \<Rightarrow> (nat \<times> list_job) list \<Rightarrow> list_job list" where
  "jobs_of i h = map snd (filter (\<lambda>e. fst e = i) h)"

text \<open>
  The invariant: whoever is in the section holds the lock, a copy is the current set with its
  job done, the sets in memory are those of the stored jobs run one after the other, and every
  request stores the jobs it was given once each, in their order.
\<close>

definition list_inv ::
  "('rt, 'm, 'r, 'db, 'x) cache_libs_scheme \<Rightarrow> ('m, 'r, 'db) cache \<Rightarrow> 'db list_state \<Rightarrow> bool" where
  "list_inv L c0 s \<longleftrightarrow>
     (\<forall>i. in_section (ls_phase s i) \<longrightarrow> ls_lock s = Some i) \<and>
     (\<forall>i j D. ls_phase s i = Copied j D \<longrightarrow> D = changed_copy L j s) \<and>
     ls_block s = c_block (run_jobs L (map snd (ls_history s)) c0) \<and>
     ls_allow s = c_allow (run_jobs L (map snd (ls_history s)) c0) \<and>
     (\<forall>i. jobs_of i (ls_history s) @ not_yet_stored (ls_phase s i) = ls_submitted s i)"

lemma set_phase_simps [simp]:
  "ls_block (set_phase i p s) = ls_block s" "ls_allow (set_phase i p s) = ls_allow s"
  "ls_lock (set_phase i p s) = ls_lock s" "ls_db (set_phase i p s) = ls_db s"
  "ls_submitted (set_phase i p s) = ls_submitted s" "ls_history (set_phase i p s) = ls_history s"
  "ls_phase (set_phase i p s) = (ls_phase s)(i := p)"
  by (simp_all add: set_phase_def)

lemma store_copy_frame [simp]:
  "ls_lock (store_copy j D s) = ls_lock s" "ls_phase (store_copy j D s) = ls_phase s"
  "ls_submitted (store_copy j D s) = ls_submitted s" "ls_history (store_copy j D s) = ls_history s"
  by (cases j; simp)+

lemma changed_copy_cong:
  "ls_block s' = ls_block s \<Longrightarrow> ls_allow s' = ls_allow s \<Longrightarrow> changed_copy L j s' = changed_copy L j s"
  by (cases j) simp_all

lemma run_jobs_snoc [simp]: "run_jobs L (js @ [j]) c = run_job L j (run_jobs L js c)"
  by (simp add: run_jobs_def)

lemma jobs_of_snoc [simp]: "jobs_of i (h @ [(k, j)]) = jobs_of i h @ (if k = i then [j] else [])"
  by (simp add: jobs_of_def)

text \<open>Storing the changed copy is the operation of the sequential cache.\<close>

lemma fold_insert_set: "fold insert xs A = A \<union> set xs"
  by (induction xs arbitrary: A) auto

lemma store_is_job:
  assumes "ls_block s = c_block c" and "ls_allow s = c_allow c"
  shows "ls_block (store_copy j (changed_copy L j s) s) = c_block (run_job L j c)"
    and "ls_allow (store_copy j (changed_copy L j s) s) = c_allow (run_job L j c)"
  using assms by (cases j; simp add: cow_insert_def fold_insert_set)+

text \<open>A step that leaves the sets and the history alone.\<close>

lemma list_inv_quiet:
  assumes inv: "list_inv L c0 s"
    and same: "ls_block s' = ls_block s" "ls_allow s' = ls_allow s" "ls_history s' = ls_history s"
    and holders: "\<And>k. in_section (ls_phase s' k) \<Longrightarrow> ls_lock s' = Some k"
    and copies: "\<And>k j D. ls_phase s' k = Copied j D \<Longrightarrow> ls_phase s k = Copied j D \<or> D = changed_copy L j s"
    and jobs: "\<And>k. jobs_of k (ls_history s) @ not_yet_stored (ls_phase s' k) = ls_submitted s' k"
  shows "list_inv L c0 s'"
  using inv same holders copies jobs changed_copy_cong [OF same(1,2), of L]
  unfolding list_inv_def by metis

text \<open>Only one request is in the section, so a store leaves no other copy behind.\<close>

lemma alone_in_section:
  assumes "list_inv L c0 s" and "in_section (ls_phase s i)" and "k \<noteq> i"
  shows "\<not> in_section (ls_phase s k)"
proof
  assume "in_section (ls_phase s k)"
  with assms(1,2) have "ls_lock s = Some k" "ls_lock s = Some i" unfolding list_inv_def by blast+
  with assms(3) show False by simp
qed

lemma list_inv_store:
  assumes inv: "list_inv L c0 s" and copied: "ls_phase s i = Copied j D"
  shows "list_inv L c0 (set_phase i (Stored j) ((store_copy j D s)\<lparr>ls_history := ls_history s @ [(i, j)]\<rparr>))"
    (is "list_inv L c0 ?s'")
proof -
  from inv copied have D: "D = changed_copy L j s" and held: "ls_lock s = Some i"
    by (auto simp: list_inv_def)
  have alone: "\<not> in_section (ls_phase s k)" if "k \<noteq> i" for k
    using inv _ that by (rule alone_in_section) (simp add: copied)
  have "ls_phase ?s' k \<noteq> Copied j' D'" for k j' D'
    using alone [of k] by (cases "k = i") auto
  moreover have "in_section (ls_phase ?s' k) \<longrightarrow> ls_lock ?s' = Some k" for k
    using alone [of k] held by (cases "k = i") auto
  moreover have "jobs_of k (ls_history ?s') @ not_yet_stored (ls_phase ?s' k) = ls_submitted ?s' k" for k
    using inv copied by (cases "k = i") (auto simp: list_inv_def dest: spec [of _ k])
  moreover from inv have "ls_block s = c_block (run_jobs L (map snd (ls_history s)) c0)"
    "ls_allow s = c_allow (run_jobs L (map snd (ls_history s)) c0)" by (simp_all add: list_inv_def)
  note store_is_job [where L = L and j = j, OF this]
  ultimately show ?thesis
    unfolding list_inv_def by (simp add: D)
qed

lemma list_step_inv:
  assumes "list_step L s s'" and inv: "list_inv L c0 s"
  shows "list_inv L c0 s'"
proof -
  from inv have lock: "\<And>k. in_section (ls_phase s k) \<Longrightarrow> ls_lock s = Some k"
    and jobs: "\<And>k. jobs_of k (ls_history s) @ not_yet_stored (ls_phase s k) = ls_submitted s k"
    by (simp_all add: list_inv_def)
  have quiet: "list_inv L c0 s'"
    if "ls_phase s' = (ls_phase s)(i := ph)" "ls_block s' = ls_block s" "ls_allow s' = ls_allow s"
      "ls_history s' = ls_history s"
      "\<And>k. in_section (((ls_phase s)(i := ph)) k) \<Longrightarrow> ls_lock s' = Some k"
      "\<And>j D. ph = Copied j D \<Longrightarrow> D = changed_copy L j s"
      "jobs_of i (ls_history s) @ not_yet_stored ph = ls_submitted s' i"
      "\<And>k. k \<noteq> i \<Longrightarrow> ls_submitted s' k = ls_submitted s k" for i ph
    using that jobs by (intro list_inv_quiet [OF inv]) (auto split: if_splits)
  from assms(1) show ?thesis
  proof cases
    case (submit i j)
    with lock jobs [of i] show ?thesis by (intro quiet) (auto split: if_splits)
  next
    case (acquire i j)
    with lock jobs [of i] show ?thesis by (intro quiet) (auto split: if_splits)
  next
    case (copy i j)
    with lock [of i] lock jobs [of i] show ?thesis by (intro quiet) (auto split: if_splits)
  next
    case (store i j D)
    from list_inv_store [OF inv store(2)] store(1) show ?thesis by simp
  next
    case (release i j)
    with alone_in_section [OF inv, of i] jobs [of i] show ?thesis by (intro quiet) (auto split: if_splits)
  next
    case (statement i st sts db)
    with lock jobs [of i] show ?thesis by (intro quiet) (auto split: if_splits)
  next
    case (failed i st sts db)
    with lock jobs [of i] show ?thesis by (intro quiet) (auto split: if_splits)
  next
    case (finished i)
    with lock jobs [of i] show ?thesis by (intro quiet) (auto split: if_splits)
  qed
qed

interpretation updates: step_invariant "list_step L" "list_inv L c0"
  for L :: "('rt, 'm, 'r, 'db, 'x) cache_libs_scheme" and c0
  by unfold_locales (rule list_step_inv)

lemma list_inv_start: "list_inv L c0 (list_start c0)"
  by (simp add: list_inv_def list_start_def run_jobs_def jobs_of_def)

section \<open>Runs of one request\<close>

text \<open>With the lock free, a request can run up to its statements without a pause.\<close>

lemma memory_part:
  assumes "ls_phase s i = Not_Running" and "ls_lock s = None" and "needs_lock L j"
  obtains s' where "(list_step L)\<^sup>*\<^sup>* s s'"
    and "ls_phase s' = (ls_phase s)(i := Sql_Phase (statements L j))" and "ls_lock s' = None"
    and "ls_block s' = ls_block (store_copy j (changed_copy L j s) s)" and "ls_db s' = ls_db s"
    and "ls_submitted s' = (ls_submitted s)(i := ls_submitted s i @ [j])"
proof -
  let ?s1 = "set_phase i (Waiting j) (s\<lparr>ls_submitted := (ls_submitted s)(i := ls_submitted s i @ [j])\<rparr>)"
  let ?s2 = "set_phase i (Holding j) (?s1\<lparr>ls_lock := Some i\<rparr>)"
  let ?s3 = "set_phase i (Copied j (changed_copy L j ?s2)) ?s2"
  let ?s4 = "set_phase i (Stored j)
    ((store_copy j (changed_copy L j ?s2) ?s3)\<lparr>ls_history := ls_history ?s3 @ [(i, j)]\<rparr>)"
  let ?s5 = "set_phase i (Sql_Phase (statements L j)) (?s4\<lparr>ls_lock := None\<rparr>)"
  have "list_step L s ?s1" by (rule list_step.submit [OF assms(1,3)])
  moreover have "list_step L ?s1 ?s2" by (rule list_step.acquire) (simp_all add: assms(2))
  moreover have "list_step L ?s2 ?s3" by (rule list_step.copy) simp
  moreover have "list_step L ?s3 ?s4" by (rule list_step.store) simp
  moreover have "list_step L ?s4 ?s5" by (rule list_step.release) simp
  ultimately have "(list_step L)\<^sup>*\<^sup>* s ?s5"
    by (meson converse_rtranclp_into_rtranclp rtranclp.rtrancl_refl)
  moreover have "changed_copy L j ?s2 = changed_copy L j s" by (rule changed_copy_cong) simp_all
  then have "ls_block ?s5 = ls_block (store_copy j (changed_copy L j s) s)" "ls_db ?s5 = ls_db s"
    "ls_submitted ?s5 = (ls_submitted s)(i := ls_submitted s i @ [j])"
    by (cases j; simp)+
  ultimately show thesis by (intro that [of ?s5]) (simp_all add: fun_upd_twist)
qed

text \<open>A request with one statement left can run it and finish.\<close>

lemma statement_part:
  assumes "ls_phase s i = Sql_Phase [st]" and "run_statement L st (ls_db s) = (True, db)"
  obtains s' where "(list_step L)\<^sup>*\<^sup>* s s'" and "ls_phase s' = (ls_phase s)(i := Not_Running)"
    and "ls_lock s' = ls_lock s" and "ls_block s' = ls_block s" and "ls_db s' = db"
    and "ls_submitted s' = ls_submitted s"
proof -
  let ?s1 = "set_phase i (Sql_Phase []) (s\<lparr>ls_db := db\<rparr>)"
  let ?s2 = "set_phase i Not_Running ?s1"
  have "list_step L s ?s1" by (rule list_step.statement [OF assms])
  moreover have "list_step L ?s1 ?s2" by (rule list_step.finished) simp
  ultimately have "(list_step L)\<^sup>*\<^sup>* s ?s2" by (meson converse_rtranclp_into_rtranclp rtranclp.rtrancl_refl)
  then show thesis by (intro that [of ?s2]) simp_all
qed

section \<open>Patches of the configuration, step by step\<close>

datatype patch_phase =
    P_Idle
  | P_Merged runtime_config
  | P_Persisted runtime_config

record 'db patch_state =
  pt_config :: runtime_config
  pt_db :: 'db
  pt_phase :: "nat \<Rightarrow> patch_phase"

definition patch_start :: "runtime_config \<Rightarrow> 'db \<Rightarrow> 'db patch_state" where
  "patch_start cfg db = \<lparr>pt_config = cfg, pt_db = db, pt_phase = (\<lambda>_. P_Idle)\<rparr>"

inductive patch_step ::
  "('db, 'x) settings_libs_scheme \<Rightarrow> 'db patch_state \<Rightarrow> 'db patch_state \<Rightarrow> bool" for S where
  merge: "pt_phase s i = P_Idle \<Longrightarrow>
     patch_step S s (s\<lparr>pt_phase := (pt_phase s)(i := P_Merged (apply_to p (pt_config s)))\<rparr>)"
| persisted: "pt_phase s i = P_Merged cfg \<Longrightarrow> persist S cfg (pt_db s) = (Inr (), db) \<Longrightarrow>
     patch_step S s (s\<lparr>pt_db := db, pt_phase := (pt_phase s)(i := P_Persisted cfg)\<rparr>)"
| persist_failed: "pt_phase s i = P_Merged cfg \<Longrightarrow> persist S cfg (pt_db s) = (Inl e, db) \<Longrightarrow>
     patch_step S s (s\<lparr>pt_db := db, pt_phase := (pt_phase s)(i := P_Idle)\<rparr>)"
| stored: "pt_phase s i = P_Persisted cfg \<Longrightarrow>
     patch_step S s (s\<lparr>pt_config := cfg, pt_phase := (pt_phase s)(i := P_Idle)\<rparr>)"

text \<open>One patch without interruption.\<close>

lemma patch_alone:
  assumes "pt_phase s i = P_Idle" and "persist S (apply_to p (pt_config s)) (pt_db s) = (Inr (), db)"
  shows "(patch_step S)\<^sup>*\<^sup>* s (s\<lparr>pt_db := db, pt_config := apply_to p (pt_config s)\<rparr>)"
proof -
  let ?cfg = "apply_to p (pt_config s)"
  let ?s1 = "s\<lparr>pt_phase := (pt_phase s)(i := P_Merged ?cfg)\<rparr>"
  let ?s2 = "?s1\<lparr>pt_db := db, pt_phase := (pt_phase ?s1)(i := P_Persisted ?cfg)\<rparr>"
  let ?s3 = "?s2\<lparr>pt_config := ?cfg, pt_phase := (pt_phase ?s2)(i := P_Idle)\<rparr>"
  have "patch_step S s ?s1" by (rule patch_step.merge [OF assms(1)])
  moreover have "patch_step S ?s1 ?s2" by (rule patch_step.persisted) (simp_all add: assms(2))
  moreover have "patch_step S ?s2 ?s3" by (rule patch_step.stored) simp
  ultimately have "(patch_step S)\<^sup>*\<^sup>* s ?s3" by (meson converse_rtranclp_into_rtranclp rtranclp.rtrancl_refl)
  moreover have "?s3 = s\<lparr>pt_db := db, pt_config := ?cfg\<rparr>"
    using assms(1) by (simp add: fun_upd_idem)
  ultimately show ?thesis by simp
qed

text \<open>A patch interrupted before its store by a whole other patch.\<close>

lemma patch_interrupted:
  assumes "pt_phase s i = P_Idle" and "pt_phase s k = P_Idle" and "i \<noteq> k"
    and p: "persist S (apply_to p (pt_config s)) (pt_db s) = (Inr (), db)"
    and q: "persist S (apply_to q (pt_config s)) db = (Inr (), db')"
  shows "(patch_step S)\<^sup>*\<^sup>* s (s\<lparr>pt_db := db', pt_config := apply_to p (pt_config s)\<rparr>)"
proof -
  let ?cfg = "apply_to p (pt_config s)"
  let ?s1 = "s\<lparr>pt_phase := (pt_phase s)(i := P_Merged ?cfg)\<rparr>"
  let ?s2 = "?s1\<lparr>pt_db := db, pt_phase := (pt_phase ?s1)(i := P_Persisted ?cfg)\<rparr>"
  let ?s3 = "?s2\<lparr>pt_db := db', pt_config := apply_to q (pt_config ?s2)\<rparr>"
  let ?s4 = "?s3\<lparr>pt_config := ?cfg, pt_phase := (pt_phase ?s3)(i := P_Idle)\<rparr>"
  have "patch_step S s ?s1" by (rule patch_step.merge [OF assms(1)])
  moreover have "patch_step S ?s1 ?s2" by (rule patch_step.persisted) (simp_all add: p)
  moreover have "(patch_step S)\<^sup>*\<^sup>* ?s2 ?s3" by (rule patch_alone [of _ k]) (use assms(2,3) q in simp_all)
  moreover have "patch_step S ?s3 ?s4" by (rule patch_step.stored) simp
  ultimately have "(patch_step S)\<^sup>*\<^sup>* s ?s4"
    by (meson converse_rtranclp_into_rtranclp rtranclp.rtrancl_into_rtrancl)
  moreover have "?s4 = s\<lparr>pt_db := db', pt_config := ?cfg\<rparr>"
    using assms(1) by (simp add: fun_upd_idem)
  ultimately show ?thesis by simp
qed

end
