(* ===== verification/Api_Samples.thy ===== *)
theory Api_Samples
  imports Samples Api_Correct Startup Concurrency
begin

text \<open>
  One database with all the tables (lists, settings, accounts, tokens, access rows) and the
  libraries over it, with proofs of their laws: the management API and a start run on them.
\<close>

record api_db =
  ad_lists :: sample_db
  ad_settings :: "string option"
  ad_users :: "string \<Rightarrow> (i64 \<times> string) option"
  ad_tokens :: "token_row list"
  ad_access :: "access_row list"

definition on_lists :: "(sample_db, 'a) sql \<Rightarrow> (api_db, 'a) sql" where
  "on_lists stmt db = (case stmt (ad_lists db) of (r, d) \<Rightarrow> (r, db\<lparr>ad_lists := d\<rparr>))"

definition on_settings :: "(string option, 'a) sql \<Rightarrow> (api_db, 'a) sql" where
  "on_settings stmt db = (case stmt (ad_settings db) of (r, d) \<Rightarrow> (r, db\<lparr>ad_settings := d\<rparr>))"

definition api_cache_libs :: "(u16, sample_moka, unit, api_db) cache_libs" where
  "api_cache_libs = \<lparr>
     memchr_iter = memchr_iter sample_libs,
     heapless_write_str = heapless_write_str sample_libs,
     rt_from_u16 = rt_from_u16 sample_libs, rt_to_u16 = rt_to_u16 sample_libs,
     rt_display = rt_display sample_libs, rt_A = rt_A sample_libs, rt_AAAA = rt_AAAA sample_libs,
     rc_to_u16 = rc_to_u16 sample_libs, unicode_lowercase = unicode_lowercase sample_libs,
     moka_insert = sample_insert, moka_get = sample_get, moka_entry_count = (\<lambda>_. 0),
     redis_feature = False, redis_get = (\<lambda>_ _ r. (Inr None, r)), redis_setex = (\<lambda>_ _ _ _ r. r),
     sql_insert_blocked = (\<lambda>list ds. on_lists (sql_insert_blocked sample_cache_libs list ds)),
     sql_insert_allowed = (\<lambda>ds. on_lists (sql_insert_allowed sample_cache_libs ds)),
     sql_delete_blocked = (\<lambda>d. on_lists (sql_delete_blocked sample_cache_libs d)),
     sql_select_domains = (\<lambda>tbl db. sql_select_domains sample_cache_libs tbl (ad_lists db)),
     sql_page_domains = (\<lambda>tbl limit offset. on_lists (sql_page_domains sample_cache_libs tbl limit offset)),
     sql_count_domains = (\<lambda>tbl. on_lists (sql_count_domains sample_cache_libs tbl))\<rparr>"

definition api_rows :: "domain_table \<Rightarrow> api_db \<Rightarrow> domain_set" where
  "api_rows tbl db = sample_rows tbl (ad_lists db)"

lemma api_sql_law [simp]: "sql_law api_cache_libs api_rows"
proof -
  have "set xs = api_rows tbl db" if "map Inr (sample_select tbl (ad_lists db)) = map Inr xs" for tbl db xs
  proof -
    from that have "sample_select tbl (ad_lists db) = xs" by (simp add: inj_map_eq_map inj_def)
    then show ?thesis using set_sample_select by (metis api_rows_def)
  qed
  then show ?thesis
    by (auto simp: sql_law_def api_rows_def api_cache_libs_def sample_cache_libs_def on_lists_def add_rows_count)
qed

lemma api_lowercase_law [simp]: "lowercase_law api_cache_libs"
  by (simp add: lowercase_law_def api_cache_libs_def sample_libs_def ascii_lowercase_def)

lemma api_select: "sql_select_domains api_cache_libs tbl db = map Inr (sample_select tbl (ad_lists db))"
  by (simp add: api_cache_libs_def sample_cache_libs_def)

definition api_settings :: "api_db settings_libs" where
  "api_settings = \<lparr>to_json = config_text, from_json = text_config,
     create_settings = on_settings (create_settings sample_settings),
     select_config = on_settings (select_config sample_settings),
     upsert_config = (\<lambda>s. on_settings (upsert_config sample_settings s))\<rparr>"

lemma api_settings_law [simp]: "settings_law api_settings ad_settings"
  by (simp add: settings_law_def api_settings_def on_settings_def sample_settings_def text_config_text
      split: prod.splits)

text \<open>Accounts: a hash is the password behind a dollar sign, a digest the bytes of the text.\<close>

definition find_token :: "string \<Rightarrow> i64 \<Rightarrow> token_row list \<Rightarrow> i64 option" where
  "find_token h now rows = map_option fst (List.find (\<lambda>(i, h', e). h' = h \<and> unexpired e now) rows)"

definition sample_auth :: "(string, api_db) auth_libs" where
  "sample_auth = \<lparr>
     argon_hash = (\<lambda>salt pass. CHR ''$'' # pass), phc_parse = Some,
     argon_verify = (\<lambda>pass phc. phc = CHR ''$'' # pass),
     sha256 = map byte_of_char, header_str = (\<lambda>h. Some (map char_of_byte h)),
     sql_create_auth = (\<lambda>db. (Inr (), db)),
     sql_count_users = (\<lambda>db. (Inr (if ad_users db ''admin'' = None then 0 else 1), db)),
     sql_insert_user = (\<lambda>u h c db.
       (if ad_users db u = None then (Inr (), db\<lparr>ad_users := (ad_users db)(u \<mapsto> (1, h))\<rparr>)
        else (Inl ''unique'', db))),
     sql_user_by_name = (\<lambda>u db. (Inr (ad_users db u), db)),
     sql_touch_user = (\<lambda>_ _ db. (Inr (), db)),
     sql_valid_token = (\<lambda>h now db. (Inr (find_token h now (ad_tokens db)), db)),
     sql_touch_token = (\<lambda>_ _ db. (Inr (), db)),
     sql_list_users = (\<lambda>db. (Inr [], db)),
     sql_update_password = (\<lambda>h u db. (Inr (if ad_users db u = None then 0 else 1),
       db\<lparr>ad_users := (ad_users db)(u := map_option (\<lambda>(i, _). (i, h)) (ad_users db u))\<rparr>)),
     sql_delete_user = (\<lambda>u db. (Inr (if ad_users db u = None then 0 else 1),
       db\<lparr>ad_users := (ad_users db)(u := None)\<rparr>)),
     sql_insert_token = (\<lambda>m h c e db.
       (if \<exists>t \<in> set (ad_tokens db). fst (snd t) = h then (Inl ''unique'', db)
        else (Inr (), db\<lparr>ad_tokens := (of_nat (length (ad_tokens db)), h, e) # ad_tokens db\<rparr>))),
     sql_list_tokens = (\<lambda>db. (Inr [], db)),
     sql_delete_token = (\<lambda>i db. (Inr (length (filter (\<lambda>t. fst t = i) (ad_tokens db))),
       db\<lparr>ad_tokens := filter (\<lambda>t. fst t \<noteq> i) (ad_tokens db)\<rparr>))\<rparr>"

definition token_rows :: "api_db \<Rightarrow> token_row set" where
  "token_rows db = set (ad_tokens db)"

lemma find_token_Some: "find_token h now rows = Some i \<Longrightarrow> \<exists>e. (i, h, e) \<in> set rows \<and> unexpired e now"
proof (induction rows)
  case (Cons row rows)
  then show ?case by (cases row) (auto simp: find_token_def split: if_splits)
qed (simp add: find_token_def)

lemma find_token_None: "find_token h now rows = None \<Longrightarrow> (i, h, e) \<in> set rows \<Longrightarrow> \<not> unexpired e now"
  by (auto simp: find_token_def find_None_iff)

lemma sample_auth_law [simp]: "auth_law sample_auth ad_users token_rows"
proof -
  have "reads_users sample_auth ad_users token_rows" "touches sample_auth ad_users token_rows"
    by (simp_all add: reads_users_def touches_def sample_auth_def)
  moreover have "reads_tokens sample_auth ad_users token_rows"
    by (auto simp: reads_tokens_def sample_auth_def token_rows_def find_token_Some find_token_None)
  moreover have "changes_users sample_auth ad_users token_rows"
    by (auto simp: changes_users_def sample_auth_def token_rows_def)
  moreover have "changes_tokens sample_auth ad_users token_rows"
    by (force simp: changes_tokens_def sample_auth_def token_rows_def filter_empty_conv)
  ultimately show ?thesis by (simp add: auth_law_def)
qed

definition sample_api :: "(u16, sample_moka, unit, api_db, string, nat) api_libs" where
  "sample_api = \<lparr>ax_cache = api_cache_libs, ax_settings = api_settings, ax_auth = sample_auth,
     ax_encode = (\<lambda>_. Some []), ax_is_finite = (\<lambda>_. True), ax_zero = 0\<rparr>"

lemma sample_api_simps [simp]:
  "ax_cache sample_api = api_cache_libs" "ax_settings sample_api = api_settings"
  "ax_auth sample_api = sample_auth"
  by (simp_all add: sample_api_def)

definition sample_answers :: "nat clickhouse_answers" where
  "sample_answers = \<lparr>ca_total = Inr 3, ca_hit_rate = Inr 50, ca_blocked = Inr 1, ca_avg_latency = Inr 7,
     ca_last_hour = Inr 3, ca_last_24h = Inr 3, ca_domains = [], ca_codes = []\<rparr>"

definition auth_env_at :: "nat \<Rightarrow> bytes \<Rightarrow> auth_env" where
  "auth_env_at t random = \<lparr>ae_unix = of_nat t, ae_instant = t, ae_salt = [], ae_random = random\<rparr>"

definition api_env_at :: "nat \<Rightarrow> bytes \<Rightarrow> nat api_env" where
  "api_env_at t random = \<lparr>ev_auth = auth_env_at t random,
     ev_http = (\<lambda>url. Inr (''0.0.0.0 ads.example.com'')), ev_joined = True,
     ev_broker = \<lparr>br_client = False, br_metadata = None, br_committed = [], br_watermarks = (\<lambda>_. None)\<rparr>,
     ev_answers = sample_answers\<rparr>"

definition empty_db :: api_db where
  "empty_db = \<lparr>ad_lists = ([], []), ad_settings = None, ad_users = Map.empty, ad_tokens = [], ad_access = []\<rparr>"

definition admin_db :: api_db where
  "admin_db = empty_db\<lparr>ad_users := [''admin'' \<mapsto> (1, ''$admin'')], ad_settings := Some (config_text (from_cli [] 9))\<rparr>"

definition admin_state :: "(sample_moka, unit, api_db) api_state" where
  "admin_state = \<lparr>ap_cache = \<lparr>c_l1 = (\<lambda>_. None), c_allow = {}, c_block = {}, c_rds = (), c_db = admin_db\<rparr>,
     ap_stats = False, ap_metrics = None, ap_config = from_cli [] 9, ap_sessions = Map.empty\<rparr>"

definition bearer :: "string \<Rightarrow> bytes option" where
  "bearer token = Some (map byte_of_char (''Bearer '' @ token))"

lemma bearer_token_bearer [simp]: "bearer_token sample_auth (bearer token) = Some token"
  by (simp add: bearer_token_def bearer_def sample_auth_def strip_prefix_def comp_def)

end
