(* ===== verification/Management_Properties.thy ===== *)
theory Management_Properties
  imports Service_Properties Workers Loadgen Api_Samples
begin

text \<open>
  What the management API, the sessions, the requests that run at the same time, the analytics
  tasks and the start of the program promise: \<open>api/mod.rs\<close>, \<open>api/auth.rs\<close>, \<open>analytics/\<close>,
  \<open>main.rs\<close> and the locking of \<open>repo/cache.rs\<close>.
\<close>

section \<open>Access to the management API\<close>

text \<open>
  C16: from a start without sessions on, after any sequence of requests, a protected request
  is refused unless it carries a bearer token for which either a login with the right password
  for its account happened less than a day ago and gave out that token, or the table holds a
  row with the digest of that token which has not expired.
\<close>

theorem access_needs_credentials:
  assumes "auth_law (ax_auth X) users tokens" and "ap_sessions s0 = Map.empty"
    and "(api_step X)\<^sup>*\<^sup>* ([], s0) (h, s)" and "\<not> public req"
    and "router X env header req s = (resp, s')" and "resp \<noteq> Api_Error UNAUTHORIZED ''unauthorized''"
  shows "\<exists>token. bearer_token (ax_auth X) header = Some token \<and>
    (login_backed (ax_auth X) users h (ev_auth env) token \<or>
     token_backed (ax_auth X) tokens (c_db (ap_cache s)) (ev_auth env) token)"
proof -
  have "api_sessions_ok X users tokens ([], s0)"
    using assms(1,2) by (simp add: api_sessions_ok_def sessions_ok_def)
  from api.reach_inv [OF assms(3) this] have ok: "sessions_ok (ax_auth X) users tokens (h, auth_of s)"
    by (simp add: api_sessions_ok_def)
  from assms(5) show ?thesis
  proof (cases rule: router_cases)
    case (admitted s1)
    from require_auth_True [OF ok admitted(2)] show ?thesis .
  qed (use assms(4,6) in simp_all)
qed

definition admin_token :: string where "admin_token = random_token (auth_env_at 5 [0xAB])"

definition logged_in_state :: "(sample_moka, unit, api_db) api_state" where
  "logged_in_state = admin_state\<lparr>ap_sessions := [admin_token \<mapsto> 5 + session_ns]\<rparr>"

lemma sample_login:
  "router sample_api (api_env_at 5 [0xAB]) None (Post_Login ''admin'' ''admin'') admin_state =
     (Ok_Json (Login_Body admin_token (of_nat SESSION_TTL)), logged_in_state)"
proof -
  have "on_auth (login sample_auth (auth_env_at 5 [0xAB]) ''admin'' ''admin'') admin_state =
      (Some (admin_token, of_nat SESSION_TTL), logged_in_state)"
    by (simp add: on_auth_def auth_of_def put_auth_def login_def on_pool_def sample_auth_def verify_def
        admin_state_def admin_db_def logged_in_state_def admin_token_def auth_env_at_def Let_def)
  then show ?thesis by (simp add: router_def login_handler_def api_env_at_def)
qed

lemma sample_admitted:
  "on_auth (require_auth sample_auth (auth_env_at 6 []) (bearer admin_token)) logged_in_state =
     (True, logged_in_state)"
  by (simp add: on_auth_def auth_of_def put_auth_def require_auth_def validate_def logged_in_state_def
      auth_env_at_def admin_state_def session_ns_def SESSION_TTL_def)

lemma sample_get_config:
  "router sample_api (api_env_at 6 []) (bearer admin_token) Get_Config logged_in_state =
     (Ok_Json (Config_Body (from_cli [] 9)), logged_in_state)"
  using sample_admitted
  by (simp add: router_def api_env_at_def) (simp add: logged_in_state_def admin_state_def)

lemma access_needs_credentials_witness:
  "\<exists>token. bearer_token sample_auth (bearer admin_token) = Some token \<and>
     (login_backed sample_auth ad_users [(admin_db, auth_env_at 5 [0xAB], ''admin'', ''admin'')]
        (auth_env_at 6 []) token \<or> token_backed sample_auth token_rows admin_db (auth_env_at 6 []) token)"
proof -
  have "c_db (ap_cache admin_state) = admin_db" "ev_auth (api_env_at 5 [0xAB]) = auth_env_at 5 [0xAB]"
    by (simp_all add: admin_state_def api_env_at_def)
  then have "(api_step sample_api)\<^sup>*\<^sup>* ([], admin_state)
      ([(admin_db, auth_env_at 5 [0xAB], ''admin'', ''admin'')], logged_in_state)"
    using api_step.served [OF sample_login, of "[]"] by (simp add: r_into_rtranclp)
  from access_needs_credentials [OF _ _ this _ sample_get_config, of ad_users token_rows]
  show ?thesis by (simp add: admin_state_def logged_in_state_def api_env_at_def)
qed

text \<open>
  C19: a protected request that is not authorised gets 401 and changes nothing: not the lists,
  the cached answers, the configuration or the counters, no account and no token; at most it
  ends a session.
\<close>

theorem unauthorized_changes_nothing:
  assumes "auth_law (ax_auth X) users tokens" and "\<not> public req"
    and "\<not> fst (require_auth (ax_auth X) (ev_auth env) header (auth_of s))"
    and "router X env header req s = (resp, s')"
  shows "resp = Api_Error UNAUTHORIZED ''unauthorized'' \<and> ap_config s' = ap_config s \<and>
    ap_metrics s' = ap_metrics s \<and> c_block (ap_cache s') = c_block (ap_cache s) \<and>
    c_allow (ap_cache s') = c_allow (ap_cache s) \<and> c_l1 (ap_cache s') = c_l1 (ap_cache s) \<and>
    users (c_db (ap_cache s')) = users (c_db (ap_cache s)) \<and>
    tokens (c_db (ap_cache s')) = tokens (c_db (ap_cache s)) \<and> ap_sessions s' \<subseteq>\<^sub>m ap_sessions s"
  using assms(4)
proof (cases rule: router_cases)
  case refused
  from refused(2) obtain a where "s' = put_auth a s"
    by (auto simp: on_auth_def split: prod.splits)
  then have "ap_config s' = ap_config s" "ap_metrics s' = ap_metrics s"
    "c_block (ap_cache s') = c_block (ap_cache s)" "c_allow (ap_cache s') = c_allow (ap_cache s)"
    "c_l1 (ap_cache s') = c_l1 (ap_cache s)"
    by (simp_all add: put_auth_def)
  with refused_frame [OF assms(1) refused(2)] refused(3) show ?thesis by simp
next
  case (admitted s1)
  with assms(3) on_auth_run(2) [of "require_auth (ax_auth X) (ev_auth env) header" s] show ?thesis by simp
qed (use assms(2) in simp)

lemma unauthorized_changes_nothing_witness:
  "ad_users (c_db (ap_cache (snd (router sample_api (api_env_at 5 []) None (Delete_Users ''admin'') admin_state))))
     ''admin'' = Some (1, ''$admin'')"
proof -
  obtain resp s' where run: "router sample_api (api_env_at 5 []) None (Delete_Users ''admin'') admin_state = (resp, s')"
    by fastforce
  have "\<not> fst (require_auth sample_auth (ev_auth (api_env_at 5 [])) None (auth_of admin_state))"
    by (simp add: require_auth_def bearer_token_def)
  from unauthorized_changes_nothing [OF _ _ _ run, of ad_users token_rows] this run show ?thesis
    by (simp add: admin_state_def admin_db_def)
qed

section \<open>What the API reports\<close>


lemma api_normalize:
  "normalize_domains api_cache_libs [''ads.example.com'', ''nodot''] = [''ads.example.com'']"
  using normalize_domains_libs [of api_cache_libs sample_cache_libs] sample_normalize
  by (simp add: api_cache_libs_def sample_cache_libs_def)

lemma sample_bulk:
  "fst (router sample_api (api_env_at 6 []) (bearer admin_token)
      (Post_Blocklist_Bulk [''ads.example.com'', ''nodot'']) logged_in_state) =
     Ok_Json (Added_Body \<lparr>ar_added = 1, ar_skipped = 0, ar_invalid = 1\<rparr>)"
proof -
  have "add_block_domains api_cache_libs ''custom'' [''ads.example.com'', ''nodot''] (ap_cache logged_in_state) =
      (Inr \<lparr>added = 1, considered = 1\<rparr>, snd (add_block_domains api_cache_libs ''custom''
         [''ads.example.com'', ''nodot''] (ap_cache logged_in_state)))"
    by (simp add: add_block_domains_def api_normalize Let_def chunks.simps MAX_INSERT_CHUNK_def)
      (simp add: api_cache_libs_def sample_cache_libs_def on_lists_def logged_in_state_def admin_state_def
        admin_db_def empty_db_def add_rows_def)
  then obtain c where "add_block_domains api_cache_libs ''custom'' [''ads.example.com'', ''nodot'']
      (ap_cache logged_in_state) = (Inr \<lparr>added = 1, considered = 1\<rparr>, c)" by metis
  with sample_admitted show ?thesis
    by (simp add: router_def api_env_at_def block_add_bulk_def on_cache_def reply_cache_def
        added_response_def from_outcome_def checked_sub_def)
qed


text \<open>
  C20: only a patch changes the configuration. When it reports success, the configuration in
  use is the old one with the fields of the patch replaced, it is what the response shows, and
  the stored row reads back as it; when storing fails, the configuration in use stays.
\<close>

theorem configuration_changes:
  assumes law: "settings_law (ax_settings X) row" and run: "router X env header req s = (resp, s')"
  shows "(ap_config s' \<noteq> ap_config s \<longrightarrow>
      (\<exists>p. req = Patch_Config p \<and> ap_config s' = apply_to p (ap_config s) \<and>
         resp = Ok_Json (Config_Body (ap_config s')))) \<and>
    (\<forall>p b. req = Patch_Config p \<and> resp = Ok_Json b \<longrightarrow>
      b = Config_Body (ap_config s') \<and> ap_config s' = apply_to p (ap_config s) \<and>
      Option.bind (row (c_db (ap_cache s'))) (from_json (ax_settings X)) = Some (ap_config s'))"
  using run
proof (cases rule: router_cases)
  case open_route
  then have "\<And>p. req \<noteq> Patch_Config p" by auto
  moreover from route_config [OF this] open_route have "ap_config s' = ap_config s" by (metis snd_conv)
  ultimately show ?thesis by blast
next
  case refused
  with on_auth_run(4) [of "require_auth (ax_auth X) (ev_auth env) header" s]
  have "ap_config s' = ap_config s" by simp
  with refused(3) show ?thesis by simp
next
  case (admitted s1)
  with on_auth_run(4) [of "require_auth (ax_auth X) (ev_auth env) header" s]
  have same: "ap_config s1 = ap_config s" by simp
  show ?thesis
  proof (cases "\<exists>p. req = Patch_Config p")
    case False
    with route_config [of req X env s1] admitted(3) same show ?thesis by auto
  next
    case True
    then obtain p where p: "req = Patch_Config p" by blast
    with admitted(3) have "patch_config X p s1 = (resp, s')" by simp
    then show ?thesis
    proof (cases rule: patch_config_cases)
      case (failed e db)
      with same p show ?thesis by simp
    next
      case (stored db)
      from stored(1) have "upsert_config (ax_settings X) (to_json (ax_settings X) (apply_to p (ap_config s1)))
          (c_db (ap_cache s1)) = (Inr (), db)" by (simp only: persist_def)
      from settings_lawD(5) [OF law this]
      have "Option.bind (row db) (from_json (ax_settings X)) = Some (apply_to p (ap_config s1))"
        by (simp add: settings_lawD(1) [OF law])
      moreover have "c_db (ap_cache s') = db" "ap_config s' = apply_to p (ap_config s1)"
        by (simp_all add: stored(3))
      ultimately show ?thesis using stored(2) p by (simp add: same)
    qed
  qed
qed

lemma sample_patch:
  "router sample_api (api_env_at 6 []) (bearer admin_token)
     (Patch_Config (empty_patch\<lparr>p_neg_ttl := Some 5\<rparr>)) logged_in_state =
   (Ok_Json (Config_Body (apply_to (empty_patch\<lparr>p_neg_ttl := Some 5\<rparr>) (from_cli [] 9))),
    snd (patch_config sample_api (empty_patch\<lparr>p_neg_ttl := Some 5\<rparr>) logged_in_state))"
proof -
  have "fst (patch_config sample_api (empty_patch\<lparr>p_neg_ttl := Some 5\<rparr>) logged_in_state) =
      Ok_Json (Config_Body (apply_to (empty_patch\<lparr>p_neg_ttl := Some 5\<rparr>) (from_cli [] 9)))"
    by (simp add: patch_config_def Let_def persist_def api_settings_def on_settings_def sample_settings_def)
      (simp add: logged_in_state_def admin_state_def)
  then obtain s' where "patch_config sample_api (empty_patch\<lparr>p_neg_ttl := Some 5\<rparr>) logged_in_state =
      (Ok_Json (Config_Body (apply_to (empty_patch\<lparr>p_neg_ttl := Some 5\<rparr>) (from_cli [] 9))), s')"
    by (metis prod.collapse)
  with sample_admitted show ?thesis by (simp add: router_def api_env_at_def)
qed

lemma configuration_changes_witness:
  "ap_config (snd (patch_config sample_api (empty_patch\<lparr>p_neg_ttl := Some 5\<rparr>) logged_in_state)) =
     apply_to (empty_patch\<lparr>p_neg_ttl := Some 5\<rparr>) (from_cli [] 9)"
proof -
  have law: "settings_law (ax_settings sample_api) ad_settings" by simp
  have "ap_config logged_in_state = from_cli [] 9" by (simp add: logged_in_state_def admin_state_def)
  with configuration_changes [OF law sample_patch] show ?thesis by metis
qed

section \<open>Requests that run at the same time\<close>

text \<open>
  C17: whatever the interleaving of the requests that add and remove domains, the lists in memory
  are at every moment those of the stored requests run one after the other on the cache, each
  request is stored once, in the order its task was given them, and no two are between taking
  and dropping the lock: no update is lost.
\<close>

theorem updates_linearizable:
  assumes "(list_step L)\<^sup>*\<^sup>* (list_start c) s"
  shows "ls_block s = c_block (run_jobs L (map snd (ls_history s)) c) \<and>
    ls_allow s = c_allow (run_jobs L (map snd (ls_history s)) c) \<and>
    jobs_of i (ls_history s) @ not_yet_stored (ls_phase s i) = ls_submitted s i \<and>
    (in_section (ls_phase s i) \<and> in_section (ls_phase s k) \<longrightarrow> i = k)"
proof -
  from updates.reach_inv [OF assms list_inv_start] have inv: "list_inv L c s" .
  have "i = k" if "in_section (ls_phase s i)" and "in_section (ls_phase s k)"
  proof -
    from inv have "\<forall>j. in_section (ls_phase s j) \<longrightarrow> ls_lock s = Some j" unfolding list_inv_def by blast
    with that have "Some i = Some k" by (metis (no_types))
    then show ?thesis by simp
  qed
  with inv show ?thesis unfolding list_inv_def by blast
qed

lemma updates_linearizable_witness:
  "\<exists>s :: sample_db list_state. ls_submitted s 7 = [Remove_Block ''a.b''] \<and>
     ls_block s = c_block (run_jobs sample_cache_libs (map snd (ls_history s)) sample_cache)"
proof -
  obtain s where "(list_step sample_cache_libs)\<^sup>*\<^sup>* (list_start sample_cache) s"
    and "ls_submitted s = (ls_submitted (list_start sample_cache))(7 := ls_submitted (list_start sample_cache) 7
      @ [Remove_Block ''a.b''])"
    by (rule memory_part [where s = "list_start sample_cache" and i = 7 and L = sample_cache_libs
          and j = "Remove_Block ''a.b''"]) (simp_all add: list_start_def)
  then have "ls_submitted s 7 = [Remove_Block ''a.b'']" by (simp add: list_start_def)
  with updates_linearizable [where i = 7 and k = 7, OF \<open>(list_step sample_cache_libs)\<^sup>*\<^sup>* (list_start sample_cache) s\<close>]
  show ?thesis by blast
qed

text \<open>
  C27: the lock covers memory but not the statements, so two requests for the same domain may
  reach memory in one order and the table in the other. With every statement successful and
  both requests finished, the domain can be blocked in memory and not in the table, so that the
  next start forgets it.
\<close>

theorem interleaved_updates_diverge:
  assumes law: "sql_law L rows" and norm: "normalize_domains L [d] = [d]" and low: "to_lowercase L d = d"
    and ins: "\<And>db. \<exists>n db'. sql_insert_blocked L list [d] db = (Inr n, db')"
    and del: "\<And>db. \<exists>db'. sql_delete_blocked L d db = (Inr (), db')"
  shows "\<exists>s. (list_step L)\<^sup>*\<^sup>* (list_start c) s \<and> (\<forall>i. ls_phase s i = Not_Running) \<and>
    ls_submitted s 0 = [Remove_Block d] \<and> ls_submitted s 1 = [Add_Block list [d]] \<and>
    d \<in> ls_block s \<and> d \<notin> rows Blocked_Table (ls_db s)"
proof -
  let ?s0 = "list_start c"
  obtain s1 where s1: "(list_step L)\<^sup>*\<^sup>* ?s0 s1"
      "ls_phase s1 = (ls_phase ?s0)(0 := Sql_Phase (statements L (Remove_Block d)))" "ls_lock s1 = None"
      "ls_db s1 = ls_db ?s0" "ls_submitted s1 = (ls_submitted ?s0)(0 := ls_submitted ?s0 0 @ [Remove_Block d])"
    by (rule memory_part [where s = ?s0 and i = 0 and L = L and j = "Remove_Block d"])
      (simp_all add: list_start_def)
  obtain s2 where s2: "(list_step L)\<^sup>*\<^sup>* s1 s2"
      "ls_phase s2 = (ls_phase s1)(1 := Sql_Phase (statements L (Add_Block list [d])))" "ls_lock s2 = None"
      "ls_block s2 = ls_block (store_copy (Add_Block list [d]) (changed_copy L (Add_Block list [d]) s1) s1)"
      "ls_submitted s2 = (ls_submitted s1)(1 := ls_submitted s1 1 @ [Add_Block list [d]])"
    by (rule memory_part [where s = s1 and i = 1 and L = L and j = "Add_Block list [d]"])
      (simp_all add: s1 list_start_def norm)
  have "chunks MAX_INSERT_CHUNK [d] = [[d]]" by (simp add: chunks.simps MAX_INSERT_CHUNK_def)
  then have one: "ls_phase s2 1 = Sql_Phase [Insert_Blocked list [d]]" by (simp add: s2(2) norm)
  obtain n db1 where "sql_insert_blocked L list [d] (ls_db s2) = (Inr n, db1)" using ins by blast
  then have "run_statement L (Insert_Blocked list [d]) (ls_db s2) = (True, db1)" by simp
  then obtain s3 where s3: "(list_step L)\<^sup>*\<^sup>* s2 s3" "ls_phase s3 = (ls_phase s2)(1 := Not_Running)"
      "ls_block s3 = ls_block s2" "ls_submitted s3 = ls_submitted s2"
    by (rule statement_part [OF one])
  have zero: "ls_phase s3 0 = Sql_Phase [Delete_Blocked d]" by (simp add: s3(2) s2(2) s1(2) low)
  obtain db2 where db2: "sql_delete_blocked L d (ls_db s3) = (Inr (), db2)" using del by blast
  then have "run_statement L (Delete_Blocked d) (ls_db s3) = (True, db2)" by simp
  then obtain s4 where s4: "(list_step L)\<^sup>*\<^sup>* s3 s4" "ls_phase s4 = (ls_phase s3)(0 := Not_Running)"
      "ls_block s4 = ls_block s3" "ls_db s4 = db2" "ls_submitted s4 = ls_submitted s3"
    by (rule statement_part [OF zero])
  have "(list_step L)\<^sup>*\<^sup>* ?s0 s4" using s1(1) s2(1) s3(1) s4(1) by (meson rtranclp_trans)
  moreover have "ls_phase s4 i = Not_Running" for i
    by (simp add: s4(2) s3(2) s2(2) s1(2) list_start_def)
  moreover have "ls_submitted s4 0 = [Remove_Block d]" "ls_submitted s4 1 = [Add_Block list [d]]"
    by (simp_all add: s4(5) s3(4) s2(5) s1(5) list_start_def)
  moreover have "d \<in> ls_block s4" by (simp add: s4(3) s3(3) s2(4) norm cow_insert_def)
  moreover have "d \<notin> rows Blocked_Table (ls_db s4)" using sql_lawD(3) [OF law db2] by (simp add: s4(4))
  ultimately show ?thesis by blast
qed

lemma sample_normal_name:
  "normalize_domains sample_cache_libs [''ads.example.com''] = [''ads.example.com'']"
  "to_lowercase sample_cache_libs ''ads.example.com'' = ''ads.example.com''"
proof -
  show low: "to_lowercase sample_cache_libs ''ads.example.com'' = ''ads.example.com''"
    by (rule to_lowercase_fixed, code_simp)
  have t: "trim_end_dots (trim ''ads.example.com'') = ''ads.example.com''" "is_valid_domain ''ads.example.com''"
    by code_simp+
  show "normalize_domains sample_cache_libs [''ads.example.com''] = [''ads.example.com'']"
    by (simp only: normalize_domains_def list.map filter.simps t low if_True)
qed

lemma interleaved_updates_diverge_witness:
  "\<exists>s :: sample_db list_state. ''ads.example.com'' \<in> ls_block s \<and> ''ads.example.com'' \<notin> set (fst (ls_db s))"
proof -
  have ins: "\<exists>n db'. sql_insert_blocked sample_cache_libs list [d] db = (Inr n, db')"
    and del: "\<exists>db'. sql_delete_blocked sample_cache_libs d db = (Inr (), db')" for list d db
    by (simp_all add: sample_cache_libs_def)
  from interleaved_updates_diverge [where c = sample_cache and list = "''main''",
      OF sample_sql_law sample_normal_name ins del]
  show ?thesis by auto
qed

section \<open>The pinned workers with their cold path\<close>

text \<open>
  C13: over any interleaving of receptions, cold requests and replies, a pinned worker sends only
  to addresses that the access list does not deny, each reply with the transaction id of a
  datagram from there and of at most 4096 octets, and never more replies to an address than it
  sent datagrams, counting those still on their way.
\<close>

theorem pinned_replies_answer_datagrams:
  assumes "server_inv L view w" and "(worker_step L Q N acl)\<^sup>*\<^sup>* (workers_start w) s"
  shows "(\<forall>r \<in> set (wk_sent s). length (snd r) \<le> RECV_BUF \<and>
      acl_decide N acl (socket_ip (fst r)) \<noteq> Deny \<and>
      (\<exists>data. (fst r, data) \<in> set (wk_received s) \<and> txid_matches data (snd r))) \<and>
    sources (wk_sent s) + sources (wk_replied s) + sources (wk_running s) + sources (wk_cold s)
      \<subseteq># sources (wk_received s) \<and> server_inv L view (wk_world s)"
  using datapath.reach_inv [OF assms(2) workers_ok_start [OF assms(1)]]
  by (auto simp: workers_ok_def sent_ok_def reply_ok_def)

lemma pinned_replies_answer_datagrams_witness:
  "\<exists>s :: (u16, (sample_moka, unit, sample_db, nat \<times> nat list) world) workers.
     wk_received s = [(outside, sample_packet), (inside, sample_packet)] \<and>
     sources (wk_sent s) + sources (wk_replied s) + sources (wk_running s) + sources (wk_cold s)
       \<subseteq># {#outside, inside#}"
proof -
  let ?step = "worker_step sample_cache_libs sample_queue sample_acl_libs sample_acl"
  let ?get = "worker_receive sample_cache_libs sample_acl_libs sample_acl sample_config sample_request True"
  define s0 :: "(u16, (sample_moka, unit, sample_db, nat \<times> nat list) world) workers"
    where "s0 = workers_start sample_world"
  define s1 where "s1 = ?get outside sample_packet s0"
  define s2 where "s2 = ?get inside sample_packet s1"
  have received: "wk_received (?get src p t) = wk_received t @ [(src, p)]"
    for src p and t :: "(u16, (sample_moka, unit, sample_db, nat \<times> nat list) world) workers"
    by (simp add: worker_receive_def send_if_def Let_def split: action.split option.split prod.split outcome.split)
  have "?step s0 s1" "?step s1 s2"
    unfolding s1_def s2_def by (rule worker_step.receive)+
  then have run: "?step\<^sup>*\<^sup>* (workers_start sample_world) s2"
    unfolding s0_def by (rule rtranclp.rtrancl_into_rtrancl [OF r_into_rtranclp])
  from pinned_replies_answer_datagrams [OF sample_server_inv run]
  have "sources (wk_sent s2) + sources (wk_replied s2) + sources (wk_running s2) + sources (wk_cold s2)
      \<subseteq># sources (wk_received s2)" by blast
  moreover have "wk_received s2 = [(outside, sample_packet), (inside, sample_packet)]"
    by (simp add: s0_def s1_def s2_def received workers_start_def)
  ultimately show ?thesis by (intro exI [of _ s2]) simp
qed

section \<open>Analytics\<close>

text \<open>
  C21: over any interleaving of queries that send events and the task that drains them, the
  events processed and waiting are a subsequence of those sent, in their order; at most 10000
  wait; none is lost before that many have been sent; and the three counters sum to the number
  of events processed, one latency for each.
\<close>

theorem events_conserved:
  assumes "m \<in> {None, Some metrics_new}"
    and "(producer_step payload_of)\<^sup>*\<^sup>* (channel_start (producer_spawn feature m brokers)) s"
  shows "subseq (cs_processed s @ pr_queue (cs_producer s)) (cs_submitted s) \<and>
    length (pr_queue (cs_producer s)) \<le> CHANNEL_CAPACITY \<and>
    (pr_open (cs_producer s) \<and> length (cs_submitted s) \<le> CHANNEL_CAPACITY \<longrightarrow>
       cs_processed s @ pr_queue (cs_producer s) = cs_submitted s) \<and>
    (\<forall>m'. pr_metrics (cs_producer s) = Some m' \<longrightarrow>
       mt_blocked m' + mt_hit m' + mt_miss m' = length (cs_processed s) \<and>
       mt_latencies m' = map ev_latency_us (cs_processed s))"
proof -
  from events.reach_inv [OF assms(2) channel_ok_start [OF assms(1)]] have ok: "channel_ok payload_of s" .
  then have "count_ok m' (cs_processed s)" if "pr_metrics (cs_producer s) = Some m'" for m'
    using that by (simp add: channel_ok_def)
  then have "\<forall>m'. pr_metrics (cs_producer s) = Some m' \<longrightarrow>
      mt_blocked m' + mt_hit m' + mt_miss m' = length (cs_processed s) \<and>
      mt_latencies m' = map ev_latency_us (cs_processed s)"
    using count_ok_total by (metis count_ok_def)
  with ok show ?thesis by (simp add: channel_ok_def)
qed

definition blocked_event :: dns_query_event where
  "blocked_event = \<lparr>ev_timestamp_ms = 1, ev_domain = ''a.b'', ev_query_type = 1, ev_response_code = 3,
     ev_cache_hit = False, ev_blocked = True, ev_latency_us = 40\<rparr>"

lemma events_conserved_witness:
  "\<exists>s :: channel_state. cs_submitted s = [blocked_event] \<and> cs_processed s @ pr_queue (cs_producer s) = [blocked_event]"
proof -
  define s0 where "s0 = channel_start (producer_spawn False (Some metrics_new) None)"
  define s1 where "s1 = s0\<lparr>cs_producer := send blocked_event (cs_producer s0), cs_submitted := cs_submitted s0 @ [blocked_event]\<rparr>"
  have sub: "cs_submitted s1 = [blocked_event]" and opened: "pr_open (cs_producer s1)"
    by (simp_all add: s1_def s0_def channel_start_def producer_spawn_def send_def)
  have "(producer_step (\<lambda>_. None))\<^sup>*\<^sup>* (channel_start (producer_spawn False (Some metrics_new) None)) s1"
    unfolding s1_def s0_def by (rule r_into_rtranclp) (rule producer_step.submit)
  from events_conserved [OF _ this] sub opened
  have "cs_processed s1 @ pr_queue (cs_producer s1) = [blocked_event]"
    by (simp add: CHANNEL_CAPACITY_def)
  with sub show ?thesis by blast
qed


definition sample_analytics :: "u16 analytics_libs" where
  "sample_analytics = \<lparr>
     memchr_iter = memchr_iter sample_libs,
     heapless_write_str = heapless_write_str sample_libs,
     rt_from_u16 = rt_from_u16 sample_libs, rt_to_u16 = rt_to_u16 sample_libs,
     rt_display = rt_display sample_libs, rt_A = rt_A sample_libs, rt_AAAA = rt_AAAA sample_libs,
     rc_to_u16 = rc_to_u16 sample_libs, unicode_lowercase = unicode_lowercase sample_libs,
     rc_from_display = (\<lambda>high low. if low = 3 then ''NXDomain'' else ''Other''),
     event_from_json = (\<lambda>p. if p = [1] then Some blocked_event else None)\<rparr>"


text \<open>
  C26: the consumer starts work exactly when some attempt to create its table succeeds. It has
  then waited once after every failed attempt before: 1, 2, 4, 8 and 16 seconds, and 30 seconds
  each time from the sixth wait on.
\<close>

theorem table_created_eventually:
  "ensure_table_waits created =
     (if \<exists>n. created n then Some (map (\<lambda>i. min (2 ^ i) 30) [0..<(LEAST n. created n)]) else None)"
  by (simp add: ensure_table_waits_eq table_wait_def [abs_def])

section \<open>The start of the program\<close>




definition sample_boot_env :: "(sample_moka, unit, api_db, nat) boot_env" where
  "sample_boot_env = \<lparr>be_ensure_tables = (\<lambda>db. (Inr (), db)), be_moka_new = (\<lambda>_ _. None),
     be_analytics_feature = False, be_redis = Inr (), be_binds = [Inr 7, Inr 8],
     be_auth = auth_env_at 5 []\<rparr>"

definition api_acl_libs :: "(sample_net, api_db) acl_libs" where
  "api_acl_libs = \<lparr>net_contains = sample_contains, net_parse = sample_net_parse,
     sql_create_access = (\<lambda>db. (Inr (), db)), sql_select_access = (\<lambda>db. (Inr (ad_access db), db))\<rparr>"

lemma sample_boot:
  "\<exists>st db'. boot sample_api api_acl_libs sample_queue sample_boot_env default_cli empty_db = (Inr st, db') \<and>
     ap_config (st_api st) = from_cli [SocketV4 0x09090909 53, SocketV4 0x01010101 53] 5000"
  by (simp add: boot_def and_then_def expect_def sample_boot_env_def load_def fetch_def api_acl_libs_def
      load_or_init_def api_settings_def on_settings_def sample_settings_def empty_db_def persist_def
      auth_new_def sample_auth_def cache_new_def read_allowlist_db_memory_def read_blocklist_db_memory_def
      Let_def default_cli_def)


section \<open>The load generator\<close>

text \<open>
  C39: the load test ends exactly when every worker that got its socket sees the clock reach the
  deadline. Its totals are then the attempts all workers made before that: those that were sent
  and answered in time are completed, all others are errors, and none is counted twice.
\<close>

theorem load_test_counts:
  assumes "new_hist L = Some h"
  shows "(load_main L deadline es = None \<longleftrightarrow> (\<exists>e \<in> set es. \<not> load_ends deadline e)) \<and>
    (\<forall>r. load_main L deadline es = Some r \<longrightarrow>
       (\<exists>st. r = Inr st \<and> counted st (concat (map (load_tried deadline) es)) \<and>
          ld_completed st + ld_errors st = of_nat (\<Sum>e \<leftarrow> es. length (load_tried deadline e))))"
proof (cases "\<forall>e \<in> set es. load_ends deadline e")
  case True
  with load_main_result [OF assms, of es deadline] obtain st where
    st: "load_main L deadline es = Some (Inr st)" "counted st (concat (map (load_tried deadline) es))" by auto
  from counted_all [OF st(2)] have "ld_completed st + ld_errors st = of_nat (\<Sum>e \<leftarrow> es. length (load_tried deadline e))"
    by (simp add: length_concat comp_def)
  with st True show ?thesis by simp
next
  case False
  with load_main_result [OF assms, of es deadline] show ?thesis by auto
qed

definition list_hist :: "u64 list hist_libs" where
  "list_hist = \<lparr>hist_with_bounds = (\<lambda>low high digits. Some []),
     hist_record = (\<lambda>h us. if us \<le> 10000000 then Some (h @ [us]) else None),
     hist_add = (\<lambda>h h'. Some (h @ h'))\<rparr>"

definition sample_attempts :: "nat \<Rightarrow> attempt" where
  "sample_attempts i = \<lparr>at_now = 4 * i, at_sent = (i \<noteq> 1), at_answered = True, at_elapsed_us = 90\<rparr>"

lemma load_test_counts_witness:
  "\<exists>st. load_main list_hist 10 [\<lparr>le_bound = True, le_connected = True, le_net = sample_attempts\<rparr>,
      \<lparr>le_bound = False, le_connected = True, le_net = sample_attempts\<rparr>] = Some (Inr st) \<and>
    ld_completed st = 2 \<and> ld_errors st = 1"
proof -
  let ?e = "\<lparr>le_bound = True, le_connected = True, le_net = sample_attempts\<rparr>"
  let ?e' = "\<lparr>le_bound = False, le_connected = True, le_net = sample_attempts\<rparr>"
  have hist: "new_hist list_hist = Some []" by (simp add: new_hist_def list_hist_def)
  have now: "at_now (sample_attempts i) = 4 * i" for i by (simp add: sample_attempts_def)
  have "\<exists>i. (10 :: nat) \<le> 4 * i" by (intro exI [of _ 3]) simp
  then have ends: "load_ends 10 e" if "e \<in> set [?e, ?e']" for e
    using that by (auto simp: load_ends_def now)
  have "(LEAST i. (10 :: nat) \<le> 4 * i) = 3" by (rule Least_equality) simp_all
  then have tried: "load_tried 10 ?e = map sample_attempts [0, 1, 2]" "load_tried 10 ?e' = []"
    by (simp_all add: load_tried_def now upt_rec numeral_2_eq_2)
  note run = load_test_counts [OF hist, of 10 "[?e, ?e']"]
  from run [THEN conjunct1] ends obtain r where r: "load_main list_hist 10 [?e, ?e'] = Some r"
    by (cases "load_main list_hist 10 [?e, ?e']") auto
  from run [THEN conjunct2, rule_format, OF r] obtain st where
    st: "r = Inr st" "counted st (map sample_attempts [0, 1, 2])" by (auto simp: tried)
  from st(2) have "ld_completed st = 2" "ld_errors st = 1"
    by (simp_all add: counted_def attempt_ok_def sample_attempts_def)
  with r st(1) show ?thesis by blast
qed

end
