(* ===== verification/Handler_Steps.thy ===== *)
theory Handler_Steps
  imports Handler_Correct
begin

text \<open>
  \<open>handle_parsed\<close> of \<open>handler/query.rs\<close> cut where it waits for an upstream server. Before the
  cut a query is answered from the lists or the caches, or is found to be a miss; after it the
  answer of the servers is stored and returned. The configuration may have been replaced in
  between, so each part takes the one that is loaded there.
\<close>

section \<open>The two parts\<close>

definition lookup_phase ::
  "('rt, 'm, 'r, 'db, 'x) cache_libs_scheme \<Rightarrow> runtime_config \<Rightarrow> 'sock request \<Rightarrow> 'rt query \<Rightarrow>
     ('m, 'r, 'db, 'q) world \<Rightarrow> (handler_error + served) option \<times> ('m, 'r, 'db, 'q) world" where
  "lookup_phase L cfg rq q w =
     (case check_and_get L (rq_lookup rq) q (w_cache w) of
        (Inl e, c) \<Rightarrow> (Some (Inl (H_Cache e)), w\<lparr>w_cache := c\<rparr>)
      | (Inr (True, _), c) \<Rightarrow>
          (let response = blocked L q (blocking_mode cfg) in
           (Some (Inr \<lparr>sv_raw = resp_raw response,
              sv_response_code = rc_to_u16 L (resp_code response),
              sv_cache_hit = False, sv_blocked = True,
              sv_latency_us = rq_latency_us rq\<rparr>), w\<lparr>w_cache := c\<rparr>))
      | (Inr (False, Some hit), c) \<Rightarrow>
          (let c' = (case cache_ttl cfg hit (q_answer_offset q) of
                       Some ttl \<Rightarrow> add_dns_query_moka L (rq_store rq) q hit ttl c
                     | None \<Rightarrow> c);
               response = cached q hit in
           (Some (Inr \<lparr>sv_raw = resp_raw response,
              sv_response_code = rc_to_u16 L (resp_code response),
              sv_cache_hit = True, sv_blocked = False,
              sv_latency_us = rq_latency_us rq\<rparr>), w\<lparr>w_cache := c'\<rparr>))
      | (Inr (False, None), c) \<Rightarrow> (None, w\<lparr>w_cache := c\<rparr>))"

text \<open>\<open>asked\<close> is the configuration whose servers are asked, \<open>now\<close> the one when they have answered.\<close>

definition upstream_phase ::
  "('rt, 'm, 'r, 'db, 'x) cache_libs_scheme \<Rightarrow> ('sock, 'q) queue_libs \<Rightarrow> runtime_config \<Rightarrow>
     runtime_config \<Rightarrow> 'sock request \<Rightarrow> 'rt query \<Rightarrow> ('m, 'r, 'db, 'q) world \<Rightarrow>
     (handler_error + served) \<times> ('m, 'r, 'db, 'q) world" where
  "upstream_phase L Q asked now rq q w =
     (case resolve Q asked q (rq_net rq) (w_sockets w) of
        (Inl e, s) \<Rightarrow> (Inl (H_Upstream e), w\<lparr>w_sockets := s\<rparr>)
      | (Inr res, s) \<Rightarrow>
          (let c' = (case cache_ttl now (resp_raw res) (q_answer_offset q) of
                       Some ttl \<Rightarrow>
                         (let c1 = add_dns_query_moka L (rq_store rq) q (resp_raw res) ttl (w_cache w) in
                          if redis_feature L
                          then add_dns_query_redis L (rq_store rq) q (resp_raw res) ttl c1
                          else c1)
                     | None \<Rightarrow> w_cache w) in
           (Inr \<lparr>sv_raw = resp_raw res, sv_response_code = rc_to_u16 L (resp_code res),
              sv_cache_hit = False, sv_blocked = False, sv_latency_us = rq_latency_us rq\<rparr>,
            w\<lparr>w_cache := c', w_sockets := s\<rparr>)))"

text \<open>Without anything in between the two parts are the handler.\<close>

lemma serve_phases:
  "serve L Q cfg rq q w =
     (case lookup_phase L cfg rq q w of
        (Some r, w1) \<Rightarrow> (r, w1)
      | (None, w1) \<Rightarrow> upstream_phase L Q cfg cfg rq q w1)"
  by (simp add: serve_def lookup_phase_def upstream_phase_def Let_def
      split: prod.split sum.split bool.split option.split)

section \<open>What each part keeps and promises\<close>

definition good_served ::
  "('rt, 'x) dns_libs_scheme \<Rightarrow> 'rt query \<Rightarrow> served \<Rightarrow> bool" where
  "good_served L q sv \<longleftrightarrow> txid_matches (q_raw q) (sv_raw sv) \<and> length (sv_raw sv) \<le> RECV_BUF \<and>
     sv_response_code sv = rc_to_u16 L (rcode_from_raw (sv_raw sv))"

lemma lookup_phase_events [simp]:
  "lookup_phase L cfg rq q w = (r, w') \<Longrightarrow> w_events w' = w_events w \<and> w_sockets w' = w_sockets w"
  by (auto simp: lookup_phase_def Let_def split: prod.splits sum.splits bool.splits option.splits)

lemma upstream_phase_events [simp]:
  "upstream_phase L Q asked now rq q w = (r, w') \<Longrightarrow> w_events w' = w_events w"
  by (auto simp: upstream_phase_def Let_def split: prod.splits sum.splits)

text \<open>Neither part touches the lists, the tables or the sets they are kept in.\<close>

definition same_lists :: "('m, 'r, 'db) cache \<Rightarrow> ('m, 'r, 'db) cache \<Rightarrow> bool" where
  "same_lists c c' \<longleftrightarrow> c_block c' = c_block c \<and> c_allow c' = c_allow c \<and> c_db c' = c_db c"

lemma same_lists_refl [simp]: "same_lists c c"
  by (simp add: same_lists_def)

lemma check_and_get_lists: "check_and_get L now q c = (r, c') \<Longrightarrow> same_lists c c'"
  by (auto simp: check_and_get_def same_lists_def split: if_splits prod.splits option.splits sum.splits)

lemma l1_get_lists: "l1_get L now q c = (r, c') \<Longrightarrow> same_lists c c'"
  by (auto simp: l1_get_def same_lists_def split: prod.splits)

lemma add_dns_query_lists [simp]:
  "same_lists c (add_dns_query_moka L now q raw ttl c') \<longleftrightarrow> same_lists c c'"
  "same_lists c (add_dns_query_redis L now q raw ttl c') \<longleftrightarrow> same_lists c c'"
  by (simp_all add: same_lists_def add_dns_query_moka_def add_dns_query_redis_def)

lemma lookup_phase_lists: "lookup_phase L cfg rq q w = (r, w') \<Longrightarrow> same_lists (w_cache w) (w_cache w')"
  by (auto simp: lookup_phase_def Let_def dest: check_and_get_lists
      split: prod.splits sum.splits bool.splits option.splits)

lemma upstream_phase_lists:
  "upstream_phase L Q asked now rq q w = (r, w') \<Longrightarrow> same_lists (w_cache w) (w_cache w')"
  by (auto simp: upstream_phase_def Let_def split: prod.splits sum.splits option.splits)

text \<open>A blocked name is answered by the first part, and with the blocking reply.\<close>

lemma lookup_phase_blocked:
  assumes "is_blocked L (w_cache w) (q_name q)"
  shows "\<exists>sv. lookup_phase L cfg rq q w = (Some (Inr sv), w) \<and>
    sv_raw sv = resp_raw (blocked L q (blocking_mode cfg))"
proof -
  have "check_and_get L (rq_lookup rq) q (w_cache w) = (Inr (True, None), w_cache w)"
    using assms by (simp add: check_and_get_blocked)
  then show ?thesis by (simp add: lookup_phase_def Let_def)
qed

lemma lookup_phase_good:
  fixes w :: "('m, 'r, 'db, 'q) world" and rq :: "'sock request"
  assumes q: "query_ok q" and inv: "server_inv L view w"
    and run: "lookup_phase L cfg rq q w = (Some (Inr sv), w')"
  shows "server_inv L view w'" and "good_served L q sv"
proof -
  have "serve L (undefined :: ('sock, 'q) queue_libs) cfg rq q w = (Inr sv, w')"
    by (simp add: serve_phases run)
  from serve_inv [OF q inv this] show "server_inv L view w'" "good_served L q sv"
    by (simp_all add: good_served_def)
qed

lemma lookup_phase_miss:
  assumes inv: "server_inv L view w" and run: "lookup_phase L cfg rq q w = (None, w')"
  shows "server_inv L view w'"
proof -
  from inv have law: "moka_law L view" and nr: "\<not> redis_feature L"
    and ok: "packets_ok view (c_l1 (w_cache w))" by (simp_all add: server_inv_def)
  from run obtain c where cg: "check_and_get L (rq_lookup rq) q (w_cache w) = (Inr (False, None), c)"
    and w': "w' = w\<lparr>w_cache := c\<rparr>"
    by (auto simp: lookup_phase_def Let_def split: prod.splits sum.splits bool.splits option.splits)
  from check_and_get_no_redis [OF nr cg] obtain e m where
    get: "moka_get L ttl_expiry (rq_lookup rq) (query_key L q) (c_l1 (w_cache w)) = (e, m)"
    and c: "c = (w_cache w)\<lparr>c_l1 := m\<rparr>" by metis
  from packets_ok_get(1) [OF law ok get] law nr show ?thesis by (simp add: w' c server_inv_def)
qed

lemma lookup_phase_no_error:
  assumes "server_inv L view w"
  shows "lookup_phase L cfg rq q w \<noteq> (Some (Inl e), w')"
  using assms check_and_get_no_error [of L "rq_lookup rq" q "w_cache w"]
  by (auto simp: lookup_phase_def server_inv_def Let_def split: prod.splits sum.splits bool.splits option.splits)

lemma upstream_phase_good:
  assumes q: "query_ok q" and inv: "server_inv L view w"
    and run: "upstream_phase L Q asked now rq q w = (r, w')"
  shows "server_inv L view w'" and "r = Inr sv \<Longrightarrow> good_served L q sv"
proof -
  from inv have law: "moka_law L view" and nr: "\<not> redis_feature L"
    and ok: "packets_ok view (c_l1 (w_cache w))" by (simp_all add: server_inv_def)
  obtain res s where asked: "resolve Q asked q (rq_net rq) (w_sockets w) = (res, s)" by fastforce
  have "server_inv L view w' \<and> (\<forall>sv. r = Inr sv \<longrightarrow> good_served L q sv)"
  proof (cases res)
    case (Inl e)
    with asked run inv show ?thesis by (auto simp: upstream_phase_def server_inv_def)
  next
    case (Inr answer)
    have good: "good_reply q answer" by (rule resolve_good(1) [OF q asked [unfolded Inr]])
    have "packets_ok view (c_l1 (w_cache w'))"
      using run asked Inr ok good nr cache_ttl_length [of now "resp_raw answer" "q_answer_offset q"]
      by (auto simp: upstream_phase_def add_dns_query_moka_def good_reply_def Let_def
          intro!: packets_ok_insert [OF law] split: option.splits)
    with run asked Inr law nr good show ?thesis
      by (auto simp: upstream_phase_def server_inv_def good_served_def good_reply_def Let_def)
  qed
  then show "server_inv L view w'" and "r = Inr sv \<Longrightarrow> good_served L q sv" by simp_all
qed

end
