(* ===== verification/Api_Effects.thy ===== *)
theory Api_Effects
  imports Api_Correct
begin

text \<open>
  What a request to the management API may do to the parts it shares with the query path: the
  cached answers, the counters and the lists.
\<close>

section \<open>Cached answers and counters\<close>

text \<open>\<open>shared s\<close>: the cached answers and the counters.\<close>

definition shared :: "('m, 'r, 'db) api_state \<Rightarrow> 'm \<times> metrics option" where
  "shared s = (c_l1 (ap_cache s), ap_metrics s)"

lemma shared_on_cache:
  assumes "c_l1 (snd (f (ap_cache s))) = c_l1 (ap_cache s)"
  shows "shared (snd (on_cache f s)) = shared s"
  using assms by (cases "f (ap_cache s)") (simp add: shared_def on_cache_def)

lemma shared_on_auth [simp]: "shared (snd (on_auth f s)) = shared s"
  by (simp add: shared_def on_auth_def put_auth_def split: prod.split)

lemma list_operations_l1 [simp]:
  "c_l1 (snd (list_domains L tbl limit offset c)) = c_l1 c"
  "c_l1 (snd (count_domains L tbl c)) = c_l1 c"
  "c_l1 (snd (add_block_domain L list d c)) = c_l1 c"
  "c_l1 (snd (add_allow_domain L d c)) = c_l1 c"
  by (simp_all add: list_domains_def count_domains_def add_block_domain_def add_allow_domain_def
      split: prod.split sum.split)

lemma shared_remove_loop [simp]: "shared (snd (remove_loop X ds acc s)) = shared s"
proof (induction ds arbitrary: acc s)
  case (Cons d ds)
  obtain r s1 where run: "on_cache (remove_block_domain (ax_cache X) d) s = (r, s1)" by fastforce
  with shared_on_cache [of "remove_block_domain (ax_cache X) d" s] have "shared s1 = shared s" by simp
  with Cons.IH run show ?case by (simp split: sum.split bool.split)
qed simp

lemma shared_list_page [simp]: "shared (snd (list_page X tbl p s)) = shared s"
proof -
  obtain limit offset where page: "resolve_page p = (limit, offset)" by fastforce
  obtain r s1 where run: "on_cache (list_domains (ax_cache X) tbl limit offset) s = (r, s1)" by fastforce
  with shared_on_cache [of "list_domains (ax_cache X) tbl limit offset" s] have "shared s1 = shared s" by simp
  then show ?thesis
    by (simp add: list_page_def page run shared_on_cache split: sum.split)
qed

lemma shared_patch_config [simp]: "shared (snd (patch_config X p s)) = shared s"
  by (simp add: shared_def patch_config_def Let_def split: prod.split sum.split)

lemma shared_login [simp]: "shared (snd (login_handler X env user pass s)) = shared s"
  using shared_on_auth [of "login (ax_auth X) (ev_auth env) user pass" s]
  by (cases "on_auth (login (ax_auth X) (ev_auth env) user pass) s")
    (simp add: login_handler_def split: prod.split option.split)

text \<open>Only the page of counters changes them, and only their gauges.\<close>

definition gauges_only :: "metrics option \<Rightarrow> metrics option \<Rightarrow> bool" where
  "gauges_only m m' \<longleftrightarrow> (\<forall>y. m' = Some y \<longrightarrow>
     (\<exists>x. m = Some x \<and> mt_blocked y = mt_blocked x \<and> mt_hit y = mt_hit x \<and> mt_miss y = mt_miss x \<and>
        mt_latencies y = mt_latencies x))"

lemma gauges_only_refl [simp]: "gauges_only m m"
  by (simp add: gauges_only_def)

lemma metrics_page_shared:
  "c_l1 (ap_cache (snd (metrics_page X s))) = c_l1 (ap_cache s) \<and>
   gauges_only (ap_metrics s) (ap_metrics (snd (metrics_page X s)))"
  by (auto simp: metrics_page_def render_def gauges_only_def Let_def split: option.split)

lemma route_shared:
  "c_l1 (ap_cache (snd (route X env req s))) = c_l1 (ap_cache s) \<and>
   gauges_only (ap_metrics s) (ap_metrics (snd (route X env req s)))"
proof (cases "req = Get_Metrics")
  case True
  then show ?thesis by (simp add: metrics_page_shared)
next
  case False
  then have "shared (snd (route X env req s)) = shared s"
    by (cases req) (simp_all add: list_handlers account_handlers Let_def snd_case_prod shared_on_cache
        split: sum.split)
  then show ?thesis by (simp add: shared_def)
qed

lemma router_shared:
  assumes "router X env header req s = (resp, s')"
  shows "c_l1 (ap_cache s') = c_l1 (ap_cache s)" and "gauges_only (ap_metrics s) (ap_metrics s')"
proof -
  from shared_on_auth [of "require_auth (ax_auth X) (ev_auth env) header" s]
  have auth: "shared s1 = shared s"
    if "on_auth (require_auth (ax_auth X) (ev_auth env) header) s = (ok, s1)" for ok s1
    using that by simp
  from assms have "c_l1 (ap_cache s') = c_l1 (ap_cache s) \<and> gauges_only (ap_metrics s) (ap_metrics s')"
  proof (cases rule: router_cases)
    case open_route
    with route_shared [of X env req s] show ?thesis by simp
  next
    case refused
    from auth [OF refused(2)] show ?thesis by (simp add: shared_def)
  next
    case (admitted s1)
    from auth [OF admitted(2)] admitted(3) route_shared [of X env req s1] show ?thesis
      by (simp add: shared_def)
  qed
  then show "c_l1 (ap_cache s') = c_l1 (ap_cache s)" and "gauges_only (ap_metrics s) (ap_metrics s')"
    by simp_all
qed

section \<open>The lists\<close>

text \<open>
  \<open>lifts L n req\<close>: the request may end the blocking of the name \<open>n\<close>, by removing an entry that
  covers it or by allowing one that does.
\<close>

fun lifts :: "('rt, 'x) dns_libs_scheme \<Rightarrow> string \<Rightarrow> api_request \<Rightarrow> bool" where
  "lifts L n (Post_Blocklist_Bulk_Remove ds) = list_ex (\<lambda>d. covers (to_lowercase L d) n) ds"
| "lifts L n (Delete_Blocklist d) = covers (to_lowercase L d) n"
| "lifts L n (Post_Allowlist d) = list_ex (\<lambda>d. covers d n) (normalize_domains L [d])"
| "lifts L n (Post_Allowlist_Bulk ds) = list_ex (\<lambda>d. covers d n) (normalize_domains L ds)"
| "lifts L n _ = False"

text \<open>\<open>held n s\<close>: an entry of the block list covers the name, and none of the allow list does.\<close>

definition held :: "string \<Rightarrow> ('m, 'r, 'db) api_state \<Rightarrow> bool" where
  "held n s \<longleftrightarrow> covered_by (c_block (ap_cache s)) n \<and> \<not> covered_by (c_allow (ap_cache s)) n"

lemma held_iff_blocked: "memchr_law L \<Longrightarrow> held n s \<longleftrightarrow> is_blocked L (ap_cache s) n"
  by (simp add: held_def is_blocked_def policy.blocks_iff)

definition lists_of :: "('m, 'r, 'db) api_state \<Rightarrow> domain_set \<times> domain_set" where
  "lists_of s = (c_block (ap_cache s), c_allow (ap_cache s))"

lemma held_lists: "lists_of s' = lists_of s \<Longrightarrow> held n s' = held n s"
  by (simp add: lists_of_def held_def)

lemma lists_of_on_auth [simp]: "lists_of (snd (on_auth f s)) = lists_of s"
  by (simp add: lists_of_def)

lemma lists_of_on_cache:
  "lists_of (snd (on_cache f s)) = (c_block (snd (f (ap_cache s))), c_allow (snd (f (ap_cache s))))"
  by (simp add: lists_of_def)

lemma list_reads_lists [simp]:
  "c_block (snd (list_domains L tbl limit offset c)) = c_block c"
  "c_allow (snd (list_domains L tbl limit offset c)) = c_allow c"
  "c_block (snd (count_domains L tbl c)) = c_block c" "c_allow (snd (count_domains L tbl c)) = c_allow c"
  by (simp_all add: list_domains_def count_domains_def split: prod.split sum.split)

lemma lists_of_list_page [simp]: "lists_of (snd (list_page X tbl p s)) = lists_of s"
proof -
  obtain limit offset where page: "resolve_page p = (limit, offset)" by fastforce
  obtain r s1 where run: "on_cache (list_domains (ax_cache X) tbl limit offset) s = (r, s1)" by fastforce
  with lists_of_on_cache [of "list_domains (ax_cache X) tbl limit offset" s]
  have "lists_of s1 = lists_of s" by (simp add: lists_of_def)
  then show ?thesis
    by (simp add: list_page_def page run lists_of_on_cache split: sum.split) (simp add: lists_of_def)
qed

lemma lists_of_patch_config [simp]: "lists_of (snd (patch_config X p s)) = lists_of s"
  by (simp add: lists_of_def patch_config_def Let_def split: prod.split sum.split)

lemma lists_of_metrics_page [simp]: "lists_of (snd (metrics_page X s)) = lists_of s"
  by (simp add: lists_of_def metrics_page_def Let_def split: prod.split option.split)

lemma lists_of_login [simp]: "lists_of (snd (login_handler X env user pass s)) = lists_of s"
  using lists_of_on_auth [of "login (ax_auth X) (ev_auth env) user pass" s]
  by (cases "on_auth (login (ax_auth X) (ev_auth env) user pass) s")
    (simp add: login_handler_def split: prod.split option.split)

lemma covered_by_insert: "covered_by (D \<union> E) n \<longleftrightarrow> covered_by D n \<or> covered_by E n"
  by (auto simp: covered_by_def)

lemma held_add_block: "held n s \<Longrightarrow> held n (snd (on_cache (add_block_domains L list ds) s))"
  by (simp add: held_def covered_by_insert)

lemma held_add_allow:
  "held n s \<Longrightarrow> \<not> list_ex (\<lambda>d. covers d n) (normalize_domains L ds) \<Longrightarrow>
     held n (snd (on_cache (add_allow_domains L ds) s))"
  by (auto simp: held_def covered_by_insert) (auto simp: covered_by_def list_ex_iff)

lemma held_remove:
  "held n s \<Longrightarrow> \<not> covers (to_lowercase L d) n \<Longrightarrow> held n (snd (on_cache (remove_block_domain L d) s))"
  by (auto simp: held_def covered_by_def)

lemma held_remove_loop:
  "held n s \<Longrightarrow> \<forall>d \<in> set ds. \<not> covers (to_lowercase (ax_cache X) d) n \<Longrightarrow>
     held n (snd (remove_loop X ds acc s))"
proof (induction ds arbitrary: acc s)
  case (Cons d ds)
  obtain r s1 where run: "on_cache (remove_block_domain (ax_cache X) d) s = (r, s1)" by fastforce
  with held_remove [OF Cons.prems(1), of "ax_cache X" d] Cons.prems(2) have "held n s1" by simp
  from Cons.IH [OF this] Cons.prems(2) run show ?case by (simp split: sum.split bool.split)
qed simp

text \<open>The requests that change the lists, and those that do not.\<close>

fun changes_lists :: "api_request \<Rightarrow> bool" where
  "changes_lists (Post_Blocklist _) = True"
| "changes_lists (Post_Blocklist_Bulk _) = True"
| "changes_lists (Post_Blocklist_Url _ _) = True"
| "changes_lists (Post_Blocklist_Bulk_Remove _) = True"
| "changes_lists (Delete_Blocklist _) = True"
| "changes_lists (Post_Allowlist _) = True"
| "changes_lists (Post_Allowlist_Bulk _) = True"
| "changes_lists _ = False"

lemma route_lists: "\<not> changes_lists req \<Longrightarrow> lists_of (snd (route X env req s)) = lists_of s"
  by (cases req) (simp_all add: account_handlers list_blocked_def list_allowed_def)

text \<open>A request that does not lift the blocking of a name leaves it in force.\<close>

lemma route_held:
  assumes held: "held n s" and stays: "\<not> lifts (ax_cache X) n req"
  shows "held n (snd (route X env req s))"
proof (cases "changes_lists req")
  case False
  from held_lists [OF route_lists [OF this, of X env s]] held show ?thesis by simp
next
  case True
  then show ?thesis
  proof (cases req)
    case (Post_Blocklist d)
    with held_add_block [OF held, of "ax_cache X" "''custom''" "[d]"] show ?thesis
      by (simp add: block_add_one_def add_block_domain_def [abs_def])
  next
    case (Post_Blocklist_Bulk ds)
    with held_add_block [OF held] show ?thesis by (simp add: block_add_bulk_def)
  next
    case (Post_Blocklist_Url url list)
    then show ?thesis
      using held held_add_block [OF held, of "ax_cache X" "unwrap_or list url"]
      by (cases "ev_http env url") (simp_all add: block_add_url_def Let_def)
  next
    case (Post_Blocklist_Bulk_Remove ds)
    with held_remove_loop [OF held, of ds X] stays show ?thesis
      by (simp add: remove_bulk_def snd_case_prod list_ex_iff)
  next
    case (Delete_Blocklist d)
    with held_remove [OF held] stays show ?thesis by (simp add: remove_one_def)
  next
    case (Post_Allowlist d)
    with held_add_allow [OF held, of "ax_cache X" "[d]"] stays show ?thesis
      by (simp add: allow_add_one_def add_allow_domain_def [abs_def])
  next
    case (Post_Allowlist_Bulk ds)
    with held_add_allow [OF held, of "ax_cache X" ds] stays show ?thesis by (simp add: allow_add_bulk_def)
  qed simp_all
qed

lemma router_held:
  assumes held: "held n s" and stays: "\<not> lifts (ax_cache X) n req"
    and run: "router X env header req s = (resp, s')"
  shows "held n s'"
proof -
  have auth: "held n s1" if "on_auth (require_auth (ax_auth X) (ev_auth env) header) s = (ok, s1)" for ok s1
  proof -
    from lists_of_on_auth [of "require_auth (ax_auth X) (ev_auth env) header" s] that
    have "lists_of s1 = lists_of s" by simp
    from held_lists [OF this] held show ?thesis by simp
  qed
  have via: "held n s'" if "route X env req s0 = (resp, s')" "held n s0" for s0
    using route_held [OF that(2) stays, of env] unfolding that(1) by simp
  from run show ?thesis
    by (cases rule: router_cases) (blast intro: auth via held)+
qed

text \<open>And one that adds a domain blocks the names below it that no allowed domain covers.\<close>

lemma router_blocks:
  assumes run: "router X env header (Post_Blocklist d) s = (resp, s')"
    and "resp \<noteq> Api_Error UNAUTHORIZED ''unauthorized''"
    and d': "d' \<in> set (normalize_domains (ax_cache X) [d])" "covers d' n"
    and free: "\<not> covered_by (c_allow (ap_cache s)) n"
  shows "held n s'"
  using run
proof (cases rule: router_cases)
  case (admitted s1)
  from lists_of_on_auth [of "require_auth (ax_auth X) (ev_auth env) header" s] admitted(2)
  have lists: "c_allow (ap_cache s1) = c_allow (ap_cache s)" by (simp add: lists_of_def)
  have "s' = snd (route X env (Post_Blocklist d) s1)" unfolding admitted(3) by simp
  then have "ap_cache s' = snd (add_block_domains (ax_cache X) ''custom'' [d] (ap_cache s1))"
    by (simp add: block_add_one_def add_block_domain_def)
  with d' free lists show ?thesis by (auto simp: held_def covered_by_def)
qed (use assms(2) in simp_all)

end
