(* ===== verification/System.thy ===== *)
theory System
  imports Handler_Steps Startup Api_Effects Workers
begin

text \<open>
  The running program: queries from every front end, the cold path, requests to the management
  API and the task that drains the events, all on the state they share (\<open>Arc<Cache>\<close>, the
  configuration, the upstream sockets, the sessions, the counters). \<open>main.rs\<close>, \<open>run\<close>, builds
  that state and hands it to the parts. A query that waits for an upstream server lets all
  others go on.
\<close>

section \<open>The shared state\<close>

text \<open>
  \<open>sy_cold\<close> are the requests on the cold channel, \<open>sy_waiting\<close> the queries that wait for an
  upstream server, with the configuration loaded when they asked. \<open>sy_asked\<close> and \<open>sy_replies\<close>
  record what clients asked and what was answered, \<open>sy_logins\<close> the successful logins.
\<close>

record ('rt, 'm, 'r, 'db, 'q) system =
  sy_api :: "('m, 'r, 'db) api_state"
  sy_sockets :: 'q
  sy_channel :: channel_state
  sy_cold :: "(socket_addr \<times> 'rt query \<times> u64) list"
  sy_waiting :: "(socket_addr \<times> 'rt query \<times> runtime_config \<times> u64) list"
  sy_asked :: "(socket_addr \<times> bytes) list"
  sy_replies :: "(socket_addr \<times> bytes \<times> bytes) list"
  sy_logins :: "'db login_history"

definition system_start :: "('m, 'r, 'db, 'q, 'net) started \<Rightarrow> ('rt, 'm, 'r, 'db, 'q) system" where
  "system_start st = \<lparr>sy_api = st_api st, sy_sockets = st_sockets st,
     sy_channel = channel_start (st_producer st), sy_cold = [], sy_waiting = [], sy_asked = [],
     sy_replies = [], sy_logins = []\<rparr>"

text \<open>The part of the state a query handler works on, and its return.\<close>

definition world_of :: "('rt, 'm, 'r, 'db, 'q) system \<Rightarrow> ('m, 'r, 'db, 'q) world" where
  "world_of s = \<lparr>w_cache = ap_cache (sy_api s), w_sockets = sy_sockets s, w_events = []\<rparr>"

definition submit :: "dns_query_event \<Rightarrow> channel_state \<Rightarrow> channel_state" where
  "submit ev ch = ch\<lparr>cs_producer := send ev (cs_producer ch), cs_submitted := cs_submitted ch @ [ev]\<rparr>"

definition put_world ::
  "('m, 'r, 'db, 'q) world \<Rightarrow> ('rt, 'm, 'r, 'db, 'q) system \<Rightarrow> ('rt, 'm, 'r, 'db, 'q) system" where
  "put_world w s = s\<lparr>sy_api := (sy_api s)\<lparr>ap_cache := w_cache w\<rparr>, sy_sockets := w_sockets w,
     sy_channel := fold submit (w_events w) (sy_channel s)\<rparr>"

definition add_reply ::
  "socket_addr \<Rightarrow> bytes \<Rightarrow> bytes \<Rightarrow> ('rt, 'm, 'r, 'db, 'q) system \<Rightarrow> ('rt, 'm, 'r, 'db, 'q) system" where
  "add_reply cl data reply s = s\<lparr>sy_replies := sy_replies s @ [(cl, data, reply)]\<rparr>"

section \<open>Queries\<close>

text \<open>The end of \<open>handle_parsed\<close>: the event, then the reply.\<close>

definition conclude ::
  "('rt, 'm, 'r, 'db, 'x) cache_libs_scheme \<Rightarrow> 'sock request \<Rightarrow> socket_addr \<Rightarrow> 'rt query \<Rightarrow>
     handler_error + served \<Rightarrow> ('rt, 'm, 'r, 'db, 'q) system \<Rightarrow> ('rt, 'm, 'r, 'db, 'q) system" where
  "conclude L rq cl q r s =
     (case r of
        Inl _ \<Rightarrow> s
      | Inr sv \<Rightarrow>
          add_reply cl (q_raw q) (sv_raw sv) (s\<lparr>sy_channel := submit (event_of L rq q sv) (sy_channel s)\<rparr>))"

text \<open>\<open>handle_parsed\<close> up to its end, or to where it waits.\<close>

definition begin_query ::
  "('rt, 'm, 'r, 'db, 'x) cache_libs_scheme \<Rightarrow> 'sock request \<Rightarrow> socket_addr \<Rightarrow> 'rt query \<Rightarrow>
     ('rt, 'm, 'r, 'db, 'q) system \<Rightarrow> ('rt, 'm, 'r, 'db, 'q) system" where
  "begin_query L rq cl q s =
     (case lookup_phase L (ap_config (sy_api s)) rq q (world_of s) of
        (Some r, w) \<Rightarrow> conclude L rq cl q r (put_world w s)
      | (None, w) \<Rightarrow>
          (put_world w s)\<lparr>sy_waiting := sy_waiting s @ [(cl, q, ap_config (sy_api s), rq_timestamp_ms rq)]\<rparr>)"

definition finish_query ::
  "('rt, 'm, 'r, 'db, 'x) cache_libs_scheme \<Rightarrow> ('sock, 'q) queue_libs \<Rightarrow> 'sock request \<Rightarrow>
     socket_addr \<times> 'rt query \<times> runtime_config \<times> u64 \<Rightarrow>
     ('rt, 'm, 'r, 'db, 'q) system \<Rightarrow> ('rt, 'm, 'r, 'db, 'q) system" where
  "finish_query L Q rq x s =
     (case x of (cl, q, asked, ts) \<Rightarrow>
        let rq' = rq\<lparr>rq_timestamp_ms := ts\<rparr> in
        case upstream_phase L Q asked (ap_config (sy_api s)) rq' q (world_of s) of
          (r, w) \<Rightarrow> conclude L rq' cl q r (put_world w (s\<lparr>sy_waiting := remove1 x (sy_waiting s)\<rparr>)))"

text \<open>A message that reaches the handler: over TCP, or over UDP on the Tokio runtime.\<close>

definition ask_handler ::
  "('rt, 'm, 'r, 'db, 'x) cache_libs_scheme \<Rightarrow> 'sock request \<Rightarrow> socket_addr \<Rightarrow> bytes \<Rightarrow>
     ('rt, 'm, 'r, 'db, 'q) system \<Rightarrow> ('rt, 'm, 'r, 'db, 'q) system" where
  "ask_handler L rq cl data s =
     (let s1 = s\<lparr>sy_asked := sy_asked s @ [(cl, data)]\<rparr> in
      case parse_udp L data of Inl _ \<Rightarrow> s1 | Inr q \<Rightarrow> begin_query L rq cl q s1)"

text \<open>A datagram that reaches a pinned worker.\<close>

definition ask_worker ::
  "('rt, 'm, 'r, 'db, 'x) cache_libs_scheme \<Rightarrow> ('net, 'ndb, 'y) acl_libs_scheme \<Rightarrow> 'net acl_entry list \<Rightarrow>
     'sock request \<Rightarrow> socket_addr \<Rightarrow> bytes \<Rightarrow>
     ('rt, 'm, 'r, 'db, 'q) system \<Rightarrow> ('rt, 'm, 'r, 'db, 'q) system" where
  "ask_worker L N acl rq cl packet s =
     (let buf = take MONO_RECV_BUF packet;
          s1 = s\<lparr>sy_asked := sy_asked s @ [(cl, buf)]\<rparr>
      in case acl_decide N acl (socket_ip cl) of
           Deny \<Rightarrow> s1
         | Refuse \<Rightarrow> (case refuse L buf of Some resp \<Rightarrow> add_reply cl buf resp s1 | None \<Rightarrow> s1)
         | Allow \<Rightarrow>
             (case classify L (ap_config (sy_api s)) rq buf (world_of s) of
                (Reply resp, w) \<Rightarrow> add_reply cl buf resp (put_world w s1)
              | (Miss q, w) \<Rightarrow> (put_world w s1)\<lparr>sy_cold := sy_cold s @ [(cl, q, rq_timestamp_ms rq)]\<rparr>
              | (Drop, w) \<Rightarrow> put_world w s1))"

definition take_cold ::
  "('rt, 'm, 'r, 'db, 'x) cache_libs_scheme \<Rightarrow> 'sock request \<Rightarrow> socket_addr \<times> 'rt query \<times> u64 \<Rightarrow>
     ('rt, 'm, 'r, 'db, 'q) system \<Rightarrow> ('rt, 'm, 'r, 'db, 'q) system" where
  "take_cold L rq x s =
     (case x of (cl, q, ts) \<Rightarrow>
        begin_query L (rq\<lparr>rq_timestamp_ms := ts\<rparr>) cl q (s\<lparr>sy_cold := remove1 x (sy_cold s)\<rparr>))"

section \<open>Management and events\<close>

text \<open>The counters of the API are those of the producer: one \<open>Arc<Metrics>\<close>.\<close>

definition api_now :: "('rt, 'm, 'r, 'db, 'q) system \<Rightarrow> ('m, 'r, 'db) api_state" where
  "api_now s = (sy_api s)\<lparr>ap_metrics := pr_metrics (cs_producer (sy_channel s))\<rparr>"

definition call_api ::
  "('rt, 'm, 'r, 'db, 'ph, 'f) api_libs \<Rightarrow> 'f api_env \<Rightarrow> bytes option \<Rightarrow> api_request \<Rightarrow>
     ('rt, 'm, 'r, 'db, 'q) system \<Rightarrow> 'f response \<times> ('rt, 'm, 'r, 'db, 'q) system" where
  "call_api X env header req s =
     (case router X env header req (api_now s) of
        (resp, a) \<Rightarrow>
          (resp, s\<lparr>sy_api := a,
             sy_channel := (sy_channel s)\<lparr>cs_producer := (cs_producer (sy_channel s))\<lparr>pr_metrics := ap_metrics a\<rparr>\<rparr>,
             sy_logins := logins_after env req resp (api_now s) (sy_logins s)\<rparr>))"

definition drain ::
  "(dns_query_event \<Rightarrow> string option) \<Rightarrow> ('rt, 'm, 'r, 'db, 'q) system \<Rightarrow> ('rt, 'm, 'r, 'db, 'q) system" where
  "drain payload_of s =
     (let ch = sy_channel s in
      case pr_queue (cs_producer ch) of
        [] \<Rightarrow> s
      | ev # rest \<Rightarrow>
          s\<lparr>sy_channel := ch\<lparr>cs_producer := process payload_of ev ((cs_producer ch)\<lparr>pr_queue := rest\<rparr>),
             cs_processed := cs_processed ch @ [ev]\<rparr>\<rparr>)"

text \<open>The program step by step; \<open>allowed\<close> restricts the requests that reach the API.\<close>

inductive system_step ::
  "('rt, 'm, 'r, 'db, 'ph, 'f) api_libs \<Rightarrow> ('sock, 'q) queue_libs \<Rightarrow> ('net, 'ndb, 'y) acl_libs_scheme \<Rightarrow>
     'net acl_entry list \<Rightarrow> (dns_query_event \<Rightarrow> string option) \<Rightarrow> (api_request \<Rightarrow> bool) \<Rightarrow>
     ('rt, 'm, 'r, 'db, 'q) system \<Rightarrow> ('rt, 'm, 'r, 'db, 'q) system \<Rightarrow> bool"
  for X Q N acl payload_of allowed where
  handler: "system_step X Q N acl payload_of allowed s
     (ask_handler (ax_cache X) (rq :: 'sock request) cl data s)"
| worker: "system_step X Q N acl payload_of allowed s
     (ask_worker (ax_cache X) N acl (rq :: 'sock request) cl packet s)"
| cold: "x \<in> set (sy_cold s) \<Longrightarrow>
     system_step X Q N acl payload_of allowed s (take_cold (ax_cache X) (rq :: 'sock request) x s)"
| answered: "x \<in> set (sy_waiting s) \<Longrightarrow>
     system_step X Q N acl payload_of allowed s (finish_query (ax_cache X) Q rq x s)"
| managed: "allowed req \<Longrightarrow>
     system_step X Q N acl payload_of allowed s (snd (call_api X env header req s))"
| drained: "system_step X Q N acl payload_of allowed s (drain payload_of s)"

end
