(* ===== verification/System_Blocking.thy ===== *)
theory System_Blocking
  imports System
begin

text \<open>
  What the steps of the running program do to each part of its state, and a property that lasts
  over all of them: a name that is blocked stays blocked for every query, on every path, until a
  request to the management API lifts it.
\<close>

section \<open>The steps on each part of the state\<close>

lemma put_world_sel [simp]:
  "sy_api (put_world w s) = (sy_api s)\<lparr>ap_cache := w_cache w\<rparr>" "sy_sockets (put_world w s) = w_sockets w"
  "sy_channel (put_world w s) = fold submit (w_events w) (sy_channel s)"
  "sy_cold (put_world w s) = sy_cold s" "sy_waiting (put_world w s) = sy_waiting s"
  "sy_asked (put_world w s) = sy_asked s" "sy_replies (put_world w s) = sy_replies s"
  "sy_logins (put_world w s) = sy_logins s"
  by (simp_all add: put_world_def)

lemma add_reply_sel [simp]:
  "sy_api (add_reply cl d r s) = sy_api s" "sy_sockets (add_reply cl d r s) = sy_sockets s"
  "sy_channel (add_reply cl d r s) = sy_channel s" "sy_cold (add_reply cl d r s) = sy_cold s"
  "sy_waiting (add_reply cl d r s) = sy_waiting s" "sy_asked (add_reply cl d r s) = sy_asked s"
  "sy_replies (add_reply cl d r s) = sy_replies s @ [(cl, d, r)]" "sy_logins (add_reply cl d r s) = sy_logins s"
  by (simp_all add: add_reply_def)

lemma conclude_sel [simp]:
  "sy_api (conclude L rq cl q r s) = sy_api s" "sy_sockets (conclude L rq cl q r s) = sy_sockets s"
  "sy_cold (conclude L rq cl q r s) = sy_cold s" "sy_waiting (conclude L rq cl q r s) = sy_waiting s"
  "sy_asked (conclude L rq cl q r s) = sy_asked s" "sy_logins (conclude L rq cl q r s) = sy_logins s"
  "sy_replies (conclude L rq cl q (Inr sv) s) = sy_replies s @ [(cl, q_raw q, sv_raw sv)]"
  "sy_channel (conclude L rq cl q (Inr sv) s) = submit (event_of L rq q sv) (sy_channel s)"
  "conclude L rq cl q (Inl e) s = s"
  by (simp_all add: conclude_def split: sum.split)

lemma world_of_sel [simp]:
  "w_cache (world_of s) = ap_cache (sy_api s)" "w_sockets (world_of s) = sy_sockets s"
  "w_events (world_of s) = []"
  by (simp_all add: world_of_def)

lemma api_now_sel [simp]:
  "ap_cache (api_now s) = ap_cache (sy_api s)" "ap_sessions (api_now s) = ap_sessions (sy_api s)"
  "ap_config (api_now s) = ap_config (sy_api s)"
  "ap_metrics (api_now s) = pr_metrics (cs_producer (sy_channel s))"
  by (simp_all add: api_now_def)

lemma call_api_sel:
  assumes "router X env header req (api_now s) = (resp, a)"
  shows "sy_api (snd (call_api X env header req s)) = a"
    and "sy_channel (snd (call_api X env header req s)) =
      (sy_channel s)\<lparr>cs_producer := (cs_producer (sy_channel s))\<lparr>pr_metrics := ap_metrics a\<rparr>\<rparr>"
    and "sy_logins (snd (call_api X env header req s)) = logins_after env req resp (api_now s) (sy_logins s)"
    and "sy_cold (snd (call_api X env header req s)) = sy_cold s"
    and "sy_waiting (snd (call_api X env header req s)) = sy_waiting s"
    and "sy_asked (snd (call_api X env header req s)) = sy_asked s"
    and "sy_replies (snd (call_api X env header req s)) = sy_replies s"
    and "fst (call_api X env header req s) = resp"
  using assms by (simp_all add: call_api_def)

lemma drain_sel [simp]:
  "sy_api (drain p s) = sy_api s" "sy_cold (drain p s) = sy_cold s" "sy_waiting (drain p s) = sy_waiting s"
  "sy_asked (drain p s) = sy_asked s" "sy_replies (drain p s) = sy_replies s" "sy_logins (drain p s) = sy_logins s"
  by (simp_all add: drain_def Let_def split: list.split)

section \<open>Case analysis\<close>

text \<open>How a query begins and how it ends.\<close>

lemma begin_query_cases:
  fixes s :: "('rt, 'm, 'r, 'db, 'q) system"
  obtains (waits) w where "lookup_phase L (ap_config (sy_api s)) rq q (world_of s) = (None, w)"
      "begin_query L rq cl q s =
         (put_world w s)\<lparr>sy_waiting := sy_waiting s @ [(cl, q, ap_config (sy_api s), rq_timestamp_ms rq)]\<rparr>"
  | (failed) e w where "lookup_phase L (ap_config (sy_api s)) rq q (world_of s) = (Some (Inl e), w)"
      "begin_query L rq cl q s = put_world w s"
  | (served) sv w where "lookup_phase L (ap_config (sy_api s)) rq q (world_of s) = (Some (Inr sv), w)"
      "begin_query L rq cl q s = conclude L rq cl q (Inr sv) (put_world w s)"
proof -
  obtain out w where look: "lookup_phase L (ap_config (sy_api s)) rq q (world_of s) = (out, w)" by fastforce
  consider "out = None" | e where "out = Some (Inl e)" | sv where "out = Some (Inr sv)"
    by (metis old.sum.exhaust option.exhaust)
  then show ?thesis
    using look that by cases (simp_all add: begin_query_def)
qed

lemma finish_query_cases:
  fixes s :: "('rt, 'm, 'r, 'db, 'q) system"
  obtains (failed) e w where
      "upstream_phase L Q asked (ap_config (sy_api s)) (rq\<lparr>rq_timestamp_ms := ts\<rparr>) q (world_of s) = (Inl e, w)"
      "finish_query L Q rq (cl, q, asked, ts) s =
         put_world w (s\<lparr>sy_waiting := remove1 (cl, q, asked, ts) (sy_waiting s)\<rparr>)"
  | (served) sv w where
      "upstream_phase L Q asked (ap_config (sy_api s)) (rq\<lparr>rq_timestamp_ms := ts\<rparr>) q (world_of s) = (Inr sv, w)"
      "finish_query L Q rq (cl, q, asked, ts) s = conclude L (rq\<lparr>rq_timestamp_ms := ts\<rparr>) cl q (Inr sv)
         (put_world w (s\<lparr>sy_waiting := remove1 (cl, q, asked, ts) (sy_waiting s)\<rparr>))"
proof -
  obtain r w where
    up: "upstream_phase L Q asked (ap_config (sy_api s)) (rq\<lparr>rq_timestamp_ms := ts\<rparr>) q (world_of s) = (r, w)"
    by fastforce
  then show ?thesis
    using that by (cases r) (simp_all add: finish_query_def Let_def)
qed

text \<open>What becomes of a datagram that reaches a pinned worker.\<close>

lemma ask_worker_cases:
  fixes s :: "('rt, 'm, 'r, 'db, 'q) system" and packet
  defines "buf \<equiv> take MONO_RECV_BUF packet"
  defines "s1 cl \<equiv> s\<lparr>sy_asked := sy_asked s @ [(cl, buf)]\<rparr>"
  obtains (unanswered) "ask_worker L N acl rq cl packet s = s1 cl"
  | (refused) reply where "refuse L buf = Some reply"
      "ask_worker L N acl rq cl packet s = add_reply cl buf reply (s1 cl)"
  | (replied) reply w where "classify L (ap_config (sy_api s)) rq buf (world_of s) = (Reply reply, w)"
      "ask_worker L N acl rq cl packet s = add_reply cl buf reply (put_world w (s1 cl))"
  | (missed) q w where "classify L (ap_config (sy_api s)) rq buf (world_of s) = (Miss q, w)"
      "ask_worker L N acl rq cl packet s =
         (put_world w (s1 cl))\<lparr>sy_cold := sy_cold s @ [(cl, q, rq_timestamp_ms rq)]\<rparr>"
  | (dropped) w where "classify L (ap_config (sy_api s)) rq buf (world_of s) = (Drop, w)"
      "ask_worker L N acl rq cl packet s = put_world w (s1 cl)"
proof -
  obtain out w where c: "classify L (ap_config (sy_api s)) rq buf (world_of s) = (out, w)" by fastforce
  show ?thesis
  proof (cases "acl_decide N acl (socket_ip cl)")
    case Deny
    then show ?thesis by (intro unanswered) (simp add: ask_worker_def s1_def buf_def Let_def)
  next
    case Refuse
    then show ?thesis
      using unanswered refused
      by (cases "refuse L buf") (simp_all add: ask_worker_def s1_def buf_def Let_def)
  next
    case Allow
    then show ?thesis
      using c replied missed dropped
      by (cases out) (simp_all add: ask_worker_def s1_def buf_def Let_def)
  qed
qed

section \<open>Queries under way\<close>

text \<open>A query on the cold channel or waiting is the parse of its own packet.\<close>

definition queries_parsed :: "('rt, 'x) dns_libs_scheme \<Rightarrow> ('rt, 'm, 'r, 'db, 'q) system \<Rightarrow> bool" where
  "queries_parsed L s \<longleftrightarrow>
     (\<forall>x \<in> set (sy_cold s). parse_udp L (q_raw (fst (snd x))) = Inr (fst (snd x))) \<and>
     (\<forall>x \<in> set (sy_waiting s). parse_udp L (q_raw (fst (snd x))) = Inr (fst (snd x)))"

lemma begin_query_parsed:
  "parse_udp L (q_raw q) = Inr q \<Longrightarrow> queries_parsed L s \<Longrightarrow> queries_parsed L (begin_query L rq cl q s)"
  by (auto simp: begin_query_def queries_parsed_def split: prod.split option.split)

lemma parse_udp_again: "parse_udp L d = Inr q \<Longrightarrow> parse_udp L (q_raw q) = Inr q"
  by (simp add: parse_udp_raw)

lemma in_remove1: "y \<in> set (remove1 x xs) \<Longrightarrow> y \<in> set xs"
  using set_remove1_subset [of x xs] by blast

text \<open>The steps of the program, with the queries they work on taken apart.\<close>

lemma system_stepE:
  fixes Q :: "('sock, 'q) queue_libs"
  assumes "system_step X Q N acl p allowed s s'" and parsed: "queries_parsed (ax_cache X) s"
  obtains (malformed) cl data where "s' = s\<lparr>sy_asked := sy_asked s @ [(cl, data)]\<rparr>"
  | (handled) rq :: "'sock request" and cl q where "parse_udp (ax_cache X) (q_raw q) = Inr q"
      "s' = begin_query (ax_cache X) rq cl q (s\<lparr>sy_asked := sy_asked s @ [(cl, q_raw q)]\<rparr>)"
  | (worker) rq :: "'sock request" and cl packet where "s' = ask_worker (ax_cache X) N acl rq cl packet s"
  | (cold) rq :: "'sock request" and cl q ts where "(cl, q, ts) \<in> set (sy_cold s)" "parse_udp (ax_cache X) (q_raw q) = Inr q"
      "s' = begin_query (ax_cache X) rq cl q (s\<lparr>sy_cold := remove1 (cl, q, ts) (sy_cold s)\<rparr>)"
  | (answered) rq :: "'sock request" and cl q asked ts where "(cl, q, asked, ts) \<in> set (sy_waiting s)"
      "parse_udp (ax_cache X) (q_raw q) = Inr q" "s' = finish_query (ax_cache X) Q rq (cl, q, asked, ts) s"
  | (managed) env header req resp a where "allowed req" "router X env header req (api_now s) = (resp, a)"
      "s' = snd (call_api X env header req s)"
  | (drained) "s' = drain p s"
  using assms(1)
proof cases
  case (handler rq cl data)
  show ?thesis
  proof (cases "parse_udp (ax_cache X) data")
    case (Inl e)
    with handler malformed show ?thesis by (simp add: ask_handler_def)
  next
    case (Inr q)
    from handled [of q rq cl] parse_udp_again [OF Inr] parse_udp_raw [OF Inr] handler Inr show ?thesis
      by (simp add: ask_handler_def)
  qed
next
  case (cold x rq)
  with parsed that(4) show ?thesis by (cases x) (auto simp: take_cold_def queries_parsed_def)
next
  case (answered x rq)
  with parsed that(5) show ?thesis by (cases x) (auto simp: queries_parsed_def)
next
  case (managed req env header)
  obtain resp a where "router X env header req (api_now s) = (resp, a)" by fastforce
  with managed that(6) show ?thesis by blast
qed (use worker drained in blast)+

lemma system_step_parsed:
  assumes "system_step X Q N acl p allowed s s'" and ok: "queries_parsed (ax_cache X) s"
  shows "queries_parsed (ax_cache X) s'"
  using assms
proof (cases rule: system_stepE)
  case (malformed cl data)
  with ok show ?thesis by (simp add: queries_parsed_def)
next
  case (handled rq cl q)
  with ok show ?thesis by (auto simp: queries_parsed_def intro!: begin_query_parsed [unfolded queries_parsed_def])
next
  case (worker rq cl packet)
  show ?thesis
  proof (cases rule: ask_worker_cases [of "ax_cache X" N acl rq cl packet s])
    case (missed q w)
    then have "parse_udp (ax_cache X) (q_raw q) = Inr q"
      by (auto simp: classify_def Let_def dest: parse_udp_again
          split: sum.splits if_splits prod.splits option.splits)
    with missed ok worker show ?thesis by (simp add: queries_parsed_def)
  qed (use ok worker in \<open>simp_all add: queries_parsed_def\<close>)
next
  case (cold rq cl q ts)
  with ok show ?thesis
    by (auto simp: queries_parsed_def dest: in_remove1 intro!: begin_query_parsed [unfolded queries_parsed_def])
next
  case (answered rq cl q asked ts)
  with ok show ?thesis
    by (auto simp: finish_query_def Let_def queries_parsed_def dest: in_remove1 split: prod.split)
next
  case (managed env header req resp a)
  with ok show ?thesis by (simp add: queries_parsed_def call_api_sel [OF managed(2)])
next
  case drained
  with ok show ?thesis by (simp add: queries_parsed_def)
qed

interpretation parsed: step_invariant "system_step X Q N acl p allowed" "queries_parsed (ax_cache X)"
  for X :: "('rt, 'm, 'r, 'db, 'ph, 'f) api_libs" and Q :: "('sock, 'q) queue_libs"
    and N :: "('net, 'ndb, 'y) acl_libs_scheme" and acl p allowed
  by unfold_locales (rule system_step_parsed)

section \<open>A blocked name stays blocked\<close>

text \<open>
  Since the state \<open>s0\<close>: the name is blocked, no query for it has begun to wait, and every reply
  to a query for it is a blocking reply, or answers a query that waited in \<open>s0\<close> already.
\<close>

definition spared_reply ::
  "('rt, 'x) dns_libs_scheme \<Rightarrow> string \<Rightarrow> ('rt, 'm, 'r, 'db, 'q) system \<Rightarrow> socket_addr \<times> bytes \<times> bytes \<Rightarrow> bool" where
  "spared_reply L n s0 x \<longleftrightarrow> (case x of (cl, data, reply) \<Rightarrow>
     \<forall>q. parse_udp L data = Inr q \<and> q_name q = n \<longrightarrow>
       (\<exists>mode. reply = resp_raw (blocked L q mode)) \<or> (\<exists>cfg ts. (cl, q, cfg, ts) \<in> set (sy_waiting s0)))"

definition stays_blocked ::
  "('rt, 'x) dns_libs_scheme \<Rightarrow> string \<Rightarrow> ('rt, 'm, 'r, 'db, 'q) system \<Rightarrow>
     ('rt, 'm, 'r, 'db, 'q) system \<Rightarrow> bool" where
  "stays_blocked L n s0 s \<longleftrightarrow> held n (sy_api s) \<and>
     (\<forall>x \<in> set (sy_waiting s). q_name (fst (snd x)) = n \<longrightarrow> x \<in> set (sy_waiting s0)) \<and>
     (\<exists>new. sy_replies s = sy_replies s0 @ new \<and> (\<forall>x \<in> set new. spared_reply L n s0 x))"

lemma stays_blocked_refl: "held n (sy_api s) \<Longrightarrow> stays_blocked L n s s"
  by (simp add: stays_blocked_def)

lemma held_same_lists: "same_lists (ap_cache a) c \<Longrightarrow> held n (a\<lparr>ap_cache := c\<rparr>) = held n a"
  by (simp add: same_lists_def held_def)

text \<open>What each change of the state needs to keep that.\<close>

lemma stays_blocked_frame:
  assumes "stays_blocked L n s0 s" and "held n (sy_api s')"
    and "\<forall>x \<in> set (sy_waiting s'). q_name (fst (snd x)) = n \<longrightarrow> x \<in> set (sy_waiting s)"
    and "sy_replies s' = sy_replies s @ new" and "\<forall>x \<in> set new. spared_reply L n s0 x"
  shows "stays_blocked L n s0 s'"
proof -
  from assms(1) obtain old where "sy_replies s = sy_replies s0 @ old" "\<forall>x \<in> set old. spared_reply L n s0 x"
    by (auto simp: stays_blocked_def)
  with assms show ?thesis
    by (auto simp: stays_blocked_def intro!: exI [of _ "old @ new"])
qed

lemma spared_blocking: "spared_reply L n s0 (cl, data, reply)"
  if "\<And>q. parse_udp L data = Inr q \<Longrightarrow> q_name q = n \<Longrightarrow> \<exists>mode. reply = resp_raw (blocked L q mode)"
  using that by (simp add: spared_reply_def)

lemma stays_blocked_quiet:
  assumes "stays_blocked L n s0 s" and "held n (sy_api s')" and "set (sy_waiting s') \<subseteq> set (sy_waiting s)"
    and "sy_replies s' = sy_replies s"
  shows "stays_blocked L n s0 s'"
  using assms by (intro stays_blocked_frame [OF assms(1), where new = "[]"]) auto

lemma stays_blocked_reply:
  assumes "stays_blocked L n s0 s" and "held n (sy_api s')" and "set (sy_waiting s') \<subseteq> set (sy_waiting s)"
    and "sy_replies s' = sy_replies s @ [x]" and "spared_reply L n s0 x"
  shows "stays_blocked L n s0 s'"
  using assms by (intro stays_blocked_frame [OF assms(1), where new = "[x]"]) auto

lemma lookup_phase_held:
  assumes "held n (sy_api s)" and "lookup_phase L cfg rq q (world_of s) = (out, w)"
  shows "held n ((sy_api s)\<lparr>ap_cache := w_cache w\<rparr>)"
  using assms lookup_phase_lists by (fastforce simp: held_same_lists)

lemma lookup_phase_held_reply:
  assumes "memchr_law L" and "held n (sy_api s)" and "q_name q = n"
    and "lookup_phase L cfg rq q (world_of s) = (out, w)"
  shows "\<exists>sv. out = Some (Inr sv) \<and> sv_raw sv = resp_raw (blocked L q (blocking_mode cfg))"
proof -
  have "is_blocked L (w_cache (world_of s)) (q_name q)"
    using assms(2,3) by (simp add: held_iff_blocked [OF assms(1)])
  from lookup_phase_blocked [OF this, of cfg rq] assms(4) show ?thesis by auto
qed

lemma begin_query_stays:
  assumes law: "memchr_law L" and ok: "stays_blocked L n s0 s" and q: "parse_udp L (q_raw q) = Inr q"
  shows "stays_blocked L n s0 (begin_query L rq cl q s)"
proof -
  from ok have held: "held n (sy_api s)" by (simp add: stays_blocked_def)
  note block = lookup_phase_held_reply [OF law held]
  show ?thesis
  proof (cases rule: begin_query_cases [of L s rq q cl])
    case (waits w)
    from block [OF _ waits(1)] have "q_name q \<noteq> n" by auto
    with waits lookup_phase_held [OF held waits(1)] show ?thesis
      by (intro stays_blocked_frame [OF ok, where new = "[]"]) auto
  next
    case (failed e w)
    with lookup_phase_held [OF held failed(1)] show ?thesis
      by (intro stays_blocked_quiet [OF ok]) auto
  next
    case (served sv w)
    have "spared_reply L n s0 (cl, q_raw q, sv_raw sv)"
      using block [OF _ served(1)] q by (intro spared_blocking) auto
    with served lookup_phase_held [OF held served(1)] show ?thesis
      by (intro stays_blocked_reply [OF ok]) auto
  qed
qed

lemma classify_blocking:
  assumes law: "memchr_law L" and held: "held n (sy_api s)"
    and c: "classify L cfg rq buf (world_of s) = (Reply reply, w)"
  shows "spared_reply L n s0 (cl, buf, reply)"
proof (rule spared_blocking)
  fix q
  assume p: "parse_udp L buf = Inr q" and "q_name q = n"
  with held have "is_blocked L (w_cache (world_of s)) (q_name q)" by (simp add: held_iff_blocked [OF law])
  with p c have "reply = resp_raw (blocked L q (blocking_mode cfg))" by (simp add: classify_def Let_def)
  then show "\<exists>mode. reply = resp_raw (blocked L q mode)" ..
qed

lemma refuse_blocking: "refuse L buf = Some reply \<Longrightarrow> spared_reply L n s0 (cl, buf, reply)"
  by (rule spared_blocking) (auto simp: refuse_def)

lemma classify_lists: "classify L cfg rq buf w = (out, w') \<Longrightarrow> same_lists (w_cache w) (w_cache w')"
  by (auto simp: classify_def send_event_def Let_def dest: l1_get_lists
      split: sum.splits if_splits prod.splits option.splits)

lemma ask_worker_stays:
  assumes law: "memchr_law L" and ok: "stays_blocked L n s0 s"
  shows "stays_blocked L n s0 (ask_worker L N acl rq cl packet s)"
proof -
  from ok have held: "held n (sy_api s)" by (simp add: stays_blocked_def)
  then have held': "held n ((sy_api s)\<lparr>ap_cache := w_cache w\<rparr>)"
    if "classify L cfg rq buf (world_of s) = (out, w)" for cfg buf out w
    using classify_lists [OF that] by (simp add: held_same_lists)
  show ?thesis
  proof (cases rule: ask_worker_cases [of L N acl rq cl packet s])
    case unanswered
    with held show ?thesis by (intro stays_blocked_quiet [OF ok]) simp_all
  next
    case (refused reply)
    with held refuse_blocking [OF refused(1)] show ?thesis by (intro stays_blocked_reply [OF ok]) simp_all
  next
    case (replied reply w)
    with held' [OF replied(1)] classify_blocking [OF law held replied(1)] show ?thesis
      by (intro stays_blocked_reply [OF ok]) simp_all
  next
    case (missed q w)
    with held' [OF missed(1)] show ?thesis by (intro stays_blocked_quiet [OF ok]) simp_all
  next
    case (dropped w)
    with held' [OF dropped(1)] show ?thesis by (intro stays_blocked_quiet [OF ok]) simp_all
  qed
qed

lemma finish_query_stays:
  assumes ok: "stays_blocked L n s0 s" and x: "(cl, q, asked, ts) \<in> set (sy_waiting s)"
    and q: "parse_udp L (q_raw q) = Inr q"
  shows "stays_blocked L n s0 (finish_query L Q rq (cl, q, asked, ts) s)"
proof -
  from ok have held: "held n (sy_api s)" by (simp add: stays_blocked_def)
  then have held': "held n ((sy_api s)\<lparr>ap_cache := w_cache w\<rparr>)"
    if "upstream_phase L Q asked cfg rq' q (world_of s) = (r, w)" for cfg rq' r w
    using upstream_phase_lists [OF that] by (simp add: held_same_lists)
  have sub: "set (remove1 y (sy_waiting s)) \<subseteq> set (sy_waiting s)" for y by (rule set_remove1_subset)
  have spared: "spared_reply L n s0 (cl, q_raw q, reply)" for reply
    using ok x q by (auto simp: spared_reply_def stays_blocked_def)
  show ?thesis
  proof (cases rule: finish_query_cases [where L = L and Q = Q and s = s and rq = rq and q = q and cl = cl and asked = asked and ts = ts])
    case (failed e w)
    with held' [OF failed(1)] sub show ?thesis by (intro stays_blocked_quiet [OF ok]) simp_all
  next
    case (served sv w)
    with held' [OF served(1)] sub spared show ?thesis by (intro stays_blocked_reply [OF ok]) simp_all
  qed
qed

lemma system_step_stays:
  assumes law: "memchr_law (ax_cache X)"
    and "system_step X Q N acl p (\<lambda>req. \<not> lifts (ax_cache X) n req) s s'"
    and "queries_parsed (ax_cache X) s" and ok: "stays_blocked (ax_cache X) n s0 s"
  shows "stays_blocked (ax_cache X) n s0 s'"
proof -
  from ok have held: "held n (sy_api s)" by (simp add: stays_blocked_def)
  have quiet: "stays_blocked (ax_cache X) n s0 t" if "sy_api t = sy_api s" "set (sy_waiting t) \<subseteq> set (sy_waiting s)"
      "sy_replies t = sy_replies s" for t
    using that held by (intro stays_blocked_quiet [OF ok]) simp_all
  from assms(2,3) show ?thesis
  proof (cases rule: system_stepE)
    case (handled rq cl q)
    then show ?thesis by (simp add: begin_query_stays [OF law quiet])
  next
    case (worker rq cl packet)
    with ask_worker_stays [OF law ok] show ?thesis by simp
  next
    case (cold rq cl q ts)
    then show ?thesis by (simp add: begin_query_stays [OF law quiet])
  next
    case (answered rq cl q asked ts)
    with finish_query_stays [OF ok] show ?thesis by simp
  next
    case (managed env header req resp a)
    have "held n (api_now s)" using held by (simp add: held_def)
    from router_held [OF this managed(1,2)] managed(3) show ?thesis
      by (intro stays_blocked_quiet [OF ok]) (simp_all add: call_api_sel [OF managed(2)])
  qed (simp_all add: quiet)
qed

interpretation blocking: step_invariant "system_step X Q N acl p (\<lambda>req. \<not> lifts (ax_cache X) n req)"
  "\<lambda>s. memchr_law (ax_cache X) \<and> queries_parsed (ax_cache X) s \<and> stays_blocked (ax_cache X) n s0 s"
  for X :: "('rt, 'm, 'r, 'db, 'ph, 'f) api_libs" and Q :: "('sock, 'q) queue_libs"
    and N :: "('net, 'ndb, 'y) acl_libs_scheme" and acl p n s0
  by unfold_locales (auto intro: system_step_stays system_step_parsed)

end
