(* ===== verification/System_Correct.thy ===== *)
theory System_Correct
  imports System_Blocking
begin

text \<open>
  The running program keeps the invariants of its parts, whatever the order of their steps:
  every reply answers a message that was asked and answers it once, sessions rest on logins,
  the counters on the events.
\<close>

section \<open>Every reply answers a message, once\<close>

text \<open>The messages answered and those still under way, each with its source.\<close>

definition taken_up :: "('rt, 'm, 'r, 'db, 'q) system \<Rightarrow> (socket_addr \<times> bytes) multiset" where
  "taken_up s = image_mset (\<lambda>(cl, data, _). (cl, data)) (mset (sy_replies s)) +
     image_mset (\<lambda>(cl, q, _). (cl, q_raw q)) (mset (sy_cold s)) +
     image_mset (\<lambda>(cl, q, _). (cl, q_raw q)) (mset (sy_waiting s))"

definition answers_ok :: "('rt, 'm, 'r, 'db, 'q) system \<Rightarrow> bool" where
  "answers_ok s \<longleftrightarrow> taken_up s \<subseteq># mset (sy_asked s) \<and>
     (\<forall>(cl, data, reply) \<in> set (sy_replies s). txid_matches data reply \<and> length reply \<le> RECV_BUF)"

text \<open>A message may be taken up beside the others.\<close>

definition room_for :: "socket_addr \<Rightarrow> bytes \<Rightarrow> ('rt, 'm, 'r, 'db, 'q) system \<Rightarrow> bool" where
  "room_for cl data s \<longleftrightarrow> add_mset (cl, data) (taken_up s) \<subseteq># mset (sy_asked s) \<and> answers_ok s"

lemma answers_okI:
  assumes "answers_ok s" and "taken_up s' \<subseteq># taken_up s" and "sy_asked s' = sy_asked s"
    and "sy_replies s' = sy_replies s"
  shows "answers_ok s'"
  using assms subset_mset.order_trans by (auto simp: answers_ok_def)

lemma room_for_add_reply:
  assumes "room_for cl data s" and "txid_matches data reply" and "length reply \<le> RECV_BUF"
    and "taken_up s' = add_mset (cl, data) (taken_up s)" and "sy_asked s' = sy_asked s"
    and "sy_replies s' = sy_replies s @ [(cl, data, reply)]"
  shows "answers_ok s'"
  using assms by (auto simp: room_for_def answers_ok_def)

lemma room_for_wait:
  assumes "room_for cl data s" and "taken_up s' = add_mset (cl, data) (taken_up s)"
    and "sy_asked s' = sy_asked s" and "sy_replies s' = sy_replies s"
  shows "answers_ok s'"
  using assms by (auto simp: room_for_def answers_ok_def)

lemma room_for_asked:
  assumes "answers_ok s"
  shows "room_for cl data (s\<lparr>sy_asked := sy_asked s @ [(cl, data)]\<rparr>)"
proof -
  from assms have "taken_up s \<subseteq># mset (sy_asked s)" by (simp add: answers_ok_def)
  moreover have "taken_up (s\<lparr>sy_asked := sy_asked s @ [(cl, data)]\<rparr>) = taken_up s" by (simp add: taken_up_def)
  ultimately show ?thesis
    using assms by (auto simp: room_for_def answers_ok_def intro: below_add_mset)
qed

text \<open>The whole invariant: that of the query path, of the sessions, of the channel, and the above.\<close>

definition system_ok ::
  "('rt, 'm, 'r, 'db, 'ph, 'f) api_libs \<Rightarrow> ('m \<Rightarrow> string \<Rightarrow> (l1_entry \<times> nat) option) \<Rightarrow>
     ('db \<Rightarrow> string \<Rightarrow> (i64 \<times> string) option) \<Rightarrow> ('db \<Rightarrow> token_row set) \<Rightarrow>
     (dns_query_event \<Rightarrow> string option) \<Rightarrow> ('rt, 'm, 'r, 'db, 'q) system \<Rightarrow> bool" where
  "system_ok X view users tokens p s \<longleftrightarrow> server_inv (ax_cache X) view (world_of s) \<and>
     api_sessions_ok X users tokens (sy_logins s, sy_api s) \<and> channel_ok p (sy_channel s) \<and> answers_ok s"

lemma system_okD:
  assumes "system_ok X view users tokens p s"
  shows "server_inv (ax_cache X) view (world_of s)" and "api_sessions_ok X users tokens (sy_logins s, sy_api s)"
    and "channel_ok p (sy_channel s)" and "answers_ok s"
  using assms by (simp_all add: system_ok_def)

lemma api_sessions_same:
  assumes "api_sessions_ok X users tokens (h, a)" and "c_db (ap_cache a') = c_db (ap_cache a)"
    and "ap_sessions a' = ap_sessions a"
  shows "api_sessions_ok X users tokens (h, a')"
  using assms by (simp add: api_sessions_ok_def auth_of_def)

lemma sessions_put_cache:
  "api_sessions_ok X users tokens (h, a) \<Longrightarrow> same_lists (ap_cache a) c \<Longrightarrow>
     api_sessions_ok X users tokens (h, a\<lparr>ap_cache := c\<rparr>)"
  by (erule api_sessions_same) (simp_all add: same_lists_def)

lemma submit_ok: "channel_ok p ch \<Longrightarrow> channel_ok p (submit ev ch)"
  using send_ok by (simp add: submit_def)

lemma submits_ok: "channel_ok p ch \<Longrightarrow> channel_ok p (fold submit evs ch)"
  by (induction evs arbitrary: ch) (auto intro: submit_ok)

lemma channel_ok_gauges:
  assumes ok: "channel_ok p ch" and g: "gauges_only (pr_metrics (cs_producer ch)) m"
  shows "channel_ok p (ch\<lparr>cs_producer := (cs_producer ch)\<lparr>pr_metrics := m\<rparr>\<rparr>)"
proof -
  have "count_ok m' (cs_processed ch)" if "m = Some m'" for m'
  proof -
    from g that obtain x where x: "pr_metrics (cs_producer ch) = Some x"
      "mt_blocked m' = mt_blocked x" "mt_hit m' = mt_hit x" "mt_miss m' = mt_miss x"
      "mt_latencies m' = mt_latencies x" by (auto simp: gauges_only_def)
    with ok have "count_ok x (cs_processed ch)" by (simp add: channel_ok_def)
    with x show ?thesis by (simp add: count_ok_def)
  qed
  with ok show ?thesis by (simp add: channel_ok_def)
qed

lemma server_inv_world_of:
  "server_inv L view w \<Longrightarrow> ap_cache (sy_api s) = w_cache w \<Longrightarrow> server_inv L view (world_of s)"
  by (simp add: server_inv_def)

text \<open>A step that leaves the lists alone and sends its events keeps all but the last part.\<close>

lemma system_okI:
  assumes "system_ok X view users tokens p s" and "server_inv (ax_cache X) view w"
    and "same_lists (ap_cache (sy_api s)) (w_cache w)"
    and "sy_api s' = (sy_api s)\<lparr>ap_cache := w_cache w\<rparr>" and "sy_logins s' = sy_logins s"
    and "sy_channel s' = fold submit evs (sy_channel s)" and "answers_ok s'"
  shows "system_ok X view users tokens p s'"
  using assms system_okD [OF assms(1)]
  by (simp add: system_ok_def server_inv_def sessions_put_cache submits_ok)

lemma taken_up_channel [simp]: "taken_up (s\<lparr>sy_channel := ch\<rparr>) = taken_up s"
  by (simp add: taken_up_def)

lemma taken_up_put_world [simp]: "taken_up (put_world w s) = taken_up s"
  by (simp add: taken_up_def)

lemma taken_up_conclude [simp]:
  "taken_up (conclude L rq cl q (Inr sv) s) = add_mset (cl, q_raw q) (taken_up s)"
  by (simp add: taken_up_def)

lemma image_mset_remove1:
  assumes "x \<in> set xs"
  shows "image_mset f (mset xs) = add_mset (f x) (image_mset f (mset (remove1 x xs)))"
proof -
  have "mset xs = add_mset x (mset (remove1 x xs))" using assms by (simp add: mset_remove1)
  then show ?thesis by (metis image_mset_add_mset)
qed

lemma taken_up_waiting:
  "(cl, q, y) \<in> set (sy_waiting s) \<Longrightarrow>
     taken_up s = add_mset (cl, q_raw q) (taken_up (s\<lparr>sy_waiting := remove1 (cl, q, y) (sy_waiting s)\<rparr>))"
  by (simp add: taken_up_def image_mset_remove1 [of "(cl, q, y)" "sy_waiting s"] del: mset_remove1)

lemma taken_up_cold:
  "(cl, q, y) \<in> set (sy_cold s) \<Longrightarrow>
     taken_up s = add_mset (cl, q_raw q) (taken_up (s\<lparr>sy_cold := remove1 (cl, q, y) (sy_cold s)\<rparr>))"
  by (simp add: taken_up_def image_mset_remove1 [of "(cl, q, y)" "sy_cold s"] del: mset_remove1)

lemma begin_query_ok:
  assumes ok: "system_ok X view users tokens p s" and room: "room_for cl (q_raw q) s" and q: "query_ok q"
  shows "system_ok X view users tokens p (begin_query (ax_cache X) rq cl q s)"
proof -
  note inv = system_okD(1) [OF ok]
  show ?thesis
  proof (cases rule: begin_query_cases [of "ax_cache X" s rq q cl])
    case (waits w)
    have "answers_ok (begin_query (ax_cache X) rq cl q s)"
      using room by (rule room_for_wait) (simp_all add: waits(2) taken_up_def)
    then show ?thesis
      using lookup_phase_miss [OF inv waits(1)] lookup_phase_lists [OF waits(1)]
      by (intro system_okI [OF ok, where w = w and evs = "w_events w"]) (simp_all add: waits(2))
  next
    case (failed e w)
    with lookup_phase_no_error [OF inv] show ?thesis by blast
  next
    case (served sv w)
    note good = lookup_phase_good [OF q inv served(1)]
    have "answers_ok (begin_query (ax_cache X) rq cl q s)"
      using room good(2)
      by (intro room_for_add_reply [where reply = "sv_raw sv" and cl = cl and data = "q_raw q"])
        (simp_all add: served(2) good_served_def)
    then show ?thesis
      using good(1) lookup_phase_lists [OF served(1)]
      by (intro system_okI [OF ok, where w = w and evs = "w_events w @ [event_of (ax_cache X) rq q sv]"])
        (simp_all add: served(2))
  qed
qed

lemma finish_query_ok:
  assumes ok: "system_ok X view users tokens p s" and x: "(cl, q, asked, ts) \<in> set (sy_waiting s)"
    and parsed: "parse_udp (ax_cache X) (q_raw q) = Inr q"
  shows "system_ok X view users tokens p (finish_query (ax_cache X) Q rq (cl, q, asked, ts) s)"
proof -
  note q = parse_udp_query_ok [OF parsed] and inv = system_okD(1) [OF ok] and ans = system_okD(4) [OF ok]
  let ?s' = "finish_query (ax_cache X) Q rq (cl, q, asked, ts) s"
  let ?s1 = "s\<lparr>sy_waiting := remove1 (cl, q, asked, ts) (sy_waiting s)\<rparr>"
  have split: "taken_up s = add_mset (cl, q_raw q) (taken_up ?s1)"
    using taken_up_waiting [OF x] by simp
  have s1: "answers_ok ?s1"
    using ans by (rule answers_okI) (simp_all add: split)
  show ?thesis
  proof (cases rule: finish_query_cases
      [where L = "ax_cache X" and Q = Q and s = s and rq = rq and q = q and cl = cl and asked = asked and ts = ts])
    case (failed e w)
    have "answers_ok ?s'"
      using ans by (rule answers_okI) (simp_all add: failed(2) split)
    then show ?thesis
      using upstream_phase_good(1) [OF q inv failed(1)] upstream_phase_lists [OF failed(1)]
      by (intro system_okI [OF ok, where w = w and evs = "w_events w"]) (simp_all add: failed(2))
  next
    case (served sv w)
    note good = upstream_phase_good [OF q inv served(1)]
    have "room_for cl (q_raw q) ?s1"
      using s1 ans by (simp add: room_for_def answers_ok_def split)
    then have "answers_ok ?s'"
      using good(2) [OF refl]
      by (intro room_for_add_reply [where s = ?s1 and reply = "sv_raw sv" and cl = cl and data = "q_raw q"])
        (simp_all add: served(2) good_served_def)
    then show ?thesis
      using good(1) upstream_phase_lists [OF served(1)]
      by (intro system_okI [OF ok, where w = w and
            evs = "w_events w @ [event_of (ax_cache X) (rq\<lparr>rq_timestamp_ms := ts\<rparr>) q sv]"])
        (simp_all add: served(2))
  qed
qed

lemma ask_worker_ok:
  assumes ok: "system_ok X view users tokens p s"
  shows "system_ok X view users tokens p (ask_worker (ax_cache X) N acl rq cl packet s)"
proof -
  let ?buf = "take MONO_RECV_BUF packet" and ?s' = "ask_worker (ax_cache X) N acl rq cl packet s"
  let ?s1 = "s\<lparr>sy_asked := sy_asked s @ [(cl, ?buf)]\<rparr>"
  note inv = system_okD(1) [OF ok] and room = room_for_asked [OF system_okD(4) [OF ok], of cl ?buf]
  have s1: "system_ok X view users tokens p ?s1"
    using room ok by (simp add: system_ok_def room_for_def server_inv_def)
  have put: "system_ok X view users tokens p ?s'"
    if "classify (ax_cache X) (ap_config (sy_api s)) rq ?buf (world_of s) = (out, w)" "answers_ok ?s'"
      "sy_api ?s' = (sy_api s)\<lparr>ap_cache := w_cache w\<rparr>" "sy_logins ?s' = sy_logins s"
      "sy_channel ?s' = fold submit (w_events w) (sy_channel s)" for out w
    using that(2-) classify_inv(1) [OF inv that(1)] classify_lists [OF that(1)]
    by (intro system_okI [OF ok, where w = w]) simp_all
  show ?thesis
  proof (cases rule: ask_worker_cases [of "ax_cache X" N acl rq cl packet s])
    case unanswered
    with s1 show ?thesis by simp
  next
    case (refused reply)
    have "answers_ok ?s'"
      using room refuse_reply(1,2) [OF refused(1)]
      by (rule room_for_add_reply) (simp_all add: refused(2) taken_up_def)
    then show ?thesis
      using s1 by (simp add: system_ok_def refused(2) server_inv_def)
  next
    case (replied reply w)
    note good = classify_inv(3) [OF inv replied(1) refl]
    have "answers_ok ?s'"
      using room good [THEN conjunct1] good [THEN conjunct2]
      by (rule room_for_add_reply) (simp_all add: replied(2) taken_up_def)
    then show ?thesis by (rule put [OF replied(1)]) (simp_all add: replied(2))
  next
    case (missed q w)
    have "answers_ok ?s'"
      using room by (rule room_for_wait) (use classify_inv(2) [OF inv missed(1) refl] in
        \<open>simp_all add: missed(2) taken_up_def\<close>)
    then show ?thesis by (rule put [OF missed(1)]) (simp_all add: missed(2))
  next
    case (dropped w)
    have "answers_ok ?s'"
      using system_okD(4) [OF s1] by (rule answers_okI) (simp_all add: dropped(2))
    then show ?thesis by (rule put [OF dropped(1)]) (simp_all add: dropped(2))
  qed
qed

lemma call_api_ok:
  assumes ok: "system_ok X view users tokens p s"
  shows "system_ok X view users tokens p (snd (call_api X env header req s))"
proof -
  note parts = system_okD [OF ok]
  obtain resp a where run: "router X env header req (api_now s) = (resp, a)" by fastforce
  note sel = call_api_sel [OF run]
  have "api_sessions_ok X users tokens (sy_logins s, api_now s)"
    using parts(2) by (rule api_sessions_same) simp_all
  from api.keeps [OF this api_step.served [OF run]]
  have "api_sessions_ok X users tokens (logins_after env req resp (api_now s) (sy_logins s), a)" .
  moreover have "channel_ok p ((sy_channel s)\<lparr>cs_producer := (cs_producer (sy_channel s))\<lparr>pr_metrics := ap_metrics a\<rparr>\<rparr>)"
    using parts(3) router_shared(2) [OF run] by (intro channel_ok_gauges) simp_all
  moreover have "answers_ok (snd (call_api X env header req s))"
    using parts(4) by (rule answers_okI) (simp_all add: sel taken_up_def)
  moreover have "server_inv (ax_cache X) view (world_of (snd (call_api X env header req s)))"
    using parts(1) router_shared(1) [OF run] by (simp add: server_inv_def sel)
  ultimately show ?thesis by (simp add: system_ok_def sel)
qed

lemma drain_ok:
  assumes ok: "system_ok X view users tokens p s"
  shows "system_ok X view users tokens p (drain p s)"
proof -
  note parts = system_okD [OF ok]
  have "channel_ok p (sy_channel (drain p s))"
    using parts(3) process_ok [OF parts(3)] by (auto simp: drain_def Let_def split: list.split)
  moreover have "answers_ok (drain p s)"
    using parts(4) by (rule answers_okI) (simp_all add: taken_up_def)
  ultimately show ?thesis using parts(1,2) by (simp add: system_ok_def server_inv_def)
qed

lemma system_step_ok:
  assumes "system_step X Q N acl p allowed s s'" and ok: "system_ok X view users tokens p s"
    and "queries_parsed (ax_cache X) s"
  shows "system_ok X view users tokens p s'"
proof -
  have taken: "system_ok X view users tokens p t"
    if "sy_api t = sy_api s" "sy_logins t = sy_logins s" "sy_channel t = sy_channel s" "answers_ok t" for t
    using that ok by (simp add: system_ok_def server_inv_def)
  note asked = room_for_asked [OF system_okD(4) [OF ok]]
  have asked': "answers_ok (s\<lparr>sy_asked := sy_asked s @ [(cl, data)]\<rparr>)" for cl data
    using asked by (simp add: room_for_def)
  from assms(1,3) show ?thesis
  proof (cases rule: system_stepE)
    case (malformed cl data)
    then show ?thesis by (intro taken) (simp_all add: asked')
  next
    case (handled rq cl q)
    from begin_query_ok [OF taken [OF _ _ _ asked'] asked parse_udp_query_ok [OF handled(1)]] handled(2)
    show ?thesis by simp
  next
    case (worker rq cl packet)
    from ask_worker_ok [OF ok] worker show ?thesis by simp
  next
    case (cold rq cl q ts)
    let ?s1 = "s\<lparr>sy_cold := remove1 (cl, q, ts) (sy_cold s)\<rparr>"
    have split: "taken_up s = add_mset (cl, q_raw q) (taken_up ?s1)"
      using taken_up_cold [OF cold(1)] by simp
    have "answers_ok ?s1"
      using system_okD(4) [OF ok] by (rule answers_okI) (simp_all add: split)
    then have s1: "system_ok X view users tokens p ?s1" and "room_for cl (q_raw q) ?s1"
      using system_okD(4) [OF ok] by (simp_all add: taken room_for_def answers_ok_def split)
    from begin_query_ok [OF this parse_udp_query_ok [OF cold(2)]] cold(3) show ?thesis by simp
  next
    case (answered rq cl q asked ts)
    from finish_query_ok [OF ok answered(1,2)] answered(3) show ?thesis by simp
  next
    case (managed env header req resp a)
    from call_api_ok [OF ok] managed(3) show ?thesis by simp
  next
    case drained
    from drain_ok [OF ok] drained show ?thesis by simp
  qed
qed

interpretation program: step_invariant "system_step X Q N acl p allowed"
  "\<lambda>s. queries_parsed (ax_cache X) s \<and> system_ok X view users tokens p s"
  for X :: "('rt, 'm, 'r, 'db, 'ph, 'f) api_libs" and Q :: "('sock, 'q) queue_libs"
    and N :: "('net, 'ndb, 'y) acl_libs_scheme" and acl p allowed view users tokens
  by unfold_locales (auto intro: system_step_ok system_step_parsed)

text \<open>The state a start leaves.\<close>

lemma system_start_ok:
  assumes "moka_law (ax_cache X) view" and "\<not> redis_feature (ax_cache X)"
    and "auth_law (ax_auth X) users tokens" and "\<And>cap k. view (be_moka_new env cap) k = None"
    and "boot X N Q env args db = (Inr st, db')"
  shows "queries_parsed (ax_cache X) (system_start st) \<and> system_ok X view users tokens p (system_start st)"
  using assms(5)
proof (rule boot_InrE)
  fix db2 db3 db4 acl rds cfg a
  assume auth: "auth_new (ax_auth X) (be_auth env) db4 = (Inr a, db')"
    and st: "ap_sessions (st_api st) = au_sessions a"
      "ap_cache (st_api st) = (read_allowlist_db_memory (ax_cache X) (read_blocklist_db_memory (ax_cache X)
         (cache_new env rds db4 (rd_cache_capacity (cli_redis args)))))\<lparr>c_db := db'\<rparr>"
      "ap_metrics (st_api st) = (if an_prometheus (cli_analytics args) then Some metrics_new else None)"
      "st_producer st = producer_spawn (be_analytics_feature env) (ap_metrics (st_api st))
         (if clickhouse_on env args then Some (ka_brokers (cli_kafka args)) else None)"
  have "server_inv (ax_cache X) view (world_of (system_start st))"
    using assms(1,2,4) by (simp add: server_inv_def packets_ok_def system_start_def st(2) cache_new_def
        read_allowlist_db_memory_def read_blocklist_db_memory_def)
  moreover have "api_sessions_ok X users tokens ([], st_api st)"
    using assms(3) auth_new_sessions [OF auth] st(1) by (simp add: api_sessions_ok_def sessions_ok_def)
  moreover have "channel_ok p (channel_start (st_producer st))"
    unfolding st(4) by (rule channel_ok_start) (simp add: st(3))
  ultimately show ?thesis
    by (simp add: system_ok_def queries_parsed_def answers_ok_def taken_up_def system_start_def)
qed

end
