(* ===== verification/System_Events.thy ===== *)
theory System_Events
  imports System_Correct
begin

text \<open>
  The events of the running program and what becomes of them: every event tells of one reply that
  was given, with the name that was asked and the code of the reply, and none tells of the same
  reply as another. With the Kafka log and the consumer behind it this reaches the rows that
  ClickHouse stores.
\<close>

section \<open>Every event tells of a reply\<close>

text \<open>What a reply is reported as: the name in the message it answers and its response code.\<close>

definition report_of ::
  "('rt, 'x) dns_libs_scheme \<Rightarrow> socket_addr \<times> bytes \<times> bytes \<Rightarrow> (string \<times> u16) option" where
  "report_of L x =
     (case x of (cl, data, reply) \<Rightarrow>
        (case parse_udp L data of
           Inl _ \<Rightarrow> None
         | Inr q \<Rightarrow> Some (q_name q, rc_to_u16 L (rcode_from_raw reply))))"

definition event_report :: "dns_query_event \<Rightarrow> (string \<times> u16) option" where
  "event_report ev = Some (ev_domain ev, ev_response_code ev)"

definition events_told :: "('rt, 'x) dns_libs_scheme \<Rightarrow> ('rt, 'm, 'r, 'db, 'q) system \<Rightarrow> bool" where
  "events_told L s \<longleftrightarrow>
     image_mset event_report (mset (cs_submitted (sy_channel s))) \<subseteq># image_mset (report_of L) (mset (sy_replies s))"

lemma events_told_same:
  assumes "events_told L s" and "cs_submitted (sy_channel s') = cs_submitted (sy_channel s)"
    and "sy_replies s' = sy_replies s @ new"
  shows "events_told L s'"
proof -
  from assms(1) have "image_mset event_report (mset (cs_submitted (sy_channel s))) \<subseteq>#
      image_mset (report_of L) (mset (sy_replies s)) + image_mset (report_of L) (mset new)"
    unfolding events_told_def by (rule subset_mset.order_trans) simp
  with assms(2,3) show ?thesis by (simp add: events_told_def)
qed

lemma events_told_event:
  assumes "events_told L s" and "cs_submitted (sy_channel s') = cs_submitted (sy_channel s) @ [ev]"
    and "sy_replies s' = sy_replies s @ [x]" and "report_of L x = event_report ev"
  shows "events_told L s'"
  using assms by (simp add: events_told_def)

lemma submit_submitted [simp]: "cs_submitted (submit ev ch) = cs_submitted ch @ [ev]"
  by (simp add: submit_def)

text \<open>The two ways in which a reply is given and told.\<close>

lemma report_of_served:
  assumes "parse_udp L (q_raw q) = Inr q" and "good_served L q sv"
  shows "report_of L (cl, q_raw q, sv_raw sv) = event_report (event_of L rq q sv)"
  using assms by (simp add: report_of_def event_report_def event_of_def good_served_def)

lemma classify_report:
  assumes "server_inv L view w" and "classify L cfg rq buf w = (Reply reply, w')"
  shows "\<exists>ev. w_events w' = w_events w @ [ev] \<and> report_of L (cl, buf, reply) = event_report ev"
proof (cases "parse_udp L buf")
  case (Inl e)
  with assms(2) show ?thesis by (simp add: classify_def)
next
  case (Inr q)
  note q = parse_udp_query_ok [OF Inr]
  show ?thesis
  proof (cases "is_blocked L (w_cache w) (q_name q)")
    case True
    with assms(2) Inr resp_code_blocked [OF q, of L "blocking_mode cfg"] show ?thesis
      by (auto simp: classify_def send_event_def report_of_def event_report_def hot_event_def Let_def)
  next
    case False
    with assms(2) Inr show ?thesis
      by (auto simp: classify_def send_event_def report_of_def event_report_def hot_event_def Let_def
          split: prod.splits option.splits)
  qed
qed

lemma classify_quiet: "classify L cfg rq buf w = (out, w') \<Longrightarrow> \<forall>reply. out \<noteq> Reply reply \<Longrightarrow> w_events w' = w_events w"
  by (auto simp: classify_def send_event_def Let_def split: sum.splits if_splits prod.splits option.splits)

lemma begin_query_told:
  assumes told: "events_told L s" and inv: "server_inv L view (world_of s)" and p: "parse_udp L (q_raw q) = Inr q"
  shows "events_told L (begin_query L rq cl q s)"
proof -
  have quiet: "w_events w = []" if "lookup_phase L cfg rq q (world_of s) = (out, w)" for cfg out w
    using lookup_phase_events [OF that] by simp
  show ?thesis
  proof (cases rule: begin_query_cases [of L s rq q cl])
    case (waits w)
    with quiet [OF waits(1)] show ?thesis by (intro events_told_same [OF told, where new = "[]"]) simp_all
  next
    case (failed e w)
    with quiet [OF failed(1)] show ?thesis by (intro events_told_same [OF told, where new = "[]"]) simp_all
  next
    case (served sv w)
    from lookup_phase_good(2) [OF parse_udp_query_ok [OF p] inv served(1)]
    have "report_of L (cl, q_raw q, sv_raw sv) = event_report (event_of L rq q sv)"
      by (rule report_of_served [OF p])
    with served quiet [OF served(1)] show ?thesis
      by (intro events_told_event [OF told, where ev = "event_of L rq q sv" and x = "(cl, q_raw q, sv_raw sv)"])
        simp_all
  qed
qed

lemma finish_query_told:
  assumes told: "events_told L s" and inv: "server_inv L view (world_of s)" and p: "parse_udp L (q_raw q) = Inr q"
  shows "events_told L (finish_query L Q rq (cl, q, asked, ts) s)"
proof -
  let ?rq = "rq\<lparr>rq_timestamp_ms := ts\<rparr>"
  show ?thesis
  proof (cases rule: finish_query_cases [where L = L and Q = Q and s = s and rq = rq and q = q and cl = cl
        and asked = asked and ts = ts])
    case (failed e w)
    with upstream_phase_events [OF failed(1)] show ?thesis
      by (intro events_told_same [OF told, where new = "[]"]) simp_all
  next
    case (served sv w)
    from upstream_phase_good(2) [OF parse_udp_query_ok [OF p] inv served(1) refl]
    have "report_of L (cl, q_raw q, sv_raw sv) = event_report (event_of L ?rq q sv)"
      by (rule report_of_served [OF p])
    with served upstream_phase_events [OF served(1)] show ?thesis
      by (intro events_told_event [OF told, where ev = "event_of L ?rq q sv" and x = "(cl, q_raw q, sv_raw sv)"])
        simp_all
  qed
qed

lemma ask_worker_told:
  assumes told: "events_told L s" and inv: "server_inv L view (world_of s)"
  shows "events_told L (ask_worker L N acl rq cl packet s)"
proof (cases rule: ask_worker_cases [of L N acl rq cl packet s])
  case unanswered
  then show ?thesis by (intro events_told_same [OF told, where new = "[]"]) simp_all
next
  case (refused reply)
  then show ?thesis
    by (intro events_told_same [OF told, where new = "[(cl, take MONO_RECV_BUF packet, reply)]"]) simp_all
next
  case (replied reply w)
  from classify_report [OF inv replied(1)] obtain ev where "w_events w = [ev]"
    "report_of L (cl, take MONO_RECV_BUF packet, reply) = event_report ev" by auto
  with replied(2) show ?thesis
    by (intro events_told_event [OF told, where ev = ev and x = "(cl, take MONO_RECV_BUF packet, reply)"]) simp_all
next
  case (missed q w)
  with classify_quiet [OF missed(1)] show ?thesis
    by (intro events_told_same [OF told, where new = "[]"]) simp_all
next
  case (dropped w)
  with classify_quiet [OF dropped(1)] show ?thesis
    by (intro events_told_same [OF told, where new = "[]"]) simp_all
qed

lemma system_step_told:
  assumes "system_step X Q N acl p allowed s s'" and told: "events_told (ax_cache X) s"
    and "queries_parsed (ax_cache X) s" and inv: "server_inv (ax_cache X) view (world_of s)"
  shows "events_told (ax_cache X) s'"
proof -
  have same: "events_told (ax_cache X) t" "server_inv (ax_cache X) view (world_of t)"
    if "sy_channel t = sy_channel s" "sy_replies t = sy_replies s" "sy_api t = sy_api s" for t
    using that told inv by (simp_all add: events_told_def server_inv_def)
  from assms(1,3) show ?thesis
  proof (cases rule: system_stepE)
    case (malformed cl data)
    then show ?thesis by (intro same(1)) simp_all
  next
    case (handled rq cl q)
    then show ?thesis by (simp add: begin_query_told [OF same])
  next
    case (worker rq cl packet)
    with ask_worker_told [OF told inv] show ?thesis by simp
  next
    case (cold rq cl q ts)
    then show ?thesis by (simp add: begin_query_told [OF same])
  next
    case (answered rq cl q asked ts)
    with finish_query_told [OF told inv] show ?thesis by simp
  next
    case (managed env header req resp a)
    with told show ?thesis by (simp add: events_told_def call_api_sel [OF managed(2)])
  next
    case drained
    with told show ?thesis by (simp add: events_told_def drain_def Let_def split: list.split)
  qed
qed

interpretation telling: step_invariant "system_step X Q N acl p allowed"
  "\<lambda>s. (queries_parsed (ax_cache X) s \<and> system_ok X view users tokens p s) \<and> events_told (ax_cache X) s"
  for X :: "('rt, 'm, 'r, 'db, 'ph, 'f) api_libs" and Q :: "('sock, 'q) queue_libs"
    and N :: "('net, 'ndb, 'y) acl_libs_scheme" and acl p allowed view users tokens
proof
  fix s t
  assume inv: "(queries_parsed (ax_cache X) s \<and> system_ok X view users tokens p s) \<and> events_told (ax_cache X) s"
    and step: "system_step X Q N acl p allowed s t"
  from program.keeps [OF inv [THEN conjunct1] step] inv system_step_told [OF step _ _ system_okD(1)]
  show "(queries_parsed (ax_cache X) t \<and> system_ok X view users tokens p t) \<and> events_told (ax_cache X) t"
    by blast
qed

section \<open>From events to rows\<close>

text \<open>The payloads that reach the consumer, whatever their order, come from the Kafka log.\<close>

definition json_law :: "('rt, 'x) analytics_libs_scheme \<Rightarrow> (dns_query_event \<Rightarrow> string option) \<Rightarrow> bool" where
  "json_law A payload_of \<longleftrightarrow>
     (\<forall>ev text. payload_of ev = Some text \<longrightarrow> event_from_json A (map byte_of_char text) = Some ev)"

definition delivered :: "(string \<times> string) list \<Rightarrow> message list \<Rightarrow> bool" where
  "delivered log ms \<longleftrightarrow>
     image_mset ms_payload (mset ms) \<subseteq># image_mset (\<lambda>(key, text). Some (map byte_of_char text)) (mset log)"

definition payload_rows :: "('rt, 'x) analytics_libs_scheme \<Rightarrow> bytes option \<Rightarrow> dns_query_row multiset" where
  "payload_rows A p = (case Option.bind p (event_from_json A) of None \<Rightarrow> {#} | Some e \<Rightarrow> {#row_of_event A e#})"

lemma mset_received_rows: "mset (received_rows A ms) = (\<Sum>p \<in># image_mset ms_payload (mset ms). payload_rows A p)"
  by (induction ms) (simp_all add: received_rows_def message_rows_def payload_rows_def split: option.split)

lemma sum_mset_below:
  fixes f :: "'a \<Rightarrow> 'b multiset"
  assumes "A \<subseteq># B"
  shows "(\<Sum>x \<in># A. f x) \<subseteq># (\<Sum>x \<in># B. f x)"
proof -
  from assms obtain C where "B = A + C" by (auto simp: mset_subset_eq_exists_conv)
  then show ?thesis by simp
qed

lemma rows_of_log:
  assumes "json_law A payload_of"
  shows "(\<Sum>p \<in># image_mset (\<lambda>(key, text). Some (map byte_of_char text))
      (mset (concat (map (\<lambda>ev. send_kafka payload_of ev []) evs))). payload_rows A p)
    \<subseteq># image_mset (row_of_event A) (mset evs)"
proof (induction evs)
  case (Cons ev evs)
  show ?case
  proof (cases "payload_of ev")
    case None
    with Cons show ?thesis by (simp add: send_kafka_def below_add_mset)
  next
    case (Some payload)
    with assms have "event_from_json A (map byte_of_char payload) = Some ev" by (simp add: json_law_def)
    with Cons Some show ?thesis by (simp add: send_kafka_def payload_rows_def)
  qed
qed simp

lemma received_rows_below:
  assumes "json_law A payload_of" and "delivered (concat (map (\<lambda>ev. send_kafka payload_of ev []) evs)) ms"
  shows "mset (received_rows A ms) \<subseteq># image_mset (row_of_event A) (mset evs)"
  unfolding mset_received_rows
  using sum_mset_below [OF assms(2) [unfolded delivered_def]] rows_of_log [OF assms(1)]
  by (rule subset_mset.order_trans)

lemma subseq_below: "subseq xs ys \<Longrightarrow> mset xs \<subseteq># mset ys"
  by (induction rule: list_emb.induct) (auto intro: below_add_mset)

definition code_text :: "('rt, 'x) analytics_libs_scheme \<Rightarrow> u16 \<Rightarrow> string" where
  "code_text A c = rc_from_display A (ucast (drop_bit 4 c)) (ucast (c AND 0x0F))"

definition row_report :: "dns_query_row \<Rightarrow> (string \<times> string) option" where
  "row_report row = Some (row_domain row, row_response_code row)"

definition told_as :: "('rt, 'x) analytics_libs_scheme \<Rightarrow> (string \<times> u16) option \<Rightarrow> (string \<times> string) option" where
  "told_as A = map_option (\<lambda>(n, c). (n, code_text A c))"

lemma row_report_event: "row_report (row_of_event A ev) = told_as A (event_report ev)"
  by (simp add: row_report_def row_of_event_def told_as_def event_report_def code_text_def)

lemma stored_below:
  assumes told: "events_told L s" and chan: "channel_ok payload_of (sy_channel s)"
    and log: "pr_kafka (cs_producer (sy_channel s)) = Some log"
    and json: "json_law A payload_of" and "delivered log (cn_received c)" and ok: "consumer_ok A c"
  shows "image_mset row_report (mset (co_stored (cn_consumer c))) \<subseteq>#
    image_mset (\<lambda>x. told_as A (report_of L x)) (mset (sy_replies s))"
proof -
  let ?ch = "sy_channel s"
  from chan log have "log = concat (map (\<lambda>ev. send_kafka payload_of ev []) (cs_processed ?ch))"
    by (simp add: channel_ok_def)
  with assms(5) have rows: "mset (received_rows A (cn_received c)) \<subseteq># image_mset (row_of_event A) (mset (cs_processed ?ch))"
    using received_rows_below [OF json] by simp
  from chan have "subseq (cs_processed ?ch @ pr_queue (cs_producer ?ch)) (cs_submitted ?ch)"
    by (simp add: channel_ok_def)
  from subseq_below [OF this] have "mset (cs_processed ?ch) \<subseteq># mset (cs_submitted ?ch)"
    by (metis mset_append mset_subset_eq_add_left subset_mset.order_trans)
  then have processed: "image_mset (row_of_event A) (mset (cs_processed ?ch)) \<subseteq>#
      image_mset (row_of_event A) (mset (cs_submitted ?ch))"
    by (rule image_mset_subseteq_mono)
  from ok have "mset (co_stored (cn_consumer c)) \<subseteq># mset (co_attempted (cn_consumer c))"
    "mset (co_attempted (cn_consumer c)) \<subseteq># mset (received_rows A (cn_received c))"
    unfolding consumer_ok_def by (simp add: subseq_below, metis mset_append mset_subset_eq_add_left)
  then have "mset (co_stored (cn_consumer c)) \<subseteq># image_mset (row_of_event A) (mset (cs_submitted ?ch))"
    using rows processed by (metis subset_mset.order_trans)
  then have "image_mset row_report (mset (co_stored (cn_consumer c))) \<subseteq>#
      image_mset row_report (image_mset (row_of_event A) (mset (cs_submitted ?ch)))"
    by (rule image_mset_subseteq_mono)
  also have "\<dots> = image_mset (told_as A) (image_mset event_report (mset (cs_submitted ?ch)))"
    by (simp add: image_mset.compositionality comp_def row_report_event)
  also have "\<dots> \<subseteq># image_mset (told_as A) (image_mset (report_of L) (mset (sy_replies s)))"
    using told unfolding events_told_def by (rule image_mset_subseteq_mono)
  finally show ?thesis by (simp add: image_mset.compositionality comp_def)
qed

end
