(* ===== verification/Listeners.thy ===== *)
theory Listeners
  imports Startup
begin

text \<open>
  The Tokio listeners of \<open>backend/src/dns/server.rs\<close>: \<open>Server::run\<close> with the UDP loop and the accept
  loop of TCP side by side, the standalone \<open>serve_tcp\<close> of the Monoio runtime, and every TCP
  connection as a task of its own that takes its turns between those of the others. Then the
  sockets of the pinned workers in \<open>dns/mono.rs\<close>, and the end of \<open>run\<close> in \<open>main.rs\<close>, which says
  what of this a failure stops.
\<close>

section \<open>Errors\<close>

datatype server_error = Bind_Udp socket_addr io_error | Bind_Tcp socket_addr io_error | Socket_Error io_error

section \<open>A connection, turn by turn\<close>

text \<open>
  \<open>cn_unread\<close> is what has arrived and not been read yet, \<open>cn_result\<close> the result of the task once it
  has ended. \<open>cn_arrived\<close> and \<open>cn_served\<close> record all that arrived, and the messages answered with
  their replies.
\<close>

record conn =
  cn_peer :: socket_addr
  cn_unread :: bytes
  cn_sent :: bytes
  cn_result :: "conn_result option"
  cn_arrived :: bytes
  cn_served :: "(bytes \<times> bytes) list"

definition conn_open :: "socket_addr \<Rightarrow> conn" where
  "conn_open peer = \<lparr>cn_peer = peer, cn_unread = [], cn_sent = [], cn_result = None, cn_arrived = [], cn_served = []\<rparr>"

definition conn_arrive :: "bytes \<Rightarrow> conn \<Rightarrow> conn" where
  "conn_arrive data c = c\<lparr>cn_unread := cn_unread c @ data, cn_arrived := cn_arrived c @ data\<rparr>"

definition msg_len :: "bytes \<Rightarrow> nat" where
  "msg_len inp = unat (u16_from_be_bytes (inp ! 0) (inp ! 1))"

text \<open>The two places where an iteration of \<open>handle_tcp_conn\<close> waits for the peer.\<close>

definition conn_waits :: "conn \<Rightarrow> bool" where
  "conn_waits c \<longleftrightarrow>
     (let inp = cn_unread c in
      length inp < 2 \<or>
      (msg_len inp \<noteq> 0 \<and> \<not> msg_len inp > TCP_MAX_MSG \<and> length (drop 2 inp) < msg_len inp))"

text \<open>The stream ends while the task waits.\<close>

definition conn_ended :: "stream_end \<Rightarrow> conn \<Rightarrow> conn" where
  "conn_ended fin c =
     (if length (cn_unread c) < 2 then c\<lparr>cn_result := Some (header_end fin)\<rparr>
      else case body_end fin of Conn_Waits \<Rightarrow> c | r \<Rightarrow> c\<lparr>cn_result := Some r\<rparr>)"

text \<open>An iteration that has its message; \<open>ok1\<close> and \<open>ok2\<close> tell whether the two writes succeed.\<close>

definition conn_turn ::
  "('e \<Rightarrow> bytes \<Rightarrow> 'w \<Rightarrow> ('x + bytes) \<times> 'w) \<Rightarrow> 'e \<Rightarrow> bool \<Rightarrow> bool \<Rightarrow> conn \<Rightarrow> 'w \<Rightarrow> conn \<times> 'w" where
  "conn_turn run env ok1 ok2 c w =
     (let inp = cn_unread c; n = msg_len inp in
      if n = 0 \<or> n > TCP_MAX_MSG then (c\<lparr>cn_unread := drop 2 inp, cn_result := Some Conn_Closed\<rparr>, w)
      else
        let msg = take n (drop 2 inp);
            res = run env msg w;
            c1 = c\<lparr>cn_unread := drop n (drop 2 inp)\<rparr>
        in case fst res of
             Inl _ \<Rightarrow> (c1\<lparr>cn_result := Some Conn_Closed\<rparr>, snd res)
           | Inr response \<Rightarrow>
               let resp_len = u16_to_be_bytes (of_nat (length response)) in
               if \<not> ok1 then (c1\<lparr>cn_result := Some Conn_Error\<rparr>, snd res)
               else if \<not> ok2 then (c1\<lparr>cn_sent := cn_sent c1 @ resp_len, cn_result := Some Conn_Error\<rparr>, snd res)
               else (c1\<lparr>cn_sent := cn_sent c1 @ resp_len @ response, cn_served := cn_served c1 @ [(msg, response)]\<rparr>,
                     snd res))"

section \<open>The listeners\<close>

text \<open>
  The accept loop spawns a task for each connection; an error of \<open>accept\<close> ends the loop, not the
  tasks. This is \<open>serve_tcp\<close>, as a method and as the function for the Monoio runtime.
\<close>

record 'w tcp_server =
  tc_conns :: "conn list"
  tc_ended :: "server_error option"
  tc_world :: 'w

definition tcp_start :: "'w \<Rightarrow> 'w tcp_server" where
  "tcp_start w = \<lparr>tc_conns = [], tc_ended = None, tc_world = w\<rparr>"

definition tcp_accept :: "io_error + socket_addr \<Rightarrow> 'w tcp_server \<Rightarrow> 'w tcp_server" where
  "tcp_accept r s =
     (case r of Inl e \<Rightarrow> s\<lparr>tc_ended := Some (Socket_Error e)\<rparr> | Inr src \<Rightarrow> s\<lparr>tc_conns := tc_conns s @ [conn_open src]\<rparr>)"

definition put_conn :: "nat \<Rightarrow> conn \<Rightarrow> 'w \<Rightarrow> 'w tcp_server \<Rightarrow> 'w tcp_server" where
  "put_conn i c w s = s\<lparr>tc_conns := (tc_conns s)[i := c], tc_world := w\<rparr>"

inductive tcp_step ::
  "('e \<Rightarrow> bytes \<Rightarrow> 'w \<Rightarrow> ('x + bytes) \<times> 'w) \<Rightarrow> 'w tcp_server \<Rightarrow> 'w tcp_server \<Rightarrow> bool"
  for run :: "'e \<Rightarrow> bytes \<Rightarrow> 'w \<Rightarrow> ('x + bytes) \<times> 'w" where
  accept: "tc_ended s = None \<Longrightarrow> tcp_step run s (tcp_accept r s)"
| arrive: "i < length (tc_conns s) \<Longrightarrow>
     tcp_step run s (put_conn i (conn_arrive data (tc_conns s ! i)) (tc_world s) s)"
| turn: "i < length (tc_conns s) \<Longrightarrow> c = tc_conns s ! i \<Longrightarrow> cn_result c = None \<Longrightarrow> \<not> conn_waits c \<Longrightarrow>
     conn_turn run env ok1 ok2 c (tc_world s) = (c', w) \<Longrightarrow> tcp_step run s (put_conn i c' w s)"
| peer_ends: "i < length (tc_conns s) \<Longrightarrow> c = tc_conns s ! i \<Longrightarrow> cn_result c = None \<Longrightarrow> conn_waits c \<Longrightarrow>
     tcp_step run s (put_conn i (conn_ended fin c) (tc_world s) s)"

text \<open>
  \<open>Server::run\<close>: both loops at once on one handler. \<open>select!\<close> returns with the first of them that
  fails; the tasks that were spawned do not stop with it.
\<close>

record 'w tokio_server =
  sv_udp :: "'w udp_server"
  sv_conns :: "conn list"
  sv_result :: "server_error option"

definition server_start :: "'w \<Rightarrow> 'w tokio_server" where
  "server_start w = \<lparr>sv_udp = udp_start w, sv_conns = [], sv_result = None\<rparr>"

definition tcp_part :: "'w tokio_server \<Rightarrow> 'w tcp_server" where
  "tcp_part s = \<lparr>tc_conns = sv_conns s, tc_ended = sv_result s, tc_world = us_world (sv_udp s)\<rparr>"

definition put_tcp :: "'w tcp_server \<Rightarrow> 'w tokio_server \<Rightarrow> 'w tokio_server" where
  "put_tcp t s = s\<lparr>sv_udp := (sv_udp s)\<lparr>us_world := tc_world t\<rparr>, sv_conns := tc_conns t, sv_result := tc_ended t\<rparr>"

inductive server_step ::
  "('e \<Rightarrow> bytes \<Rightarrow> 'w \<Rightarrow> ('x + bytes) \<times> 'w) \<Rightarrow> 'w tokio_server \<Rightarrow> 'w tokio_server \<Rightarrow> bool"
  for run :: "'e \<Rightarrow> bytes \<Rightarrow> 'w \<Rightarrow> ('x + bytes) \<times> 'w" where
  prepare: "sv_result s = None \<Longrightarrow> us_current (sv_udp s) = None \<Longrightarrow>
     server_step run s (s\<lparr>sv_udp := udp_prepare (sv_udp s)\<rparr>)"
| receive: "sv_result s = None \<Longrightarrow> us_current (sv_udp s) = Some buf \<Longrightarrow>
     server_step run s (s\<lparr>sv_udp := udp_receive src data buf (sv_udp s)\<rparr>)"
| receive_fails: "sv_result s = None \<Longrightarrow> us_current (sv_udp s) = Some buf \<Longrightarrow>
     server_step run s (s\<lparr>sv_result := Some (Socket_Error e)\<rparr>)"
| task: "t \<in> set (us_tasks (sv_udp s)) \<Longrightarrow>
     server_step run s (s\<lparr>sv_udp := udp_task run env send_ok t (sv_udp s)\<rparr>)"
| tcp: "tcp_step run (tcp_part s) t \<Longrightarrow> server_step run s (put_tcp t s)"

text \<open>Binding, which comes before: UDP first, then TCP on the same address.\<close>

definition bind_both :: "socket_addr \<Rightarrow> io_error option \<Rightarrow> io_error option \<Rightarrow> 'w \<Rightarrow> server_error + 'w tokio_server" where
  "bind_both addr udp tcp w =
     (case udp of
        Some e \<Rightarrow> Inl (Bind_Udp addr e)
      | None \<Rightarrow> (case tcp of Some e \<Rightarrow> Inl (Bind_Tcp addr e) | None \<Rightarrow> Inr (server_start w)))"

definition bind_tcp :: "socket_addr \<Rightarrow> io_error option \<Rightarrow> 'w \<Rightarrow> server_error + 'w tcp_server" where
  "bind_tcp addr tcp w = (case tcp of Some e \<Rightarrow> Inl (Bind_Tcp addr e) | None \<Rightarrow> Inr (tcp_start w))"

section \<open>Pinned workers and the end of the start\<close>

text \<open>\<open>bind_reuseport\<close>: six calls, of which the first that fails gives the error.\<close>

record worker_sys =
  ws_socket :: "io_error option"
  ws_reuse_address :: "io_error option"
  ws_reuse_port :: "io_error option"
  ws_nonblocking :: "io_error option"
  ws_bind :: "io_error option"
  ws_from_std :: "io_error option"

definition bind_reuseport :: "worker_sys \<Rightarrow> io_error option" where
  "bind_reuseport sys =
     (case ws_socket sys of Some e \<Rightarrow> Some e
      | None \<Rightarrow> (case ws_reuse_address sys of Some e \<Rightarrow> Some e
      | None \<Rightarrow> (case ws_reuse_port sys of Some e \<Rightarrow> Some e
      | None \<Rightarrow> (case ws_nonblocking sys of Some e \<Rightarrow> Some e
      | None \<Rightarrow> ws_bind sys))))"

text \<open>What a worker thread becomes: the loop of \<open>Worker::run\<close> on a core, or its end with a message.\<close>

datatype 'c worker_thread = Serving nat "'c option" | Stopped nat io_error

definition spawn_workers :: "(nat \<Rightarrow> worker_sys) \<Rightarrow> 'c option list \<Rightarrow> 'c worker_thread list" where
  "spawn_workers sys cores =
     map (\<lambda>(i, core).
       (case bind_reuseport (sys i) of
          Some e \<Rightarrow> Stopped i e
        | None \<Rightarrow> (case ws_from_std (sys i) of Some e \<Rightarrow> Stopped i e | None \<Rightarrow> Serving i core)))
       (enumerate 0 cores)"

text \<open>
  The end of \<open>run\<close>. \<open>Exited\<close> is the call of \<open>exit(1)\<close> with the error that led to it. With the Monoio
  runtime \<open>run\<close> waits for ever, whatever happened to the workers and to the TCP task. The API
  listens in a task of its own, whose panic ends the program when it is built to abort (as in the
  release profile) and only the task otherwise.
\<close>

datatype ('c, 'w) launched =
    Exited server_error
  | Tokio_Runs "'w tokio_server"
  | Monoio_Runs "'c worker_thread list" "server_error + 'w tcp_server"

definition launch ::
  "dns_args \<Rightarrow> 'c option list \<Rightarrow> io_error option \<Rightarrow> io_error option \<Rightarrow> (nat \<Rightarrow> worker_sys) \<Rightarrow> 'w \<Rightarrow> ('c, 'w) launched" where
  "launch d pins udp tcp sys w =
     (case dn_runtime d of
        Tokio \<Rightarrow> (case bind_both (dn_bind d) udp tcp w of Inl e \<Rightarrow> Exited e | Inr s \<Rightarrow> Tokio_Runs s)
      | Monoio \<Rightarrow> Monoio_Runs (spawn_workers sys pins) (bind_tcp (dn_bind d) tcp w))"

datatype api_listener = Api_Serves | Api_Gone | Program_Aborted

definition api_listen :: "bool \<Rightarrow> io_error option \<Rightarrow> api_listener" where
  "api_listen panic_aborts bind =
     (case bind of None \<Rightarrow> Api_Serves | Some _ \<Rightarrow> (if panic_aborts then Program_Aborted else Api_Gone))"

end
