(* ===== verification/Listeners_Correct.thy ===== *)
theory Listeners_Correct
  imports Listeners
begin

text \<open>
  What the listeners owe each connection, whatever the order in which datagrams, connections,
  bytes and tasks take their turns; that the turns of a connection on its own are the loop of
  \<open>handle_tcp_conn\<close>; and which failures stop what.
\<close>

section \<open>One connection keeps its stream\<close>

text \<open>
  The bytes that arrived are the messages served, framed, and what is still to be read; the bytes
  sent are the replies, framed in the same order, and at most a length prefix more when a write
  failed.
\<close>

definition conn_ok :: "conn \<Rightarrow> bool" where
  "conn_ok c \<longleftrightarrow>
     (\<exists>rest. cn_arrived c = frames (map fst (cn_served c)) @ rest \<and> (cn_result c = None \<longrightarrow> rest = cn_unread c)) \<and>
     (\<exists>tail. cn_sent c = frames (map snd (cn_served c)) @ tail \<and> length tail \<le> 2 \<and>
        (cn_result c \<noteq> Some Conn_Error \<longrightarrow> tail = [])) \<and>
     (\<forall>(m, r) \<in> set (cn_served c). framable m \<and> txid_matches m r \<and> length r \<le> RECV_BUF)"

lemma conn_ok_open: "conn_ok (conn_open peer)"
  by (simp add: conn_ok_def conn_open_def)

lemma conn_ok_arrive: "conn_ok c \<Longrightarrow> conn_ok (conn_arrive data c)"
  by (auto simp: conn_ok_def conn_arrive_def)

lemma conn_ok_ended: "conn_ok c \<Longrightarrow> cn_result c = None \<Longrightarrow> conn_ok (conn_ended fin c)"
  by (cases fin) (auto simp: conn_ok_def conn_ended_def header_end_def body_end_def)

text \<open>The first message of an input that has one.\<close>

lemma frame_read:
  assumes "2 \<le> length inp" and "msg_len inp \<le> length (drop 2 inp)"
  shows "frame (take (msg_len inp) (drop 2 inp)) @ drop (msg_len inp) (drop 2 inp) = inp"
proof -
  obtain a b rest where inp: "inp = a # b # rest"
    using assms(1) by (cases inp; cases "tl inp") auto
  have "min (length rest) (msg_len inp) = msg_len inp" using assms(2) by (simp add: inp)
  then have "u16_to_be_bytes (of_nat (length (take (msg_len inp) rest))) = [a, b]"
    by (simp add: msg_len_def inp)
  then show ?thesis by (simp add: frame_def inp)
qed

lemma frames_append: "frames (xs @ ys) = frames xs @ frames ys"
  by (simp add: frames_def)

lemma framable_read:
  "msg_len inp \<noteq> 0 \<Longrightarrow> msg_len inp \<le> TCP_MAX_MSG \<Longrightarrow> msg_len inp \<le> length (drop 2 inp) \<Longrightarrow>
     framable (take (msg_len inp) (drop 2 inp))"
  by (auto simp: framable_def)

definition tcp_ok :: "('w \<Rightarrow> bool) \<Rightarrow> 'w tcp_server \<Rightarrow> bool" where
  "tcp_ok winv s \<longleftrightarrow> winv (tc_world s) \<and> (\<forall>c \<in> set (tc_conns s). conn_ok c)"

definition server_ok :: "('w \<Rightarrow> bool) \<Rightarrow> 'w tokio_server \<Rightarrow> bool" where
  "server_ok winv s \<longleftrightarrow> udp_ok winv (sv_udp s) \<and> (\<forall>c \<in> set (sv_conns s). conn_ok c)"

text \<open>What a turn does, with the header read.\<close>

lemma conn_turn_closes:
  "msg_len (cn_unread c) = 0 \<or> msg_len (cn_unread c) > TCP_MAX_MSG \<Longrightarrow>
     conn_turn run env ok1 ok2 c w =
       (c\<lparr>cn_unread := drop 2 (cn_unread c), cn_result := Some Conn_Closed\<rparr>, w)"
  by (auto simp: conn_turn_def Let_def)

lemma conn_ok_serves:
  assumes ok: "conn_ok c" "cn_result c = None" and full: "2 \<le> length (cn_unread c)"
      "msg_len (cn_unread c) \<le> length (drop 2 (cn_unread c))"
    and msg: "msg = take (msg_len (cn_unread c)) (drop 2 (cn_unread c))"
    and reply: "framable msg" "txid_matches msg reply" "length reply \<le> RECV_BUF"
  shows "conn_ok (c\<lparr>cn_unread := drop (msg_len (cn_unread c)) (drop 2 (cn_unread c)),
    cn_sent := cn_sent c @ frame reply, cn_served := cn_served c @ [(msg, reply)]\<rparr>)"
proof -
  let ?rest = "drop (msg_len (cn_unread c)) (drop 2 (cn_unread c))"
  from ok have arrived: "cn_arrived c = frames (map fst (cn_served c)) @ cn_unread c"
    and sent: "cn_sent c = frames (map snd (cn_served c))"
    by (auto simp: conn_ok_def)
  have "cn_arrived c = frames (map fst (cn_served c @ [(msg, reply)])) @ ?rest"
    unfolding arrived msg by (simp only: map_append frames_append list.map fst_conv frames_simps
        append_Nil2 append_assoc frame_read [OF full])
  moreover have "cn_sent c @ frame reply = frames (map snd (cn_served c @ [(msg, reply)]))"
    by (simp add: sent frames_append)
  ultimately show ?thesis
    using ok reply unfolding conn_ok_def by (intro conjI exI [of _ ?rest] exI [of _ "[]"]) auto
qed

context reply_service begin

lemma conn_ok_turn:
  assumes ok: "conn_ok c" and run: "cn_result c = None" and ready: "\<not> conn_waits c"
    and w: "inv w" and turn: "conn_turn run_query env ok1 ok2 c w = (c', w')"
  shows "conn_ok c' \<and> inv w'"
proof (cases "msg_len (cn_unread c) = 0 \<or> msg_len (cn_unread c) > TCP_MAX_MSG")
  case True
  with turn w ok run show ?thesis by (auto simp: conn_turn_closes conn_ok_def)
next
  case False
  let ?msg = "take (msg_len (cn_unread c)) (drop 2 (cn_unread c))"
  from False ready have full: "2 \<le> length (cn_unread c)" "msg_len (cn_unread c) \<le> length (drop 2 (cn_unread c))"
    by (auto simp: conn_waits_def Let_def)
  obtain r w1 where res: "run_query env ?msg w = (r, w1)" by fastforce
  have w1: "inv w1" by (rule keeps_inv [OF w res])
  show ?thesis
  proof (cases "(\<exists>e. r = Inl e) \<or> \<not> ok1 \<or> \<not> ok2")
    case True
    with turn res False w1 ok run show ?thesis
      by (auto simp: conn_turn_def Let_def conn_ok_def split: if_splits sum.splits)
  next
    case goes: False
    then obtain reply where r: "r = Inr reply" and "ok1" "ok2" by (cases r) auto
    note reply = reply_txid [OF w res [unfolded r]] reply_fits [OF w res [unfolded r]]
    have "framable ?msg" using framable_read False full by simp
    from conn_ok_serves [OF ok run full refl this reply] w1 turn res r False goes show ?thesis
      by (simp add: conn_turn_def Let_def frame_def)
  qed
qed

lemma tcp_ok_put: "tcp_ok inv s \<Longrightarrow> conn_ok c \<Longrightarrow> inv w \<Longrightarrow> tcp_ok inv (put_conn i c w s)"
  using set_update_subset_insert [of "tc_conns s" i c] by (auto simp: tcp_ok_def put_conn_def)

lemma tcp_step_ok: "tcp_ok inv s \<Longrightarrow> tcp_step run_query s s' \<Longrightarrow> tcp_ok inv s'"
proof -
  assume ok: "tcp_ok inv s" and "tcp_step run_query s s'"
  have conn: "conn_ok (tc_conns s ! i)" if "i < length (tc_conns s)" for i
    using ok that by (simp add: tcp_ok_def)
  from ok have w: "inv (tc_world s)" by (simp add: tcp_ok_def)
  from \<open>tcp_step run_query s s'\<close> show ?thesis
  proof cases
    case (accept r)
    with ok show ?thesis by (auto simp: tcp_ok_def tcp_accept_def conn_ok_open split: sum.split)
  next
    case (arrive i data)
    with tcp_ok_put [OF ok conn_ok_arrive [OF conn] w] show ?thesis by simp
  next
    case (turn i c env ok1 ok2 c' w')
    from conn_ok_turn [OF conn [OF turn(2), folded turn(3)] turn(4,5) w turn(6)] tcp_ok_put [OF ok] turn(1)
    show ?thesis by simp
  next
    case (peer_ends i c fin)
    from tcp_ok_put [OF ok conn_ok_ended [OF conn [OF peer_ends(2), folded peer_ends(3)] peer_ends(4)] w] peer_ends(1)
    show ?thesis by simp
  qed
qed

lemma server_step_ok: "server_ok inv s \<Longrightarrow> server_step run_query s s' \<Longrightarrow> server_ok inv s'"
proof -
  assume ok: "server_ok inv s" and "server_step run_query s s'"
  from this(2) show ?thesis
  proof cases
    case (tcp t)
    have "tcp_ok inv (tcp_part s)" using ok by (simp add: server_ok_def tcp_ok_def tcp_part_def udp_ok_def)
    from tcp_step_ok [OF this tcp(2)] have "tcp_ok inv t" .
    with ok tcp(1) show ?thesis by (simp add: server_ok_def tcp_ok_def put_tcp_def udp_ok_def)
  qed (use ok in \<open>simp_all add: server_ok_def udp_ok_prepare udp_ok_receive udp_ok_task\<close>)
qed

lemma server_ok_start: "inv w \<Longrightarrow> server_ok inv (server_start w)"
  by (simp add: server_ok_def server_start_def udp_ok_start)

end

sublocale reply_service \<subseteq> tcp: step_invariant "tcp_step run_query" "tcp_ok inv"
  by unfold_locales (rule tcp_step_ok)

sublocale reply_service \<subseteq> tokio: step_invariant "server_step run_query" "server_ok inv"
  by unfold_locales (rule server_step_ok)

text \<open>The handler with the configuration that is loaded for each message.\<close>

definition handle_with ::
  "('rt, 'm, 'r, 'db, 'x) cache_libs_scheme \<Rightarrow> ('sock, 'q) queue_libs \<Rightarrow> runtime_config \<times> 'sock request \<Rightarrow>
     bytes \<Rightarrow> ('m, 'r, 'db, 'q) world \<Rightarrow> (handler_error + bytes) \<times> ('m, 'r, 'db, 'q) world" where
  "handle_with L Q x data w = handle L Q (fst x) (snd x) data w"

interpretation live: reply_service "handle_with L Q" "server_inv L view"
  for L :: "('rt, 'm, 'r, 'db, 'x) cache_libs_scheme" and Q :: "('sock, 'q) queue_libs" and view
  unfolding handle_with_def [abs_def]
  by unfold_locales (blast intro: full.keeps_inv full.reply_txid full.reply_fits)+

section \<open>The turns of one connection\<close>

text \<open>A connection on its own: turns while a message is there, then the end of the stream.\<close>

function conn_run ::
  "('e \<Rightarrow> bytes \<Rightarrow> 'w \<Rightarrow> ('x + bytes) \<times> 'w) \<Rightarrow> (nat \<Rightarrow> 'e) \<Rightarrow> (nat \<Rightarrow> bool) \<Rightarrow> stream_end \<Rightarrow>
     nat \<Rightarrow> conn \<Rightarrow> 'w \<Rightarrow> conn \<times> 'w" where
  "conn_run run envs write_ok fin n c w =
     (if cn_result c \<noteq> None then (c, w)
      else if conn_waits c then (conn_ended fin c, w)
      else
        let next_turn = conn_turn run (envs n) (write_ok (2 * n)) (write_ok (2 * n + 1)) c w
        in conn_run run envs write_ok fin (Suc n) (fst next_turn) (snd next_turn))"
  by pat_completeness auto

termination conn_run
proof (relation "measure (\<lambda>(run, envs, write_ok, fin, n, c, w). length (cn_unread c))", goal_cases)
  case (2 run envs write_ok fin n c w x)
  then have "2 \<le> length (cn_unread c)" by (auto simp: conn_waits_def Let_def)
  then show ?case
    by (auto simp: 2(3) conn_turn_def Let_def split: sum.split)
qed simp

declare conn_run.simps [simp del]

lemma conn_run_done: "cn_result c \<noteq> None \<Longrightarrow> conn_run run envs write_ok fin n c w = (c, w)"
  by (simp add: conn_run.simps)

lemma conn_run_turn:
  "cn_result c = None \<Longrightarrow> \<not> conn_waits c \<Longrightarrow>
     conn_turn run (envs n) (write_ok (2 * n)) (write_ok (2 * n + 1)) c w = (c1, w1) \<Longrightarrow>
     conn_run run envs write_ok fin n c w = conn_run run envs write_ok fin (Suc n) c1 w1"
  by (subst conn_run.simps) (simp add: Let_def)

text \<open>One iteration of the loop of \<open>handle_tcp_conn\<close> against one turn.\<close>

lemma conn_loop_waits:
  "conn_waits c \<Longrightarrow> cn_result c = None \<Longrightarrow> conn_loop run envs write_ok fin n (cn_unread c) w =
     (unwrap_or (cn_result (conn_ended fin c)) Conn_Waits, [], w) \<and> cn_sent (conn_ended fin c) = cn_sent c"
  by (subst conn_loop.simps)
    (auto simp: conn_waits_def conn_ended_def msg_len_def Let_def header_end_def body_end_def
      split: stream_end.split)

lemma not_waits_reads:
  assumes "\<not> conn_waits c"
  shows "\<not> length (cn_unread c) < 2"
    and "msg_len (cn_unread c) = unat (u16_from_be_bytes (cn_unread c ! 0) (cn_unread c ! 1))"
    and "msg_len (cn_unread c) \<noteq> 0 \<Longrightarrow> \<not> msg_len (cn_unread c) > TCP_MAX_MSG \<Longrightarrow>
      \<not> length (drop 2 (cn_unread c)) < msg_len (cn_unread c)"
  using assms by (auto simp: conn_waits_def Let_def msg_len_def)

lemma conn_turn_appends:
  assumes "conn_turn run env ok1 ok2 c w = (c1, w1)"
  shows "\<exists>more. cn_sent c1 = cn_sent c @ more"
  using assms by (auto simp: conn_turn_def Let_def split: sum.splits if_splits)

lemma conn_loop_turn:
  assumes "cn_result c = None" and wait: "\<not> conn_waits c"
    and turn: "conn_turn run (envs n) (write_ok (2 * n)) (write_ok (2 * n + 1)) c w = (c1, w1)"
  shows "conn_loop run envs write_ok fin n (cn_unread c) w =
    (case cn_result c1 of
       Some r \<Rightarrow> (r, drop (length (cn_sent c)) (cn_sent c1), w1)
     | None \<Rightarrow>
         (case conn_loop run envs write_ok fin (Suc n) (cn_unread c1) w1 of (r, sent, w') \<Rightarrow>
            (r, drop (length (cn_sent c)) (cn_sent c1) @ sent, w')))"
proof (cases "msg_len (cn_unread c) = 0 \<or> msg_len (cn_unread c) > TCP_MAX_MSG")
  case True
  note t = turn [unfolded conn_turn_closes [OF True]]
  from True t not_waits_reads [OF wait] show ?thesis
    by (subst conn_loop.simps) (auto simp: Let_def)
next
  case False
  obtain r w2 where res: "run (envs n) (take (msg_len (cn_unread c)) (drop 2 (cn_unread c))) w = (r, w2)"
    by fastforce
  note reads = not_waits_reads [OF wait]
  show ?thesis
    using False res reads(1,3) turn assms(1)
    by (subst conn_loop.simps, simp only: reads(2) [symmetric])
      (auto simp: conn_turn_def Let_def case_prod_beta' split: sum.splits if_splits)
qed

text \<open>So the loop and the turns come to the same result, bytes and state.\<close>

lemma conn_loop_run:
  assumes "cn_result c = None"
  shows "conn_loop run envs write_ok fin n (cn_unread c) w =
    (case conn_run run envs write_ok fin n c w of
       (c', w') \<Rightarrow> (unwrap_or (cn_result c') Conn_Waits, drop (length (cn_sent c)) (cn_sent c'), w')) \<and>
    (\<exists>more. cn_sent (fst (conn_run run envs write_ok fin n c w)) = cn_sent c @ more)"
  using assms
proof (induction run envs write_ok fin n c w rule: conn_run.induct)
  case (1 run envs write_ok fin n c w)
  show ?case
  proof (cases "conn_waits c")
    case True
    then have "conn_run run envs write_ok fin n c w = (conn_ended fin c, w)"
      using 1(2) by (subst conn_run.simps) simp
    with conn_loop_waits [OF True 1(2), of run envs write_ok fin n w] show ?thesis by simp
  next
    case False
    obtain c1 w1 where turn:
      "conn_turn run (envs n) (write_ok (2 * n)) (write_ok (2 * n + 1)) c w = (c1, w1)" by fastforce
    note run = conn_run_turn [of c run envs n write_ok w, OF 1(2) False turn]
      and loop = conn_loop_turn [of c run envs n write_ok w, OF 1(2) False turn]
    from conn_turn_appends [OF turn] obtain more where more: "cn_sent c1 = cn_sent c @ more" ..
    show ?thesis
    proof (cases "cn_result c1")
      case (Some r)
      with more show ?thesis by (simp add: run loop conn_run_done)
    next
      case None
      with 1(1) [OF _ False turn [symmetric]] 1(2) more show ?thesis
        by (auto simp: run loop case_prod_beta')
    qed
  qed
qed

section \<open>Which failure stops what\<close>

lemma bind_reuseport_None:
  "bind_reuseport sys = None \<longleftrightarrow> ws_socket sys = None \<and> ws_reuse_address sys = None \<and> ws_reuse_port sys = None \<and>
     ws_nonblocking sys = None \<and> ws_bind sys = None"
  by (auto simp: bind_reuseport_def split: option.split)

definition worker_serves :: "worker_sys \<Rightarrow> bool" where
  "worker_serves sys \<longleftrightarrow> bind_reuseport sys = None \<and> ws_from_std sys = None"

lemma spawn_workers_nth:
  assumes "i < length cores"
  shows "length (spawn_workers sys cores) = length cores" and
    "(\<exists>c. spawn_workers sys cores ! i = Serving i c) \<longleftrightarrow> worker_serves (sys i)" and
    "spawn_workers sys cores ! i = Serving i c \<Longrightarrow> c = cores ! i"
  using assms by (auto simp: spawn_workers_def worker_serves_def nth_enumerate_eq split: option.splits)

lemma launch_exits:
  "launch d pins udp tcp sys w = Exited e \<longleftrightarrow>
     dn_runtime d = Tokio \<and>
     ((\<exists>err. udp = Some err \<and> e = Bind_Udp (dn_bind d) err) \<or>
      (\<exists>err. udp = None \<and> tcp = Some err \<and> e = Bind_Tcp (dn_bind d) err))"
  by (auto simp: launch_def bind_both_def split: runtime.split option.split)

section \<open>Connections beside the UDP loop\<close>

lemma tcp_part_put [simp]: "tcp_part (put_tcp t s) = t" "put_tcp t' (put_tcp t s) = put_tcp t' s"
  by (simp_all add: tcp_part_def put_tcp_def)

lemma tcp_run_lift: "(tcp_step run)\<^sup>*\<^sup>* (tcp_part s) t \<Longrightarrow> (server_step run)\<^sup>*\<^sup>* s (put_tcp t s)"
proof (induction rule: rtranclp_induct)
  case base
  have "put_tcp (tcp_part s) s = s" by (simp add: tcp_part_def put_tcp_def)
  then show ?case by simp
next
  case (step t t')
  have "server_step run (put_tcp t s) (put_tcp t' (put_tcp t s))"
    by (rule server_step.tcp) (simp add: step.hyps(2))
  then have "server_step run (put_tcp t s) (put_tcp t' s)" by simp
  with step.IH show ?case by (rule rtranclp.rtrancl_into_rtrancl)
qed

end
