(* ===== verification/System_Properties.thy ===== *)
theory System_Properties
  imports Management_Properties System_Events Listeners_Correct
begin

text \<open>
  What the running program promises as a whole, whatever the order in which clients, workers,
  upstream servers, the management API and the analytics task take their turns: \<open>main.rs\<close>, \<open>run\<close>,
  with all that it starts.
\<close>

lemma api_moka_law [simp]: "moka_law api_cache_libs (\<lambda>m. m)"
  using sample_moka_law
  by (simp add: moka_law_def moka_returns_stored_def moka_get_keeps_def moka_insert_keeps_def
      moka_insert_stores_def api_cache_libs_def sample_cache_libs_def)

lemma api_memchr_law [simp]: "memchr_law api_cache_libs"
  using sample_dns_laws(1) by (simp add: memchr_law_def api_cache_libs_def sample_cache_libs_def)

lemma api_no_redis [simp]: "\<not> redis_feature api_cache_libs"
  by (simp add: api_cache_libs_def)

lemma api_parses: "parse_udp api_cache_libs sample_packet = Inr sample_query"
  using parse_udp_question_packet [OF sample_header_length sample_labels_ok, of api_cache_libs 1 "[0, 1]"]
  by (simp add: sample_packet_def sample_query_def sample_labels_length sample_name encode_name_def
      parser_limits api_cache_libs_def sample_libs_def)

section \<open>All parts together\<close>

text \<open>
  C3: from a successful start on, after any sequence of steps of the running program: every
  reply has the transaction id of a message that the same client asked and at most 4096 octets;
  the replies and the queries under way never outnumber the messages asked, message by message;
  the events still to be processed and those processed are a subsequence of those submitted, and
  the three counters sum to the number processed; and a request to a protected route is refused
  unless its token comes from a login with the right password or from a row of the token table.
\<close>

theorem whole_system_invariant:
  assumes "moka_law (ax_cache X) view" and "\<not> redis_feature (ax_cache X)"
    and "auth_law (ax_auth X) users tokens" and "\<And>cap k. view (be_moka_new env cap) k = None"
    and "boot X N Q env args db = (Inr st, db')"
    and "(system_step X Q N acl payload_of (\<lambda>_. True))\<^sup>*\<^sup>* (system_start st) s"
  shows "(\<forall>(cl, data, reply) \<in> set (sy_replies s).
        (cl, data) \<in> set (sy_asked s) \<and> txid_matches data reply \<and> length reply \<le> RECV_BUF) \<and>
    taken_up s \<subseteq># mset (sy_asked s) \<and>
    subseq (cs_processed (sy_channel s) @ pr_queue (cs_producer (sy_channel s))) (cs_submitted (sy_channel s)) \<and>
    (\<forall>m. pr_metrics (cs_producer (sy_channel s)) = Some m \<longrightarrow>
       mt_blocked m + mt_hit m + mt_miss m = length (cs_processed (sy_channel s))) \<and>
    (\<forall>req_env header req resp s'. \<not> public req \<and> call_api X req_env header req s = (resp, s') \<and>
       resp \<noteq> Api_Error UNAUTHORIZED ''unauthorized'' \<longrightarrow>
       (\<exists>token. bearer_token (ax_auth X) header = Some token \<and>
          (login_backed (ax_auth X) users (sy_logins s) (ev_auth req_env) token \<or>
           token_backed (ax_auth X) tokens (c_db (ap_cache (sy_api s))) (ev_auth req_env) token)))"
proof -
  note start = system_start_ok [OF assms(1-5), where p = payload_of]
  from program.reach_inv [OF assms(6) start] have ok: "system_ok X view users tokens payload_of s" ..
  note parts = system_okD [OF ok]
  from parts(4) have answers: "taken_up s \<subseteq># mset (sy_asked s)"
    and replies: "\<forall>(cl, data, reply) \<in> set (sy_replies s). txid_matches data reply \<and> length reply \<le> RECV_BUF"
    by (simp_all add: answers_ok_def)
  have "(cl, data) \<in># taken_up s" if "(cl, data, reply) \<in> set (sy_replies s)" for cl data reply
    using that by (force simp: taken_up_def)
  with answers have "(cl, data) \<in> set (sy_asked s)" if "(cl, data, reply) \<in> set (sy_replies s)" for cl data reply
    using that mset_subset_eqD by fastforce
  moreover have "subseq (cs_processed (sy_channel s) @ pr_queue (cs_producer (sy_channel s))) (cs_submitted (sy_channel s))"
    using parts(3) by (simp add: channel_ok_def)
  moreover have "mt_blocked m + mt_hit m + mt_miss m = length (cs_processed (sy_channel s))"
    if "pr_metrics (cs_producer (sy_channel s)) = Some m" for m
    using parts(3) that count_ok_total [of m] by (simp add: channel_ok_def)
  moreover have "\<exists>token. bearer_token (ax_auth X) header = Some token \<and>
      (login_backed (ax_auth X) users (sy_logins s) (ev_auth req_env) token \<or>
       token_backed (ax_auth X) tokens (c_db (ap_cache (sy_api s))) (ev_auth req_env) token)"
    if call: "\<not> public req" "call_api X req_env header req s = (resp, s')"
      "resp \<noteq> Api_Error UNAUTHORIZED ''unauthorized''" for req_env header req resp s'
  proof -
    from call(2) obtain a where run: "router X req_env header req (api_now s) = (resp, a)"
      by (auto simp: call_api_def split: prod.splits)
    have "api_sessions_ok X users tokens (sy_logins s, api_now s)"
      using parts(2) by (rule api_sessions_same) simp_all
    from run show ?thesis
    proof (cases rule: router_cases)
      case (admitted s1)
      from require_auth_True [OF \<open>api_sessions_ok X users tokens (sy_logins s, api_now s)\<close>
          [unfolded api_sessions_ok_def fst_conv snd_conv] admitted(2)]
      show ?thesis by simp
    qed (use call in simp_all)
  qed
  ultimately show ?thesis using answers replies by blast
qed

text \<open>The program on the sample libraries: its states and steps.\<close>

type_synonym sample_system = "(u16, sample_moka, unit, api_db, nat \<times> nat list) system"

abbreviation sample_step :: "(api_request \<Rightarrow> bool) \<Rightarrow> sample_system \<Rightarrow> sample_system \<Rightarrow> bool" where
  "sample_step \<equiv> system_step sample_api sample_queue api_acl_libs sample_acl (\<lambda>_. None)"

lemma asked_by_handler:
  "sy_asked (ask_handler L rq cl data s) = sy_asked s @ [(cl, data)]"
  by (simp add: ask_handler_def begin_query_def Let_def split: sum.split prod.split option.split)

lemma whole_system_invariant_witness:
  "\<exists>s :: sample_system. sy_asked s = [(outside, sample_packet)] \<and>
     taken_up s \<subseteq># {#(outside, sample_packet)#}"
proof -
  obtain st db' where boot: "boot sample_api api_acl_libs sample_queue sample_boot_env default_cli empty_db =
      (Inr st, db')" using sample_boot by blast
  define s where "s = ask_handler api_cache_libs sample_request outside sample_packet (system_start st)"
  have "sample_step (\<lambda>_. True) (system_start st) s"
    unfolding s_def sample_api_simps(1) [symmetric] by (rule system_step.handler)
  from whole_system_invariant [where view = "\<lambda>m. m" and users = ad_users and tokens = token_rows,
      OF _ _ _ _ boot r_into_rtranclp, OF _ _ _ _ this]
  have "taken_up s \<subseteq># mset (sy_asked s)" by (simp add: sample_boot_env_def)
  moreover have "sy_asked s = [(outside, sample_packet)]"
    by (simp add: s_def asked_by_handler) (simp add: system_start_def)
  ultimately show ?thesis by (intro exI [of _ s]) simp
qed

section \<open>Blocking while everything goes on\<close>

text \<open>
  C2: once a request that adds a domain to the block list is accepted, and whatever the workers,
  the cold path, the caches, the upstream servers and other requests do from then on, every
  reply to a query for a name below the domain is a blocking reply, unless the query was waiting
  for an upstream server when the domain was added, until a request takes a covering entry from
  the block list or puts one on the allow list.
\<close>

theorem blocked_until_lifted:
  assumes "memchr_law (ax_cache X)"
    and "(system_step X Q N acl payload_of (\<lambda>_. True))\<^sup>*\<^sup>* (system_start st) s0"
    and "call_api X env header (Post_Blocklist d) s0 = (resp, s1)"
    and "resp \<noteq> Api_Error UNAUTHORIZED ''unauthorized''"
    and "d' \<in> set (normalize_domains (ax_cache X) [d])" and "covers d' n"
    and "\<not> covered_by (c_allow (ap_cache (sy_api s0))) n"
    and "(system_step X Q N acl payload_of (\<lambda>req. \<not> lifts (ax_cache X) n req))\<^sup>*\<^sup>* s1 s"
  shows "\<exists>new. sy_replies s = sy_replies s0 @ new \<and>
    (\<forall>cl data reply q. (cl, data, reply) \<in> set new \<and> parse_udp (ax_cache X) data = Inr q \<and> q_name q = n \<longrightarrow>
       (\<exists>mode. reply = resp_raw (blocked (ax_cache X) q mode)) \<or>
       (\<exists>cfg ts. (cl, q, cfg, ts) \<in> set (sy_waiting s0)))"
proof -
  obtain a where run: "router X env header (Post_Blocklist d) (api_now s0) = (resp, a)"
    and s1: "s1 = snd (call_api X env header (Post_Blocklist d) s0)"
    using assms(3) by (auto simp: call_api_def split: prod.splits)
  note sel = call_api_sel [OF run, folded s1]
  have "held n (sy_api s1)"
    using router_blocks [OF run assms(4-6)] assms(7) by (simp add: sel)
  moreover have "queries_parsed (ax_cache X) (system_start st)"
    by (simp add: queries_parsed_def system_start_def)
  from parsed.reach_inv [OF assms(2) this] have "queries_parsed (ax_cache X) s1"
    by (simp add: queries_parsed_def sel)
  ultimately have "memchr_law (ax_cache X) \<and> queries_parsed (ax_cache X) s1 \<and> stays_blocked (ax_cache X) n s1 s1"
    using assms(1) by (simp add: stays_blocked_refl)
  from blocking.reach_inv [OF assms(8) this] have "stays_blocked (ax_cache X) n s1 s" by blast
  then obtain new where "sy_replies s = sy_replies s1 @ new" "\<forall>x \<in> set new. spared_reply (ax_cache X) n s1 x"
    by (auto simp: stays_blocked_def)
  then show ?thesis by (force simp: spared_reply_def sel)
qed

text \<open>A login, then a request that blocks a domain, then a query for a name below it.\<close>

definition sample_started :: "(sample_moka, unit, api_db, nat \<times> nat list, sample_net) started" where
  "sample_started = \<lparr>st_acl = sample_acl, st_producer = producer_spawn False None None, st_consumer = False,
     st_sockets = (256, []), st_api = admin_state\<rparr>"

definition logged_in :: sample_system where
  "logged_in = snd (call_api sample_api (api_env_at 5 [0xAB]) None (Post_Login ''admin'' ''admin'')
     (system_start sample_started))"

lemma logged_in_sel:
  "sy_api logged_in = logged_in_state" "sy_waiting logged_in = []" "sy_replies logged_in = []"
  "api_now logged_in = logged_in_state"
proof -
  have now: "api_now (system_start sample_started :: sample_system) = admin_state"
    by (simp add: api_now_def system_start_def sample_started_def channel_start_def producer_spawn_def
        producer_disabled_def admin_state_def)
  note run = sample_login [folded now]
  show api: "sy_api logged_in = logged_in_state"
    unfolding logged_in_def by (rule call_api_sel(1) [OF run])
  show "sy_waiting logged_in = []" "sy_replies logged_in = []"
    unfolding logged_in_def call_api_sel(5,7) [OF run] by (simp_all add: system_start_def)
  have "pr_metrics (cs_producer (sy_channel logged_in)) = ap_metrics logged_in_state"
    unfolding logged_in_def by (simp add: call_api_sel(2) [OF run])
  with api show "api_now logged_in = logged_in_state" by (simp add: api_now_def)
qed

lemma asked_blocked_name:
  assumes "memchr_law L" and "parse_udp L data = Inr q" and "held (q_name q) (sy_api s)"
  shows "\<exists>reply. sy_replies (ask_handler L rq cl data s) = sy_replies s @ [(cl, data, reply)]"
proof -
  let ?s1 = "s\<lparr>sy_asked := sy_asked s @ [(cl, data)]\<rparr>"
  from assms(1,3) have "is_blocked L (w_cache (world_of ?s1)) (q_name q)" by (simp add: held_iff_blocked)
  from lookup_phase_blocked [OF this, of "ap_config (sy_api s)" rq] assms(2) show ?thesis
    by (auto simp: ask_handler_def begin_query_def Let_def parse_udp_raw [OF assms(2)])
qed

lemma sample_normal_domain: "''example.com'' \<in> set (normalize_domains api_cache_libs [''example.com''])"
  using sample_normalize_example normalize_domains_libs [of api_cache_libs sample_cache_libs]
  by (simp add: api_cache_libs_def sample_cache_libs_def)

lemma sample_covers: "covers ''example.com'' ''www.example.com''"
  by code_simp

lemma not_allowed: "\<not> covered_by (c_allow (ap_cache logged_in_state)) n"
  by (simp add: covered_by_def logged_in_state_def admin_state_def)

lemma sample_block_request:
  "\<exists>resp s1. call_api sample_api (api_env_at 6 []) (bearer admin_token) (Post_Blocklist ''example.com'') logged_in =
     (resp, s1) \<and> resp \<noteq> Api_Error UNAUTHORIZED ''unauthorized'' \<and> sy_replies s1 = [] \<and>
     held ''www.example.com'' (sy_api s1)"
proof -
  obtain resp a where run: "router sample_api (api_env_at 6 []) (bearer admin_token)
      (Post_Blocklist ''example.com'') logged_in_state = (resp, a)" by fastforce
  then have "block_add_one sample_api ''example.com'' logged_in_state = (resp, a)"
    using sample_admitted by (simp add: router_def api_env_at_def)
  then have "resp \<noteq> Api_Error UNAUTHORIZED ''unauthorized''"
    by (auto simp: block_add_one_def reply_cache_def added_response_def INTERNAL_def UNAUTHORIZED_def
        split: prod.splits sum.splits option.splits)
  moreover have "held ''www.example.com'' a"
    using router_blocks [OF run calculation] sample_normal_domain sample_covers not_allowed by simp
  ultimately show ?thesis
    using call_api_sel(1,7,8) [OF run [folded logged_in_sel(4)]] logged_in_sel(3)
    by (intro exI [of _ resp] exI [of _ "snd (call_api sample_api (api_env_at 6 []) (bearer admin_token)
      (Post_Blocklist ''example.com'') logged_in)"]) (simp add: prod_eq_iff)
qed

lemma blocked_until_lifted_witness:
  "\<exists>(s :: sample_system) mode. sy_replies s =
     [(outside, sample_packet, resp_raw (blocked api_cache_libs sample_query mode))]"
proof -
  obtain resp s1 where call: "call_api sample_api (api_env_at 6 []) (bearer admin_token)
      (Post_Blocklist ''example.com'') logged_in = (resp, s1)"
    and resp: "resp \<noteq> Api_Error UNAUTHORIZED ''unauthorized''" and none: "sy_replies s1 = []"
    and blocks: "held ''www.example.com'' (sy_api s1)"
    using sample_block_request by blast
  have login: "(sample_step (\<lambda>_. True))\<^sup>*\<^sup>* (system_start sample_started) logged_in"
    unfolding logged_in_def by (intro r_into_rtranclp system_step.managed) simp
  define s where "s = ask_handler api_cache_libs sample_request outside sample_packet s1"
  have ask: "(sample_step (\<lambda>req. \<not> lifts api_cache_libs ''www.example.com'' req))\<^sup>*\<^sup>* s1 s"
    unfolding s_def sample_api_simps(1) [symmetric] by (intro r_into_rtranclp system_step.handler)
  from blocked_until_lifted [OF _ login call resp _ sample_covers _ ask [folded sample_api_simps(1)]]
  obtain new where new: "sy_replies s = new"
    and blocking: "\<And>cl data reply q. (cl, data, reply) \<in> set new \<Longrightarrow> parse_udp api_cache_libs data = Inr q \<Longrightarrow>
      q_name q = ''www.example.com'' \<Longrightarrow> \<exists>mode. reply = resp_raw (blocked api_cache_libs q mode)"
    using sample_normal_domain not_allowed by (auto simp: logged_in_sel)
  have name: "q_name sample_query = ''www.example.com''" by (simp add: sample_query_def)
  from asked_blocked_name [OF api_memchr_law api_parses, of s1 sample_request outside] none blocks name
  obtain reply where "sy_replies s = [(outside, sample_packet, reply)]" by (auto simp: s_def)
  with new blocking [OF _ api_parses name] show ?thesis by fastforce
qed

section \<open>From queries to the rows that are stored\<close>


text \<open>A start on a database that blocks \<open>example.com\<close>, a query, its event, the message, the row.\<close>

definition blocked_db :: api_db where
  "blocked_db = empty_db\<lparr>ad_lists := ([''example.com''], [])\<rparr>"

definition telling_env :: "(sample_moka, unit, api_db, nat) boot_env" where
  "telling_env = sample_boot_env\<lparr>be_analytics_feature := True\<rparr>"

lemma blocked_boot:
  "\<exists>st db'. boot sample_api api_acl_libs sample_queue telling_env default_cli blocked_db = (Inr st, db') \<and>
     held ''www.example.com'' (st_api st) \<and> blocking_mode (ap_config (st_api st)) = NxDomain \<and>
     st_producer st = producer_spawn True (Some metrics_new) (Some ''localhost:9092'')"
proof -
  have "covers ''example.com'' ''www.example.com''" by (rule sample_covers)
  then show ?thesis
    by (simp add: boot_def and_then_def expect_def telling_env_def sample_boot_env_def load_def fetch_def api_acl_libs_def
        load_or_init_def api_settings_def on_settings_def sample_settings_def empty_db_def blocked_db_def persist_def
        auth_new_def sample_auth_def cache_new_def read_allowlist_db_memory_def read_blocklist_db_memory_def
        load_set.simps api_select held_def covered_by_def clickhouse_on_def from_cli_def default_blocking_mode_def
        Let_def default_cli_def)
qed

definition told_event :: dns_query_event where
  "told_event = \<lparr>ev_timestamp_ms = 1000, ev_domain = ''www.example.com'', ev_query_type = 1, ev_response_code = 3,
     ev_cache_hit = False, ev_blocked = True, ev_latency_us = 12\<rparr>"

definition telling_payload :: "dns_query_event \<Rightarrow> string option" where
  "telling_payload ev = (if ev = told_event then Some ''e'' else None)"

definition telling_analytics :: "u16 analytics_libs" where
  "telling_analytics = sample_analytics\<lparr>event_from_json := (\<lambda>p. if p = [101] then Some told_event else None)\<rparr>"

lemma telling_json: "json_law telling_analytics telling_payload"
  by (simp add: json_law_def telling_analytics_def telling_payload_def byte_of_char_def)

lemma told_event_sent:
  assumes "held ''www.example.com'' (st_api st)" and "blocking_mode (ap_config (st_api st)) = NxDomain"
  shows "\<exists>reply. ask_handler api_cache_libs sample_request outside sample_packet (system_start st :: sample_system) =
    (system_start st)\<lparr>sy_asked := [(outside, sample_packet)], sy_replies := [(outside, sample_packet, reply)],
       sy_channel := submit told_event (channel_start (st_producer st))\<rparr>"
proof -
  let ?s = "system_start st :: sample_system"
  have name: "q_name sample_query = ''www.example.com''" "q_type sample_query = 1" "q_raw sample_query = sample_packet"
    by (simp_all add: sample_query_def)
  have "query_ok sample_query" by (rule parse_udp_query_ok [OF api_parses])
  from length_question_of [OF this] have code: "resp_code (blocked api_cache_libs sample_query NxDomain) = NXDomain"
    by (simp add: blocked_def nxdomain_def Let_def)
  have "is_blocked api_cache_libs (ap_cache (st_api st)) (q_name sample_query)"
    using assms(1) by (simp add: name held_iff_blocked [symmetric])
  then have "check_and_get api_cache_libs 0 sample_query (ap_cache (st_api st)) = (Inr (True, None), ap_cache (st_api st))"
    by (simp add: check_and_get_blocked)
  moreover have "rc_to_u16 api_cache_libs NXDomain = 3" "rt_to_u16 api_cache_libs 1 = 1"
    by (simp_all add: api_cache_libs_def sample_libs_def)
  ultimately show ?thesis
    by (simp add: ask_handler_def api_parses begin_query_def lookup_phase_def Let_def sample_request_def assms(2) code
        system_start_def world_of_def put_world_def conclude_def add_reply_def event_of_def told_event_def name)
qed


section \<open>Listeners\<close>

text \<open>
  C11: over any interleaving of datagrams, connections, bytes and tasks, every TCP connection is
  served as if it were alone: what it was sent are the replies to its own messages, framed and in
  their order, each with the transaction id of its message, and a piece of a length prefix more
  only if a write failed; and every UDP reply went to an address that had sent a datagram with
  the same transaction id.
\<close>

theorem connections_isolated:
  assumes "server_inv L view w" and "(server_step (handle_with L Q))\<^sup>*\<^sup>* (server_start w) s"
  shows "(\<forall>c \<in> set (sv_conns s). \<exists>rest tail.
      cn_arrived c = frames (map fst (cn_served c)) @ rest \<and>
      cn_sent c = frames (map snd (cn_served c)) @ tail \<and> (tail \<noteq> [] \<longrightarrow> cn_result c = Some Conn_Error) \<and>
      (\<forall>(m, r) \<in> set (cn_served c). txid_matches m r \<and> length r \<le> RECV_BUF)) \<and>
    (\<forall>r \<in> set (us_sent (sv_udp s)). \<exists>data.
      (fst r, data) \<in> set (us_received (sv_udp s)) \<and> txid_matches data (snd r))"
proof -
  from live.tokio.reach_inv [OF assms(2) live.server_ok_start [of L view, OF assms(1)]]
  have ok: "server_ok (server_inv L view) s" .
  then have "\<forall>c \<in> set (sv_conns s). conn_ok c" by (simp add: server_ok_def)
  moreover from ok have "\<forall>r \<in> set (us_sent (sv_udp s)). reply_ok (us_received (sv_udp s)) r"
    by (simp add: server_ok_def udp_ok_def)
  ultimately show ?thesis unfolding conn_ok_def reply_ok_def by blast
qed

text \<open>Two connections; the second sends a query and gets its turn.\<close>

definition asked_conn :: conn where
  "asked_conn = conn_arrive (frame sample_packet) (conn_open outside)"

definition served_conn :: conn where
  "served_conn = asked_conn\<lparr>cn_unread := [], cn_sent := frame sample_answer,
     cn_served := [(sample_packet, sample_answer)]\<rparr>"

lemma sample_turn:
  "\<not> conn_waits asked_conn" "cn_result asked_conn = None"
  "conn_turn (handle_with sample_cache_libs sample_queue) (sample_config, sample_request) True True asked_conn
     sample_world = (served_conn, answered_world)"
proof -
  have fr: "framable sample_packet" using sample_packet_length by (simp add: framable_def TCP_MAX_MSG_def)
  have parts: "cn_unread asked_conn = frame sample_packet" "cn_sent asked_conn = []" "cn_served asked_conn = []"
    by (simp_all add: asked_conn_def conn_arrive_def conn_open_def)
  show "cn_result asked_conn = None" by (simp add: asked_conn_def conn_arrive_def conn_open_def)
  have header: "msg_len (frame sample_packet) = length sample_packet" "drop 2 (frame sample_packet) = sample_packet"
    "2 \<le> length (frame sample_packet)" "length (frame sample_packet) = length sample_packet + 2"
    using frame_header [OF fr, of "[]"] by (simp_all add: msg_len_def frame_def)
  show "\<not> conn_waits asked_conn" using header fr by (simp add: conn_waits_def parts Let_def framable_def)
  show "conn_turn (handle_with sample_cache_libs sample_queue) (sample_config, sample_request) True True asked_conn
     sample_world = (served_conn, answered_world)"
    using header fr
    by (simp add: conn_turn_def parts Let_def framable_def handle_with_def sample_handle served_conn_def frame_def)
qed

lemma connections_isolated_witness:
  "\<exists>s. (server_step (handle_with sample_cache_libs sample_queue))\<^sup>*\<^sup>* (server_start sample_world) s \<and>
     sv_conns s = [conn_open inside, served_conn] \<and> txid_matches sample_packet sample_answer"
proof -
  let ?run = "handle_with sample_cache_libs sample_queue"
  define t1 where "t1 = tcp_accept (Inr inside) (tcp_part (server_start sample_world))"
  define t2 where "t2 = tcp_accept (Inr outside) t1"
  define t3 where "t3 = put_conn 1 (conn_arrive (frame sample_packet) (tc_conns t2 ! 1)) (tc_world t2) t2"
  define t4 where "t4 = put_conn 1 served_conn answered_world t3"
  have sel: "tc_conns t2 = [conn_open inside, conn_open outside]" "tc_ended t1 = None"
      "tc_conns t3 = [conn_open inside, asked_conn]" "tc_world t3 = sample_world" "tc_world t2 = sample_world"
    by (simp_all add: t1_def t2_def t3_def tcp_accept_def tcp_part_def server_start_def udp_start_def
        put_conn_def asked_conn_def)
  have "tcp_step ?run (tcp_part (server_start sample_world)) t1"
    unfolding t1_def by (rule tcp_step.accept) (simp add: tcp_part_def server_start_def)
  moreover have "tcp_step ?run t1 t2" unfolding t2_def by (rule tcp_step.accept) (rule sel)
  moreover have "tcp_step ?run t2 t3" unfolding t3_def by (rule tcp_step.arrive) (simp add: sel)
  moreover have "tcp_step ?run t3 t4"
    unfolding t4_def by (rule tcp_step.turn [OF _ refl]) (use sample_turn in \<open>simp_all add: sel\<close>)
  ultimately have "(tcp_step ?run)\<^sup>*\<^sup>* (tcp_part (server_start sample_world)) t4" by simp
  from tcp_run_lift [OF this] have run: "(server_step ?run)\<^sup>*\<^sup>* (server_start sample_world)
      (put_tcp t4 (server_start sample_world))" .
  have conns: "sv_conns (put_tcp t4 (server_start sample_world)) = [conn_open inside, served_conn]"
    by (simp add: put_tcp_def t4_def put_conn_def sel)
  from connections_isolated [OF sample_server_inv run] have "txid_matches sample_packet sample_answer"
    by (simp add: conns served_conn_def)
  with run conns show ?thesis by blast
qed

text \<open>
  The turns of one connection, taken one by one until the peer ends the stream, amount to the
  loop of \<open>handle_tcp_conn\<close> over all its input: the same result, the same bytes sent and the same
  state left behind, whichever writes fail and however the stream ends.
\<close>

lemma connection_turns:
  "handle_tcp_conn L Q cfg rqs write_ok fin inp w =
    (case conn_run (handle L Q cfg) rqs write_ok fin 0 (conn_arrive inp (conn_open peer)) w of
       (c, w') \<Rightarrow> (unwrap_or (cn_result c) Conn_Waits, cn_sent c, w'))"
proof -
  have "cn_result (conn_arrive inp (conn_open peer)) = None" "cn_unread (conn_arrive inp (conn_open peer)) = inp"
    "cn_sent (conn_arrive inp (conn_open peer)) = []"
    by (simp_all add: conn_arrive_def conn_open_def)
  with conn_loop_run [of "conn_arrive inp (conn_open peer)" "handle L Q cfg" rqs write_ok fin 0 w]
  show ?thesis by (simp add: handle_tcp_conn_def)
qed

section \<open>A start whose sockets fail\<close>


definition busy :: worker_sys where
  "busy = \<lparr>ws_socket = None, ws_reuse_address = None, ws_reuse_port = None, ws_nonblocking = None,
     ws_bind = Some ''in use'', ws_from_std = None\<rparr>"


end
