(* ===== verification/Database.thy ===== *)
theory Database
  imports Startup
begin

text \<open>
  \<open>backend/src/db.rs\<close> with the statements that create the tables, in \<open>repo/cache.rs\<close>, \<open>acl.rs\<close>,
  \<open>config.rs\<close>, \<open>api/auth.rs\<close> and \<open>analytics/consumer.rs\<close>; how the clients of Kafka and ClickHouse
  are set up; and what a start leaves in the database.
\<close>

section \<open>Backends and the connection\<close>

datatype backend = Sqlite | Postgres

fun ID_PK :: "backend \<Rightarrow> string" where
  "ID_PK Postgres = ''BIGSERIAL PRIMARY KEY''"
| "ID_PK Sqlite = ''INTEGER PRIMARY KEY AUTOINCREMENT''"

text \<open>The driver: the options of SQLite read from a URL, and the pools of both backends.\<close>

record ('opts, 'pool) driver_libs =
  sqlite_from_str :: "string \<Rightarrow> sql_error + 'opts"
  sqlite_create_if_missing :: "bool \<Rightarrow> 'opts \<Rightarrow> 'opts"
  sqlite_connect_with :: "u32 \<Rightarrow> 'opts \<Rightarrow> sql_error + 'pool"
  pg_connect :: "u32 \<Rightarrow> string \<Rightarrow> sql_error + 'pool"

definition connect :: "('opts, 'pool) driver_libs \<Rightarrow> backend \<Rightarrow> string \<Rightarrow> u32 \<Rightarrow> sql_error + 'pool" where
  "connect D b url max_connections =
     (case b of
        Sqlite \<Rightarrow>
          (case sqlite_from_str D url of
             Inl e \<Rightarrow> Inl e
           | Inr opts \<Rightarrow> sqlite_connect_with D max_connections (sqlite_create_if_missing D True opts))
      | Postgres \<Rightarrow> pg_connect D max_connections url)"

section \<open>Clocks\<close>

text \<open>
  \<open>SystemTime::now\<close> in nanoseconds from the epoch. A clock before the epoch reads as the epoch;
  the casts keep the low 64 bits.
\<close>

definition since_epoch :: "int \<Rightarrow> nat" where "since_epoch t = nat t"

definition now_unix :: "int \<Rightarrow> i64" where "now_unix t = of_nat (since_epoch t div 1000000000)"

definition now_ms :: "int \<Rightarrow> u64" where "now_ms t = of_nat (since_epoch t div 1000000)"

lemma now_unix_before_epoch: "t \<le> 0 \<Longrightarrow> now_unix t = 0"
  by (simp add: now_unix_def since_epoch_def)

lemma now_ms_value: "t < 2 ^ 64 * 1000000 \<Longrightarrow> unat (now_ms t) = nat t div 1000000"
  by (simp add: now_ms_def since_epoch_def unat_of_nat nat_less_iff zdiv_int div_less_iff_less_mult mod_less)

section \<open>Tables\<close>

text \<open>The statements as texts, with one blank between words.\<close>

definition blocked_ddl :: string where
  "blocked_ddl = ''CREATE TABLE IF NOT EXISTS blocked ( list TEXT NOT NULL, domain TEXT PRIMARY KEY )''"

definition allowed_ddl :: string where
  "allowed_ddl = ''CREATE TABLE IF NOT EXISTS allowed ( domain TEXT PRIMARY KEY )''"

definition access_ddl :: "backend \<Rightarrow> string" where
  "access_ddl b = ''CREATE TABLE IF NOT EXISTS access ( id '' @ ID_PK b @
     '', enabled BOOLEAN NOT NULL DEFAULT TRUE, name TEXT NOT NULL, action TEXT NOT NULL, networks TEXT NOT NULL )''"

definition settings_ddl :: string where
  "settings_ddl = ''CREATE TABLE IF NOT EXISTS settings ( id INTEGER PRIMARY KEY, config TEXT NOT NULL )''"

definition users_ddl :: "backend \<Rightarrow> string" where
  "users_ddl b = ''CREATE TABLE IF NOT EXISTS users ( id '' @ ID_PK b @
     '', username TEXT NOT NULL UNIQUE, password_hash TEXT NOT NULL, created_at BIGINT NOT NULL, last_login BIGINT )''"

definition api_tokens_ddl :: "backend \<Rightarrow> string" where
  "api_tokens_ddl b = ''CREATE TABLE IF NOT EXISTS api_tokens ( id '' @ ID_PK b @
     '', name TEXT NOT NULL, token_hash TEXT NOT NULL UNIQUE, created_at BIGINT NOT NULL, last_used BIGINT, expires_at BIGINT )''"

definition dns_queries_ddl :: string where
  "dns_queries_ddl = ''CREATE TABLE IF NOT EXISTS dns_queries ( timestamp_ms UInt64, domain String, query_type String, '' @
     ''response_code String, cache_hit UInt8, blocked UInt8, latency_us UInt64 ) ENGINE = MergeTree() '' @
     ''ORDER BY (timestamp_ms, domain)''"

text \<open>\<open>sqlx::query(..).execute(pool).await?\<close> for one statement after the other.\<close>

type_synonym 'db execute = "string \<Rightarrow> ('db, unit) sql"

fun execute_all :: "'db execute \<Rightarrow> string list \<Rightarrow> ('db, unit) sql" where
  "execute_all exec [] db = (Inr (), db)"
| "execute_all exec (stmt # stmts) db =
     (case exec stmt db of (Inl e, db') \<Rightarrow> (Inl e, db') | (Inr _, db') \<Rightarrow> execute_all exec stmts db')"

definition ensure_tables :: "'db execute \<Rightarrow> ('db, unit) sql" where
  "ensure_tables exec = execute_all exec [blocked_ddl, allowed_ddl]"

definition ensure_access_table :: "backend \<Rightarrow> 'db execute \<Rightarrow> ('db, unit) sql" where
  "ensure_access_table b exec = execute_all exec [access_ddl b]"

definition ensure_settings_table :: "'db execute \<Rightarrow> ('db, unit) sql" where
  "ensure_settings_table exec = execute_all exec [settings_ddl]"

definition ensure_schema :: "backend \<Rightarrow> 'db execute \<Rightarrow> ('db, unit) sql" where
  "ensure_schema b exec = execute_all exec [users_ddl b, api_tokens_ddl b]"

definition ensure_queries_table :: "'ch execute \<Rightarrow> ('ch, unit) sql" where
  "ensure_queries_table exec = execute_all exec [dns_queries_ddl]"

section \<open>Clients of Kafka and ClickHouse\<close>

type_synonym client_config = "(string \<times> string) list"

definition build_kafka :: "string \<Rightarrow> client_config" where
  "build_kafka brokers =
     [(''bootstrap.servers'', brokers), (''message.timeout.ms'', ''5000''), (''queue.buffering.max.ms'', ''100'')]"

definition consumer_config :: "string \<Rightarrow> string \<Rightarrow> client_config" where
  "consumer_config brokers group_id =
     [(''bootstrap.servers'', brokers), (''group.id'', group_id), (''enable.auto.commit'', ''false''),
      (''auto.offset.reset'', ''earliest'')]"

definition stats_config :: "string \<Rightarrow> client_config" where
  "stats_config brokers = [(''bootstrap.servers'', brokers), (''group.id'', ''denis-analytics'')]"

record clickhouse_client =
  ch_url :: string
  ch_user :: string
  ch_password :: string

record analytics_consumer =
  an_config :: client_config
  an_topics :: "string list"
  an_ch :: clickhouse_client

definition analytics_consumer_new :: "string \<Rightarrow> string \<Rightarrow> string \<Rightarrow> string \<Rightarrow> string \<Rightarrow> analytics_consumer" where
  "analytics_consumer_new brokers group_id url user pass =
     \<lparr>an_config = consumer_config brokers group_id, an_topics = [TOPIC],
      an_ch = \<lparr>ch_url = url, ch_user = user, ch_password = pass\<rparr>\<rparr>"

record stats_client =
  sc_kafka_brokers :: string
  sc_ch :: clickhouse_client

definition stats_client_new :: "string \<Rightarrow> string \<Rightarrow> string \<Rightarrow> string \<Rightarrow> stats_client" where
  "stats_client_new brokers url user pass =
     \<lparr>sc_kafka_brokers = brokers, sc_ch = \<lparr>ch_url = url, ch_user = user, ch_password = pass\<rparr>\<rparr>"

text \<open>What \<open>run\<close> passes on to them.\<close>

definition start_consumer :: "cli \<Rightarrow> analytics_consumer" where
  "start_consumer o1 = analytics_consumer_new (ka_brokers (cli_kafka o1)) ''denis-analytics''
     (cl_url (cli_clickhouse o1)) (cl_user (cli_clickhouse o1)) (cl_password (cli_clickhouse o1))"

definition start_stats :: "cli \<Rightarrow> stats_client" where
  "start_stats o1 = stats_client_new (ka_brokers (cli_kafka o1))
     (cl_url (cli_clickhouse o1)) (cl_user (cli_clickhouse o1)) (cl_password (cli_clickhouse o1))"

text \<open>The lag is computed for the group and the broker that the consumer reads with.\<close>

lemma stats_of_consumer_group:
  "map_of (stats_config (sc_kafka_brokers (start_stats o1))) ''group.id'' =
     map_of (an_config (start_consumer o1)) ''group.id''"
  "map_of (stats_config (sc_kafka_brokers (start_stats o1))) ''bootstrap.servers'' =
     map_of (an_config (start_consumer o1)) ''bootstrap.servers''"
  "sc_ch (start_stats o1) = an_ch (start_consumer o1)"
  by (simp_all add: start_stats_def start_consumer_def stats_client_new_def analytics_consumer_new_def
      stats_config_def consumer_config_def)

section \<open>The tables after a start\<close>

text \<open>The table that a statement creates: the word after its first five.\<close>

definition create_prefix :: string where "create_prefix = ''CREATE TABLE IF NOT EXISTS ''"

definition created_table :: "string \<Rightarrow> string option" where
  "created_table stmt =
     map_option (takeWhile (\<lambda>c. c \<noteq> CHR '' '')) (strip_prefix create_prefix stmt)"

lemma created_tables:
  "created_table blocked_ddl = Some ''blocked''" "created_table allowed_ddl = Some ''allowed''"
  "created_table (access_ddl b) = Some ''access''" "created_table settings_ddl = Some ''settings''"
  "created_table (users_ddl b) = Some ''users''" "created_table (api_tokens_ddl b) = Some ''api_tokens''"
  "created_table dns_queries_ddl = Some ''dns_queries''"
  by (simp_all add: created_table_def create_prefix_def strip_prefix_def blocked_ddl_def allowed_ddl_def
      access_ddl_def settings_ddl_def users_ddl_def api_tokens_ddl_def dns_queries_ddl_def)

text \<open>
  \<open>CREATE TABLE IF NOT EXISTS\<close>: a table that is there keeps its rows, one that is not is made
  empty; a failure changes nothing. \<open>view\<close> reads the tables of a database.
\<close>

type_synonym ('db, 'row) schema_view = "'db \<Rightarrow> string \<Rightarrow> 'row list option"

definition ddl_law :: "'db execute \<Rightarrow> ('db, 'row) schema_view \<Rightarrow> bool" where
  "ddl_law exec view \<longleftrightarrow>
     (\<forall>stmt name db. created_table stmt = Some name \<longrightarrow>
        (case exec stmt db of
           (Inl _, db') \<Rightarrow> view db' = view db
         | (Inr _, db') \<Rightarrow> view db' = (if view db name = None then (view db)(name \<mapsto> []) else view db)))"

text \<open>Nothing is lost: every table of the first database is in the second, with its rows.\<close>

definition keeps_rows :: "('db, 'row) schema_view \<Rightarrow> 'db \<Rightarrow> 'db \<Rightarrow> bool" where
  "keeps_rows view db db' \<longleftrightarrow> view db \<subseteq>\<^sub>m view db'"

lemma execute_all_creates:
  assumes "ddl_law exec view" and "\<forall>stmt \<in> set stmts. created_table stmt \<noteq> None"
    and "execute_all exec stmts db = (r, db')"
  shows "keeps_rows view db db' \<and> (r = Inr () \<longrightarrow> (\<forall>stmt \<in> set stmts. the (created_table stmt) \<in> dom (view db')))"
  using assms(2,3)
proof (induction stmts arbitrary: db)
  case Nil
  then show ?case by (simp add: keeps_rows_def)
next
  case (Cons stmt stmts)
  obtain name where name: "created_table stmt = Some name" using Cons.prems(1) by auto
  obtain r1 db1 where run: "exec stmt db = (r1, db1)" by fastforce
  have step: "view db1 = (if r1 \<noteq> Inr () \<or> view db name \<noteq> None then view db else (view db)(name \<mapsto> []))"
    using assms(1) [unfolded ddl_law_def, rule_format, OF name, of db] run by (cases r1) auto
  then have kept: "view db \<subseteq>\<^sub>m view db1" by (auto simp: map_le_def)
  show ?case
  proof (cases r1)
    case (Inl e)
    with Cons.prems(2) run kept show ?thesis by (auto simp: keeps_rows_def)
  next
    case (Inr u)
    with Cons.prems run have "execute_all exec stmts db1 = (r, db')" by simp
    from Cons.IH [OF _ this] Cons.prems(1) have ih: "view db1 \<subseteq>\<^sub>m view db'"
      "r = Inr () \<longrightarrow> (\<forall>stmt \<in> set stmts. the (created_table stmt) \<in> dom (view db'))"
      by (auto simp: keeps_rows_def)
    have "name \<in> dom (view db1)" using step Inr by auto
    with ih(1) have "name \<in> dom (view db')" using map_le_implies_dom_le by blast
    with ih kept name show ?thesis by (auto simp: keeps_rows_def intro: map_le_trans)
  qed
qed

text \<open>The statements of a start that create tables are those above; the others create and drop none.\<close>

definition uses_schema ::
  "backend \<Rightarrow> 'db execute \<Rightarrow> ('rt, 'm, 'r, 'db, 'ph, 'f) api_libs \<Rightarrow> ('net, 'db) acl_libs \<Rightarrow>
     ('m, 'r, 'db, 'sock) boot_env \<Rightarrow> bool" where
  "uses_schema b exec X N env \<longleftrightarrow>
     be_ensure_tables env = ensure_tables exec \<and> sql_create_access N = ensure_access_table b exec \<and>
     create_settings (ax_settings X) = ensure_settings_table exec \<and>
     sql_create_auth (ax_auth X) = ensure_schema b exec"

definition tables_in :: "('db, 'row) schema_view \<Rightarrow> 'db \<Rightarrow> string set" where
  "tables_in view db = dom (view db)"

definition same_tables :: "('db, 'row) schema_view \<Rightarrow> ('db, 'a) sql \<Rightarrow> bool" where
  "same_tables view stmt \<longleftrightarrow> (\<forall>db. tables_in view (snd (stmt db)) = tables_in view db)"

definition leaves_tables ::
  "('db, 'row) schema_view \<Rightarrow> ('rt, 'm, 'r, 'db, 'ph, 'f) api_libs \<Rightarrow> ('net, 'db) acl_libs \<Rightarrow> bool" where
  "leaves_tables view X N \<longleftrightarrow>
     same_tables view (sql_select_access N) \<and> same_tables view (select_config (ax_settings X)) \<and>
     (\<forall>text. same_tables view (upsert_config (ax_settings X) text)) \<and>
     same_tables view (sql_count_users (ax_auth X)) \<and>
     (\<forall>u h c. same_tables view (sql_insert_user (ax_auth X) u h c))"

text \<open>A statement that succeeds with at least these tables beside those it found.\<close>

definition has_tables :: "('db, 'row) schema_view \<Rightarrow> string set \<Rightarrow> ('db, 'a) sql \<Rightarrow> bool" where
  "has_tables view T stmt \<longleftrightarrow> (\<forall>db x db'. stmt db = (Inr x, db') \<longrightarrow> tables_in view db \<union> T \<subseteq> tables_in view db')"

lemma has_tablesD: "has_tables view T stmt \<Longrightarrow> stmt db = (Inr x, db') \<Longrightarrow> tables_in view db \<union> T \<subseteq> tables_in view db'"
  unfolding has_tables_def by blast

lemma same_tablesD: "same_tables view stmt \<Longrightarrow> stmt db = (r, db') \<Longrightarrow> tables_in view db' = tables_in view db"
  unfolding same_tables_def by (metis snd_conv)

lemma execute_all_has:
  assumes "ddl_law exec view" and "\<forall>stmt \<in> set stmts. created_table stmt \<noteq> None"
  shows "has_tables view (set (map (the \<circ> created_table) stmts)) (execute_all exec stmts)"
  unfolding has_tables_def
proof (intro allI impI)
  fix db x db'
  assume "execute_all exec stmts db = (Inr x, db')"
  from execute_all_creates [OF assms this] show "tables_in view db \<union> set (map (the \<circ> created_table) stmts) \<subseteq> tables_in view db'"
    by (auto simp: tables_in_def keeps_rows_def dest: map_le_implies_dom_le)
qed

lemma schema_has:
  assumes "ddl_law exec view"
  shows "has_tables view {''blocked'', ''allowed''} (ensure_tables exec)"
    "has_tables view {''access''} (ensure_access_table b exec)"
    "has_tables view {''settings''} (ensure_settings_table exec)"
    "has_tables view {''users'', ''api_tokens''} (ensure_schema b exec)"
  using execute_all_has [OF assms, of "[blocked_ddl, allowed_ddl]"] execute_all_has [OF assms, of "[access_ddl b]"]
    execute_all_has [OF assms, of "[settings_ddl]"] execute_all_has [OF assms, of "[users_ddl b, api_tokens_ddl b]"]
  by (simp_all add: created_tables ensure_tables_def ensure_access_table_def ensure_settings_table_def ensure_schema_def)

lemma load_has:
  assumes "has_tables view T (sql_create_access N)" and "same_tables view (sql_select_access N)"
  shows "has_tables view T (load N)"
  unfolding has_tables_def load_def fetch_def
  by (auto split: prod.splits sum.splits dest!: has_tablesD [OF assms(1)] same_tablesD [OF assms(2)])

lemma load_or_init_has:
  assumes "has_tables view T (create_settings S)" and "same_tables view (select_config S)"
    and "\<And>text. same_tables view (upsert_config S text)"
  shows "has_tables view T (load_or_init S defaults)"
  unfolding has_tables_def load_or_init_def persist_def
  by (auto split: prod.splits sum.splits option.splits
      dest!: has_tablesD [OF assms(1)] same_tablesD [OF assms(2)] same_tablesD [OF assms(3)])

lemma auth_new_has:
  assumes "has_tables view T (sql_create_auth A)" and "same_tables view (sql_count_users A)"
    and "\<And>u h c. same_tables view (sql_insert_user A u h c)"
  shows "has_tables view T (auth_new A env)"
  unfolding has_tables_def auth_new_def
  by (auto split: prod.splits sum.splits if_splits
      dest!: has_tablesD [OF assms(1)] same_tablesD [OF assms(2)] same_tablesD [OF assms(3)])

lemma tables_chain:
  "T \<union> A \<subseteq> T1 \<Longrightarrow> T1 \<union> B \<subseteq> T2 \<Longrightarrow> T2 \<union> C \<subseteq> T3 \<Longrightarrow> T3 \<union> D \<subseteq> T4 \<Longrightarrow> A \<union> B \<union> C \<union> D \<subseteq> T4"
  by blast

text \<open>Every table that the program reads or writes afterwards is there when a start succeeds.\<close>

lemma start_has_tables:
  assumes "ddl_law exec view" and "uses_schema b exec X N env" and leaves: "leaves_tables view X N"
    and "boot X N Q env o1 db = (Inr st, db')"
  shows "{''blocked'', ''allowed'', ''access'', ''settings'', ''users'', ''api_tokens''} \<subseteq> tables_in view db'"
proof -
  note has = schema_has [OF assms(1)]
  from assms(2) have schema: "be_ensure_tables env = ensure_tables exec" "sql_create_access N = ensure_access_table b exec"
    "create_settings (ax_settings X) = ensure_settings_table exec" "sql_create_auth (ax_auth X) = ensure_schema b exec"
    by (simp_all add: uses_schema_def)
  from leaves have load: "has_tables view {''access''} (load N)"
    using load_has [of view _ N] has(2) [of b] by (simp add: schema leaves_tables_def)
  from leaves have init: "has_tables view {''settings''} (load_or_init (ax_settings X) defaults)" for defaults
    using load_or_init_has [of view _ "ax_settings X"] has(3) by (simp add: schema leaves_tables_def)
  from leaves have auth: "has_tables view {''users'', ''api_tokens''} (auth_new (ax_auth X) (be_auth env))"
    using auth_new_has [of view _ "ax_auth X"] has(4) [of b] by (simp add: schema leaves_tables_def)
  from assms(4) show ?thesis
  proof (rule boot_InrE)
    fix db1 db2 db4 acl cfg a
    assume steps: "be_ensure_tables env db = (Inr (), db1)" "load N db1 = (Inr acl, db2)"
      "load_or_init (ax_settings X) (from_cli (up_servers (cli_upstream o1)) (up_timeout_ms (cli_upstream o1))) db2 =
         (Inr cfg, db4)"
      "auth_new (ax_auth X) (be_auth env) db4 = (Inr a, db')"
    from tables_chain [OF has_tablesD [OF has(1) steps(1) [unfolded schema(1)]] has_tablesD [OF load steps(2)]
        has_tablesD [OF init steps(3)] has_tablesD [OF auth steps(4)]]
    show ?thesis by simp
  qed
qed

end
