(* ===== verification/Unit_Tests.thy ===== *)
theory Unit_Tests
  imports Wire_Properties Cache
begin

text \<open>
  The unit tests of the repository, in \<open>handler/parser.rs\<close> and \<open>repo/cache.rs\<close>, as values of the
  model: every assertion that the code makes of itself holds of the definitions that model it,
  whatever the libraries do within their laws.
\<close>

section \<open>The parser\<close>

definition query_packet :: "string \<Rightarrow> bytes" where
  "query_packet name =
     (replicate HEADER 0)[5 := 1] @
     concat (map (\<lambda>label. of_nat (length label) # map byte_of_char label) (split_on CHR ''.'' name)) @
     [0] @ u16_to_be_bytes 1 @ u16_to_be_bytes 1"

definition parses_valid_query :: "('rt, 'x) dns_libs_scheme \<Rightarrow> bool" where
  "parses_valid_query L \<longleftrightarrow>
     (case parse_udp L (query_packet ''Ads.Example.COM'') of
        Inl _ \<Rightarrow> False
      | Inr q \<Rightarrow> q_name q = ''ads.example.com'' \<and> q_type q = rt_A L)"

definition after_header :: "bytes \<Rightarrow> bytes" where "after_header b = replicate HEADER 0 @ b"

definition rejects_malformed_without_panicking :: "('rt, 'x) dns_libs_scheme \<Rightarrow> bool" where
  "rejects_malformed_without_panicking L \<longleftrightarrow>
     parse_udp L [] = Inl (TooShort 0) \<and>
     (case parse_udp L (replicate 5 0) of Inl _ \<Rightarrow> True | Inr _ \<Rightarrow> False) \<and>
     parse_udp L (replicate HEADER 0) = Inl Truncated \<and>
     parse_udp L (after_header [10, 97, 98, 99]) = Inl Truncated \<and>
     parse_udp L (after_header [3, 97, 98, 99]) = Inl Truncated \<and>
     parse_udp L (after_header [0xC0, 0x0C]) = Inl CompressionPointer \<and>
     parse_udp L (after_header [0x41, 97]) = Inl (LabelTooLong 0x41) \<and>
     parse_udp L (after_header [3, 97, 98, 99, 0]) = Inl Truncated"

definition parse_ttl_never_panics_on_short_answer :: bool where
  "parse_ttl_never_panics_on_short_answer \<longleftrightarrow> parse_ttl (replicate 4 0) 0 = 0"

lemma query_packet_bytes:
  "parse_question (query_packet ''Ads.Example.COM'') = Inr (map byte_of_char ''ads.example.com'', 28)"
  "parse_qtype (query_packet ''Ads.Example.COM'') 28 = Inr 1"
  "from_utf8_lossy (map byte_of_char ''ads.example.com'') = ''ads.example.com''"
  "\<not> length (query_packet ''Ads.Example.COM'') < HEADER"
  by code_simp+

lemma parses_valid_query_holds: "record_type_law L \<Longrightarrow> parses_valid_query L"
proof -
  assume "record_type_law L"
  then have "rt_from_u16 L 1 = rt_A L" by (simp add: record_type_law_def)
  moreover have "parse_udp L (query_packet ''Ads.Example.COM'') =
      Inr \<lparr>q_name = ''ads.example.com'', q_type = rt_from_u16 L 1, q_raw = query_packet ''Ads.Example.COM'',
        q_answer_offset = 28 + 5\<rparr>"
    by (simp only: parse_udp_def query_packet_bytes sum.case prod.case if_False)
  ultimately show ?thesis by (simp add: parses_valid_query_def)
qed

lemma parse_udp_bad_question:
  "\<not> length data < HEADER \<Longrightarrow> parse_question data = Inl e \<Longrightarrow> parse_udp L data = Inl e"
  "\<not> length data < HEADER \<Longrightarrow> parse_question data = Inr (n, i) \<Longrightarrow> parse_qtype data i = Inl e \<Longrightarrow>
     parse_udp L data = Inl e"
  by (simp_all add: parse_udp_def)

lemma malformed_questions:
  "parse_question (replicate HEADER 0) = Inl Truncated"
  "parse_question (after_header [10, 97, 98, 99]) = Inl Truncated"
  "parse_question (after_header [3, 97, 98, 99]) = Inl Truncated"
  "parse_question (after_header [0xC0, 0x0C]) = Inl CompressionPointer"
  "parse_question (after_header [0x41, 97]) = Inl (LabelTooLong 0x41)"
  "parse_question (after_header [3, 97, 98, 99, 0]) = Inr ([97, 98, 99], 16)"
  "parse_qtype (after_header [3, 97, 98, 99, 0]) 16 = Inl Truncated"
  by code_simp+

lemma rejects_malformed_holds: "rejects_malformed_without_panicking L"
proof -
  have long: "\<not> length (after_header b) < HEADER" "\<not> length (replicate HEADER (0 :: u8)) < HEADER" for b
    by (simp_all add: after_header_def)
  note bad = parse_udp_bad_question(1) [OF long(1)]
  have "parse_udp L [] = Inl (TooShort 0)" "parse_udp L (replicate 5 0) = Inl (TooShort 5)"
    by (simp_all add: parse_udp_def HEADER_def)
  moreover have "parse_udp L (replicate HEADER 0) = Inl Truncated"
    by (rule parse_udp_bad_question(1) [OF long(2) malformed_questions(1)])
  moreover have "parse_udp L (after_header [3, 97, 98, 99, 0]) = Inl Truncated"
    by (rule parse_udp_bad_question(2) [OF long(1) malformed_questions(6,7)])
  ultimately show ?thesis
    by (simp only: rejects_malformed_without_panicking_def bad malformed_questions sum.case simp_thms)
qed

lemma parse_ttl_never_panics_holds: parse_ttl_never_panics_on_short_answer
  unfolding parse_ttl_never_panics_on_short_answer_def by code_simp

section \<open>The lists\<close>

definition domain_set_of :: "string list \<Rightarrow> domain_set" where "domain_set_of items = set items"

definition suffix_matches_subdomains_but_not_partial_labels :: "('rt, 'x) dns_libs_scheme \<Rightarrow> bool" where
  "suffix_matches_subdomains_but_not_partial_labels L \<longleftrightarrow>
     (let s = domain_set_of [''doubleclick.net'', ''example.com''] in
      any_suffix_match L s ''doubleclick.net'' \<and>
      any_suffix_match L s ''ad.doubleclick.net'' \<and>
      any_suffix_match L s ''a.b.c.example.com'' \<and>
      \<not> any_suffix_match L s ''notdoubleclick.net'' \<and>
      \<not> any_suffix_match L s ''example.com.evil.org'' \<and>
      \<not> any_suffix_match L s ''net'' \<and>
      \<not> any_suffix_match L (domain_set_of []) ''anything.com'')"

definition allowlist_overrides_blocklist :: "('rt, 'x) dns_libs_scheme \<Rightarrow> bool" where
  "allowlist_overrides_blocklist L \<longleftrightarrow>
     (let block = domain_set_of [''example.com'']; allow = domain_set_of [''good.example.com''] in
      decide L block allow ''ads.example.com'' \<and>
      \<not> decide L block allow ''good.example.com'' \<and>
      \<not> decide L block allow ''x.good.example.com'')"

definition newline :: string where "newline = [CHR 0x0A]"

definition test_list :: string where
  "test_list = ''# comment'' @ newline @ ''0.0.0.0 ads.com'' @ newline @
     ''127.0.0.1 tracker.net evil.org'' @ newline @ ''plain.io'' @ newline @ newline @ ''bad'' @ newline"

definition validation_and_parsing :: "('rt, 'x) dns_libs_scheme \<Rightarrow> bool" where
  "validation_and_parsing L \<longleftrightarrow>
     is_valid_domain ''example.com'' \<and> \<not> is_valid_domain ''nodot'' \<and>
     \<not> is_valid_domain ''bad_.com.'' \<and> \<not> is_valid_domain [] \<and>
     parse_domain_list L test_list = [''ads.com'', ''tracker.net'', ''evil.org'', ''plain.io'']"

lemma sample_covering:
  "covers ''doubleclick.net'' ''doubleclick.net''" "covers ''doubleclick.net'' ''ad.doubleclick.net''"
  "covers ''example.com'' ''a.b.c.example.com''" "\<not> covers ''doubleclick.net'' ''notdoubleclick.net''"
  "\<not> covers ''example.com'' ''notdoubleclick.net''" "\<not> covers ''doubleclick.net'' ''example.com.evil.org''"
  "\<not> covers ''example.com'' ''example.com.evil.org''" "\<not> covers ''doubleclick.net'' ''net''"
  "\<not> covers ''example.com'' ''net''" "covers ''example.com'' ''ads.example.com''"
  "\<not> covers ''good.example.com'' ''ads.example.com''" "covers ''good.example.com'' ''good.example.com''"
  "covers ''good.example.com'' ''x.good.example.com''"
  by code_simp+

lemma covered_by_set:
  "covered_by (domain_set_of []) n \<longleftrightarrow> False"
  "covered_by (domain_set_of (d # ds)) n \<longleftrightarrow> covers d n \<or> covered_by (domain_set_of ds) n"
  by (auto simp: covered_by_def domain_set_of_def)

lemma suffix_matches_holds: "memchr_law L \<Longrightarrow> suffix_matches_subdomains_but_not_partial_labels L"
  by (simp only: suffix_matches_subdomains_but_not_partial_labels_def Let_def any_suffix_match_iff
      covered_by_set sample_covering simp_thms)

lemma allowlist_overrides_holds: "memchr_law L \<Longrightarrow> allowlist_overrides_blocklist L"
  by (simp only: allowlist_overrides_blocklist_def Let_def decide_iff covered_by_set sample_covering
      simp_thms)

text \<open>Every token of the test list is in lower case and without a final dot.\<close>

definition plain_name :: "string \<Rightarrow> bool" where
  "plain_name s \<longleftrightarrow> trim_end_dots s = s \<and>
     list_all (\<lambda>c. is_ascii (byte_of_char c) \<and> to_ascii_lowercase (byte_of_char c) = byte_of_char c) s"

lemma accept_plain: "plain_name s \<Longrightarrow> accept_domain L s = (if is_valid_domain s then [s] else [])"
  by (simp add: plain_name_def accept_domain_def to_lowercase_fixed Let_def)

lemma test_names:
  "plain_name ''ads.com''" "plain_name ''tracker.net''" "plain_name ''evil.org''" "plain_name ''plain.io''"
  "plain_name ''bad''" "is_valid_domain ''ads.com''" "is_valid_domain ''tracker.net''"
  "is_valid_domain ''evil.org''" "is_valid_domain ''plain.io''" "\<not> is_valid_domain ''bad''"
  "is_valid_domain ''example.com''" "\<not> is_valid_domain ''nodot''" "\<not> is_valid_domain ''bad_.com.''"
  "\<not> is_valid_domain []"
  by code_simp+

lemma test_lines:
  "text_lines test_list = [''# comment'', ''0.0.0.0 ads.com'', ''127.0.0.1 tracker.net evil.org'', ''plain.io'', [], ''bad'']"
  "trim (hd (split_on CHR ''#'' ''# comment'')) = []" "trim (hd (split_on CHR ''#'' [])) = []"
  "trim (hd (split_on CHR ''#'' ''0.0.0.0 ads.com'')) = ''0.0.0.0 ads.com''"
  "trim (hd (split_on CHR ''#'' ''127.0.0.1 tracker.net evil.org'')) = ''127.0.0.1 tracker.net evil.org''"
  "trim (hd (split_on CHR ''#'' ''plain.io'')) = ''plain.io''" "trim (hd (split_on CHR ''#'' ''bad'')) = ''bad''"
  "split_whitespace ''0.0.0.0 ads.com'' = [''0.0.0.0'', ''ads.com'']"
  "split_whitespace ''127.0.0.1 tracker.net evil.org'' = [''127.0.0.1'', ''tracker.net'', ''evil.org'']"
  "split_whitespace ''plain.io'' = [''plain.io'']" "split_whitespace ''bad'' = [''bad'']"
  "is_ip_addr ''0.0.0.0''" "is_ip_addr ''127.0.0.1''"
  by code_simp+

lemma no_ipv6:
  assumes "read_ipv4 s = None" and "read_given_char CHR '':'' s = None"
    and "\<And>r. read_number 16 4 True 65535 s = Some r \<Longrightarrow> read_given_char CHR '':'' r = None"
  shows "\<not> is_ip_addr s"
proof (cases "read_number 16 4 True 65535 s")
  case None
  with assms show ?thesis
    by (simp add: is_ip_addr_def read_ipv6_def read_groups.simps [of 0] read_separator_def)
next
  case (Some r)
  with assms show ?thesis
    by (simp add: is_ip_addr_def read_ipv6_def read_groups.simps [of 0] read_groups.simps [of "Suc 0"] read_separator_def)
qed

lemma read_ipv4_first: "read_number 10 3 False 255 s = None \<Longrightarrow> read_ipv4 s = None"
  by (simp add: read_ipv4_def read_octet_def read_separator_def)

lemma digit_runs:
  "takeWhile (is_digit_in 10) ''plain.io'' = []" "takeWhile (is_digit_in 10) ''bad'' = []"
  "takeWhile (is_digit_in 16) ''plain.io'' = []" "takeWhile (is_digit_in 16) ''bad'' = ''bad''"
  "digits_value 16 ''bad'' = 2989"
  by code_simp+

lemma address_parts:
  "read_number 10 3 False 255 ''plain.io'' = None" "read_number 10 3 False 255 ''bad'' = None"
  "read_given_char CHR '':'' ''plain.io'' = None" "read_given_char CHR '':'' ''bad'' = None"
  "read_number 16 4 True 65535 ''plain.io'' = None" "read_number 16 4 True 65535 ''bad'' = Some []"
  "read_given_char CHR '':'' [] = None"
  unfolding read_number_def digit_runs Let_def read_given_char_def by simp_all

lemma no_addresses: "\<not> is_ip_addr ''plain.io''" "\<not> is_ip_addr ''bad''"
  by (rule no_ipv6, simp_all only: read_ipv4_first address_parts option.distinct option.inject)+

lemma validation_and_parsing_holds: "validation_and_parsing L"
proof -
  have "parse_domain_line L ''# comment'' = []" "parse_domain_line L [] = []"
    by (simp_all only: parse_domain_line_def test_lines Let_def if_True simp_thms)
  moreover have "parse_domain_line L ''0.0.0.0 ads.com'' = [''ads.com'']"
    "parse_domain_line L ''127.0.0.1 tracker.net evil.org'' = [''tracker.net'', ''evil.org'']"
    "parse_domain_line L ''plain.io'' = [''plain.io'']" "parse_domain_line L ''bad'' = []"
    by (simp_all only: parse_domain_line_def test_lines no_addresses accept_plain test_names Let_def if_True
        if_False list.distinct list.case list.map concat.simps append_Nil append_Nil2 append_Cons)
  ultimately show ?thesis
    by (simp only: validation_and_parsing_def parse_domain_list_def test_lines test_names list.map
        concat.simps append_Nil append_Nil2 append_Cons simp_thms)
qed

end
