(* ===== verification/Deviations.thy ===== *)
theory Deviations
  imports System_Events Concurrency Wire_Properties Samples
begin

text \<open>
  Where the code does not do what it means to, beside the properties that show as much: each
  lemma is the behaviour of the model that a finding of the manifest reports.
\<close>

section \<open>Queries\<close>

text \<open>The access list of \<open>main.rs\<close> reaches the pinned workers only: the handler answers any source alike.\<close>

lemma world_of_asked [simp]: "world_of (s\<lparr>sy_asked := xs\<rparr>) = world_of s"
  by (simp add: world_of_def)

lemma access_list_not_consulted:
  "map snd (sy_replies (ask_handler L rq cl data s)) = map snd (sy_replies (ask_handler L rq cl' data s))"
proof (cases "parse_udp L data")
  case (Inr q)
  then show ?thesis
    by (cases rule: begin_query_cases [of L "s\<lparr>sy_asked := sy_asked s @ [(cl, data)]\<rparr>" rq q cl];
        cases rule: begin_query_cases [of L "s\<lparr>sy_asked := sy_asked s @ [(cl', data)]\<rparr>" rq q cl'])
      (simp_all add: ask_handler_def)
qed (simp add: ask_handler_def)

section \<open>Lists\<close>

text \<open>An addition whose statements fail reports an error and blocks the domains all the same.\<close>

lemma failed_addition_blocks:
  assumes "fst (add_block_domains L list ds c) = Inl e"
  shows "c_block (snd (add_block_domains L list ds c)) = c_block c \<union> set (normalize_domains L ds)"
  using assms by (auto simp: add_block_domains_def cow_insert_def Let_def fold_insert_set
      split: if_splits prod.splits sum.splits)

text \<open>An added domain is normalised, a removed one only put in lower case.\<close>

lemma removal_by_added_text_fails:
  fixes c :: "(sample_moka, unit, sample_db) cache"
  assumes "c_block c = {}" and "c_db c = ([], [])"
  defines "c1 \<equiv> snd (add_block_domains sample_cache_libs ''own'' [''x.com.''] c)"
  shows "c_block c1 = {''x.com''}"
    and "fst (remove_block_domain sample_cache_libs ''x.com.'' c1) = Inr False"
    and "c_block (snd (remove_block_domain sample_cache_libs ''x.com.'' c1)) = {''x.com''}"
proof -
  have t: "trim_end_dots (trim ''x.com.'') = ''x.com''" "is_valid_domain ''x.com''" by code_simp+
  have low: "to_lowercase sample_cache_libs ''x.com'' = ''x.com''"
    "to_lowercase sample_cache_libs ''x.com.'' = ''x.com.''"
    by (rule to_lowercase_fixed, code_simp)+
  have n: "normalize_domains sample_cache_libs [''x.com.''] = [''x.com'']"
    using t low by (simp only: normalize_domains_def list.map filter.simps if_True)
  show one: "c_block c1 = {''x.com''}"
    using assms(1,2) by (simp add: c1_def add_block_domains_def n cow_insert_def Let_def split: prod.split sum.split)
  have d: "fst (sql_delete_blocked sample_cache_libs d db) = Inr ()" for d db
    by (simp add: sample_cache_libs_def)
  show "fst (remove_block_domain sample_cache_libs ''x.com.'' c1) = Inr False"
    using d [of "''x.com.''" "c_db c1"]
    by (auto simp: remove_block_domain_def low one Let_def split: prod.split sum.split)
  show "c_block (snd (remove_block_domain sample_cache_libs ''x.com.'' c1)) = {''x.com''}"
    by (simp add: remove_block_domain_def low one Let_def split: prod.split sum.split)
qed

section \<open>Configuration, tokens and counts\<close>

text \<open>Two patches of different fields, both reported as done: memory has one, the table the other.\<close>

lemma concurrent_patches_diverge:
  defines "base \<equiv> from_cli [] 2000"
    and "p \<equiv> empty_patch\<lparr>p_neg_ttl := Some 7\<rparr>" and "q \<equiv> empty_patch\<lparr>p_cache_min_ttl := Some 9\<rparr>"
  shows "(patch_step sample_settings)\<^sup>*\<^sup>* (patch_start base None)
    (patch_start (apply_to p base) (Some (config_text (apply_to q base))))"
proof -
  let ?s = "patch_start base (None :: string option)"
  have "(patch_step sample_settings)\<^sup>*\<^sup>* ?s
      (?s\<lparr>pt_db := Some (config_text (apply_to q base)), pt_config := apply_to p base\<rparr>)"
    using patch_interrupted [of ?s 0 1 sample_settings p "Some (config_text (apply_to p base))" q
        "Some (config_text (apply_to q base))"]
    by (simp add: patch_start_def persist_def sample_settings_def)
  then show ?thesis by (simp add: patch_start_def)
qed

lemma sint_i64: "sint (x :: i64) = (if 2 ^ 63 \<le> uint x then uint x - 2 ^ 64 else uint x)"
proof -
  have "uint x div 2 ^ 63 = 1" if "2 ^ 63 \<le> uint x"
    using that uint_bounded [of x] by (intro int_div_pos_eq [where r = "uint x - 2 ^ 63"]) simp_all
  moreover have "uint x div 2 ^ 63 = 0" if "uint x < 2 ^ 63"
    using that by (intro div_pos_pos_trivial) simp_all
  ultimately have "uint x div 2 ^ 63 = (if 2 ^ 63 \<le> uint x then 1 else 0)" by (simp add: not_le)
  then have "bit (uint x) 63 \<longleftrightarrow> 2 ^ 63 \<le> uint x" by (simp add: bit_iff_odd)
  moreover have "take_bit 64 (uint x) = uint x"
    using uint_bounded [of x] by (simp add: take_bit_int_eq_self)
  ultimately show ?thesis
    by (simp add: sint_uint signed_take_bit_eq_take_bit_minus)
qed

text \<open>The longest lifetime a client can ask for gives a token that has expired.\<close>

lemma longest_lifetime_expires:
  assumes "0 < sint (ae_unix env)"
  shows "\<exists>t. token_expiry env (Some 0x7FFFFFFFFFFFFFFF) = Some t \<and> sint t < 0"
proof -
  let ?w = "ae_unix env" and ?t = "ae_unix env + 0x7FFFFFFFFFFFFFFF"
  have "\<not> 2 ^ 63 \<le> uint ?w" and "uint ?w \<noteq> 0"
    using assms sint_i64 [of ?w] uint_bounded [of ?w] by (auto split: if_splits)
  then have w: "0 < uint ?w" "uint ?w < 2 ^ 63" by (simp_all add: less_le)
  then have "uint ?t = uint ?w + 0x7FFFFFFFFFFFFFFF"
    by (simp add: uint_word_ariths)
  with w sint_i64 [of ?t] have "sint ?t < 0" by simp
  then show ?thesis by (simp add: token_expiry_def)
qed

text \<open>
  A partition without a committed offset: the broker library reports the marker \<open>-1001\<close>, which
  is taken for an offset. With nothing to read, the lag is the high watermark and 1001 more.
\<close>

lemma uncommitted_partition_lags:
  assumes "br_committed b = [(pid, Some (-1001))]" and "br_watermarks b pid = Some (5, 5)"
  shows "ks_consumer_lag (add_partition b pid s) = ks_consumer_lag s + 1006"
    and "ks_total_messages (add_partition b pid s) = ks_total_messages s"
  using assms by (simp_all add: add_partition_def committed_offset_def unwrap_or_def i64_max_def)

text \<open>A page offset of \<open>2 ^ 63\<close> reaches the database as a negative number.\<close>

lemma page_offset_negative:
  "sint (snd (resolve_page \<lparr>pg_limit = None, pg_offset = Some (2 ^ 63)\<rparr>)) = - (2 ^ 63)"
  by (simp add: resolve_page_def unwrap_or_def)

end
