(* ===== verification/Spec2Isabelle.thy ===== *)
theory Spec2Isabelle
  imports System_Properties Database Unit_Tests Deviations
begin

text \<open>
  A model of denis, a DNS forwarder that blocks listed domains, with the theorems that make its
  parts correct. The program is the Rust crate under \<open>src/backend/src/\<close>.

  \<^bold>\<open>How the program works.\<close> A query arrives over UDP or TCP. On the Monoio runtime, UDP
  datagrams go to workers pinned to cores (\<open>dns/mono.rs\<close>), which apply the access list
  (\<open>acl.rs\<close>), answer blocked names and cached answers themselves, and hand the rest over; on
  the Tokio runtime, and for TCP on both, \<open>dns/server.rs\<close> receives. Both end in the query
  handler (\<open>handler/query.rs\<close>): it parses the question (\<open>handler/parser.rs\<close>), decides from
  the domain lists and looks in the answer cache (\<open>repo/cache.rs\<close>), and otherwise asks the
  upstream servers (\<open>handler/upstream.rs\<close>, which also builds the replies for blocked names)
  and stores what they answer. Every reply makes an event, which the analytics tasks
  (\<open>analytics/\<close>) count and pass to Kafka and ClickHouse. The management API (\<open>api/\<close>) changes
  the lists, the configuration (\<open>config.rs\<close>), accounts and tokens, behind a check of sessions
  and tokens. \<open>main.rs\<close> builds all this from the options of \<open>cli.rs\<close>, on the tables that the
  modules create in the database (\<open>db.rs\<close>).

  \<^bold>\<open>Theories.\<close>
  \<^item> \<open>Prelude\<close>: machine integers, checked slices, big-endian conversions, invariants of step
    relations (locale \<open>step_invariant\<close>). \<open>Utf8\<close>, \<open>Rust_Text\<close>: the text functions of Rust's
    standard library that the sources use. \<open>Externals\<close>: the third-party operations of the DNS
    path as a record, with the laws their documentation states.
  \<^item> \<open>Parser\<close> (\<open>handler/parser.rs\<close>), \<open>Wire_Names\<close> (names as the protocol encodes them),
    \<open>Responses\<close> and \<open>Upstream\<close> (\<open>handler/upstream.rs\<close>), \<open>Config\<close> (\<open>config.rs\<close>).
  \<^item> \<open>Domains\<close> (decision, validation, list files), \<open>Cache\<close> and \<open>Cache_Correct\<close> (answer cache,
    lists, tables), \<open>Concurrency\<close> (updates under the write lock and patches, step by step):
    \<open>repo/cache.rs\<close> and \<open>patch_config\<close>.
  \<^item> \<open>Handler\<close>, \<open>Handler_Correct\<close>, \<open>Handler_Steps\<close> (\<open>handler/query.rs\<close>, whole and cut at the wait
    for an upstream server), \<open>Acl\<close> (\<open>acl.rs\<close>), \<open>Mono\<close> (\<open>dns/mono.rs\<close>, one packet at a time),
    \<open>Server\<close> (\<open>dns/server.rs\<close> and the choice of front end), \<open>Workers\<close> (\<open>dns/mono.rs\<close> with its
    cold path, step by step), \<open>Listeners\<close> and \<open>Listeners_Correct\<close> (\<open>dns/server.rs\<close> with every
    connection turn by turn, the sockets of \<open>dns/mono.rs\<close>, the end of \<open>main.rs\<close>).
  \<^item> \<open>Auth\<close> (\<open>api/auth.rs\<close>), \<open>Api\<close>, \<open>Api_Correct\<close>, \<open>Api_Effects\<close> (\<open>api/mod.rs\<close>, and what a
    request leaves alone), \<open>Analytics\<close> (\<open>analytics/\<close>), \<open>Startup\<close> (\<open>cli.rs\<close>, \<open>main.rs\<close>),
    \<open>Database\<close> (\<open>db.rs\<close>, the creation of the tables, the clients of Kafka and ClickHouse),
    \<open>Loadgen\<close> (\<open>examples/loadgen.rs\<close>).
  \<^item> \<open>System\<close>: the running program, with all of its parts on the state they share, as one step
    relation; \<open>System_Blocking\<close>, \<open>System_Correct\<close>, \<open>System_Events\<close>: its invariants.
  \<^item> \<open>Unit_Tests\<close>: the assertions of the repository's own unit tests, which hold of the model.
  \<^item> \<open>Deviations\<close>: what the code does where it does not do what it means to, as far as no
    property says so.
  \<^item> \<open>Samples\<close>, \<open>Api_Samples\<close>: concrete libraries that satisfy every law, on which the
    witnesses run. \<open>Wire_Properties\<close>, \<open>Cache_Properties\<close>, \<open>Service_Properties\<close>,
    \<open>Management_Properties\<close>, \<open>System_Properties\<close>: the properties C1 to C40, each with its
    witness.

  \<^bold>\<open>State and operations.\<close> A struct is a record, an enum a datatype, an integer a word of its
  width, a Rust string the list of its bytes. A method that changes state is a function that
  returns the new state beside its result; a \<open>Result\<close> is a sum with the error on the left; a
  panic is \<^const>\<open>None\<close> or a constructor of its own. Readings of clocks, random bytes, the
  network and what remote services answer are arguments. What runs concurrently is a step
  relation: UDP tasks (\<open>udp_step\<close>), pinned workers with their cold path (\<open>worker_step\<close>),
  the analytics channel (\<open>producer_step\<close>), the batching consumer (\<open>consumer_step\<close>), list
  updates (\<open>list_step\<close>), patches (\<open>patch_step\<close>), sessions (\<open>auth_step\<close>), API requests
  (\<open>api_step\<close>), TCP connections (\<open>tcp_step\<close>), the Tokio server with UDP and TCP
  (\<open>server_step\<close>), and the program as a whole (\<open>system_step\<close>). Each has an invariant that an
  interpretation of \<open>step_invariant\<close> carries to all reachable states.

  \<^bold>\<open>Interfaces.\<close> \<open>name_policy\<close> is what the cache and the handlers need of the block decision,
  \<open>domain_store\<close> and \<open>removable_store\<close> what the API needs of the lists, \<open>reply_service\<close> what a
  front end needs of a handler; each is interpreted on the model's own definitions in the
  theory of the component that provides it.

  \<^bold>\<open>What is shown.\<close> The parser inverts the encoding of a question and refuses everything else
  with the right error; the optimised block decision is the one by whole labels; replies carry
  the transaction id and the question; a pinned worker answers as the full handler does; cached
  answers belong to their key and outlive no TTL; memory and tables agree after every sequence
  of successful operations and after a restart; concurrent updates of the lists are
  linearizable in memory; UDP tasks and pinned workers leak nothing between clients and TCP clients read back
  exactly the replies to their queries; a protected request needs a recent login or a live
  token, and without one changes nothing; counts reported by the API add up; events and rows
  are neither invented, duplicated nor reordered on their way; a start pins every thread to a
  core, has every table it reads and begins in a state where all of the above holds. For the
  program as a whole: whatever order its parts work in, every reply answers a message that was
  asked and each message is answered once at most; a name that is blocked stays blocked on every
  path until a request lifts it; every row that ClickHouse stores tells of one reply; a failed
  start of a socket stops exactly what the code lets it stop. Properties named as findings in
  the manifest show where the code does not do what it means to.

  \<^bold>\<open>Loops.\<close> Loops over data are structural recursions or functions with a measure (the rest of
  the packet, of the stream, of the list), so that they return for every input. The loop that
  waits for ClickHouse and the loop of the load generator need not end: each is a partial
  function, and the property about it states exactly when it returns. No fuel is used.

  \<^bold>\<open>Not modelled.\<close> Sockets, threads, TLS and HTTP themselves, and the setting of core affinity;
  path matching and JSON decoding (axum, serde), argument parsing (clap); the texts of the SQL
  statements that read and write rows, replaced by the laws of what they do; the histogram
  buckets and the text format of the counters; the report the load generator prints. A query of
  \<open>handle\<close> runs without interruption and reads the configuration once; in \<open>system_step\<close> it lets
  others go on while it waits for an upstream server, and reads the configuration again after
  that, and so the lists may change under it. One API request runs without interruption, except
  in \<open>list_step\<close> and \<open>patch_step\<close>, which are about nothing else.
\<close>

end
